(* ===== verification/Prelude.thy ===== *)
theory Prelude
  imports Complex_Main "HOL-Library.Word"
begin

text \<open>
  Shared vocabulary of the development: how the JavaScript values of OpenTTT are
  represented, and the generic lemmas every component uses.

  \<^item> \<open>BigInt\<close> is \<open>int\<close>; its division truncates towards zero (\<open>tdiv\<close>).
  \<^item> \<open>number\<close> is \<open>int\<close> where the code only ever stores integers there, and \<open>rat\<close> where
    fractions occur (uncertainties, confidences, rates).  Double rounding, \<open>NaN\<close> and the
    infinities are not represented; where the code can meet \<open>NaN\<close> (an unparsable date)
    the model has an explicit option.
  \<^item> \<open>string\<close> is a list of characters, that is the JavaScript strings whose code units
    are at most 255.
  \<^item> \<open>Buffer\<close> and \<open>Uint8Array\<close> are lists of \<open>8 word\<close>.
\<close>

section \<open>Fact collections\<close>

named_theorems byte_simps "lengths and values of byte encodings"
named_theorems jmap_simps "lookup, membership and size of insertion-ordered maps"

type_synonym byte = "8 word"
type_synonym bytes = "byte list"

section \<open>Numbers\<close>

text \<open>BigInt division: the quotient is truncated towards zero.\<close>

definition tdiv :: "int \<Rightarrow> int \<Rightarrow> int" where
  "tdiv a b = sgn a * sgn b * (\<bar>a\<bar> div \<bar>b\<bar>)"

lemma tdiv_nonneg: "0 \<le> a \<Longrightarrow> 0 < b \<Longrightarrow> tdiv a b = a div b"
  by (cases "a = 0") (simp_all add: tdiv_def)

lemma tdiv_2_even [simp]: "tdiv (2 * a) 2 = a"
  by (simp add: tdiv_def abs_mult sgn_mult mult_sgn_abs)

lemma tdiv_2_bounds: "\<bar>2 * tdiv a 2 - a\<bar> \<le> 1"
  by (cases a "0 :: int" rule: linorder_cases) (simp_all add: tdiv_def)

text \<open>\<open>Math.round\<close>: the nearest integer, halves towards plus infinity.\<close>

definition js_round :: "rat \<Rightarrow> int" where
  "js_round x = \<lfloor>x + 1 / 2\<rfloor>"

lemma js_round_of_int [simp]: "js_round (of_int k) = k"
  by (simp add: js_round_def floor_eq_iff)

lemma js_round_mono: "x \<le> y \<Longrightarrow> js_round x \<le> js_round y"
  by (simp add: js_round_def floor_mono)

section \<open>Decimal notation\<close>

text \<open>\<open>toString()\<close> of an integer: digits, with a minus sign when negative.\<close>

fun nat_digits :: "nat \<Rightarrow> string" where
  "nat_digits n =
     (if n < 10 then [char_of (48 + n)] else nat_digits (n div 10) @ [char_of (48 + n mod 10)])"

declare nat_digits.simps [simp del]

definition show_int :: "int \<Rightarrow> string" where
  "show_int i = (if i < 0 then CHR ''-'' # nat_digits (nat (- i)) else nat_digits (nat i))"

text \<open>Reading a number back, as \<open>BigInt(string)\<close> does for the strings above.\<close>

definition digit_val :: "char \<Rightarrow> nat option" where
  "digit_val c = (let n = of_char c in if 48 \<le> n \<and> n \<le> 57 then Some (n - 48) else None)"

fun read_digits :: "nat \<Rightarrow> string \<Rightarrow> nat option" where
  "read_digits acc [] = Some acc"
| "read_digits acc (c # cs) =
     (case digit_val c of None \<Rightarrow> None | Some d \<Rightarrow> read_digits (10 * acc + d) cs)"

definition read_int :: "string \<Rightarrow> int option" where
  "read_int s =
     (case s of [] \<Rightarrow> None
      | c # cs \<Rightarrow>
          (if c = CHR ''-'' then
             (if cs = [] then None else map_option (\<lambda>n. - int n) (read_digits 0 cs))
           else map_option int (read_digits 0 s)))"

lemma digit_val_digit [simp]: "n < 10 \<Longrightarrow> digit_val (char_of (48 + n)) = Some n"
  by (simp add: digit_val_def Let_def)

lemma read_digits_append:
  "read_digits acc (xs @ ys) =
     (case read_digits acc xs of None \<Rightarrow> None | Some a \<Rightarrow> read_digits a ys)"
  by (induction xs arbitrary: acc) (auto split: option.splits)

lemma read_digits_nat_digits:
  "\<exists>k. read_digits acc (nat_digits n) = Some (acc * 10 ^ k + n)"
proof (induction n arbitrary: acc rule: nat_digits.induct)
  case (1 n)
  show ?case
  proof (cases "n < 10")
    case True
    then have "read_digits acc (nat_digits n) = Some (acc * 10 ^ 1 + n)"
      by (subst nat_digits.simps) simp
    then show ?thesis by blast
  next
    case False
    with "1.IH" obtain k where "read_digits acc (nat_digits (n div 10)) = Some (acc * 10 ^ k + n div 10)"
      by blast
    with False have "read_digits acc (nat_digits n) = Some (acc * 10 ^ Suc k + n)"
      by (subst nat_digits.simps) (simp add: read_digits_append algebra_simps)
    then show ?thesis by blast
  qed
qed

lemma read_nat_digits [simp]: "read_digits 0 (nat_digits n) = Some n"
  using read_digits_nat_digits [of 0 n] by auto

lemma nat_digits_nonempty [simp]: "nat_digits n \<noteq> []"
  by (subst nat_digits.simps) simp

lemma set_nat_digits: "set (nat_digits n) \<subseteq> {c. \<exists>d < 10. c = char_of (48 + d :: nat)}"
proof (induction n rule: nat_digits.induct)
  case (1 n)
  show ?case
  proof (cases "n < 10")
    case True
    then show ?thesis by (subst nat_digits.simps) auto
  next
    case False
    then have eq: "nat_digits n = nat_digits (n div 10) @ [char_of (48 + n mod 10)]"
      by (subst nat_digits.simps) simp
    have "n mod 10 < 10" by simp
    then have "char_of (48 + n mod 10) \<in> {c. \<exists>d < 10. c = char_of (48 + d :: nat)}"
      by blast
    with False "1.IH" eq show ?thesis by simp
  qed
qed

lemma nat_digits_not_minus: "CHR ''-'' \<notin> set (nat_digits n)"
proof
  assume "CHR ''-'' \<in> set (nat_digits n)"
  then obtain d where "d < 10" and d: "CHR ''-'' = char_of (48 + d :: nat)"
    using set_nat_digits by blast
  have "of_char (CHR ''-'') = (45 :: nat)" by simp
  with d \<open>d < 10\<close> show False by (simp add: of_char_of)
qed

lemma nat_digits_not_colon: "CHR '':'' \<notin> set (nat_digits n)"
proof
  assume "CHR '':'' \<in> set (nat_digits n)"
  then obtain d where "d < 10" and d: "CHR '':'' = char_of (48 + d :: nat)"
    using set_nat_digits by blast
  have "of_char (CHR '':'') = (58 :: nat)" by simp
  with d \<open>d < 10\<close> show False by (simp add: of_char_of)
qed

lemma read_show_int [simp]: "read_int (show_int i) = Some i"
proof (cases "i < 0")
  case True
  then show ?thesis by (simp add: show_int_def read_int_def)
next
  case False
  obtain c cs where cs: "nat_digits (nat i) = c # cs"
    by (cases "nat_digits (nat i)") simp_all
  then have "c \<noteq> CHR ''-''"
    using nat_digits_not_minus [of "nat i"] by auto
  with False cs show ?thesis
    using read_nat_digits [of "nat i"] by (simp add: show_int_def read_int_def del: read_nat_digits)
qed

lemma show_int_inject [simp]: "show_int i = show_int j \<longleftrightarrow> i = j"
  by (metis option.inject read_show_int)

lemma show_int_not_colon: "CHR '':'' \<notin> set (show_int i)"
  using nat_digits_not_colon by (auto simp: show_int_def)

section \<open>Letters\<close>

text \<open>\<open>toLowerCase\<close> on the characters of the model, up to code 255.\<close>

definition js_lower_char :: "char \<Rightarrow> char" where
  "js_lower_char c =
     (let n = of_char c :: nat in
      if (65 \<le> n \<and> n \<le> 90) \<or> (192 \<le> n \<and> n \<le> 222 \<and> n \<noteq> 215) then char_of (n + 32) else c)"

definition toLowerCase :: "string \<Rightarrow> string" where
  "toLowerCase s = map js_lower_char s"

section \<open>Searching and comparing strings\<close>

text \<open>\<open>includes\<close>, and \<open><\<close> by code units.\<close>

fun js_includes :: "string \<Rightarrow> string \<Rightarrow> bool" where
  "js_includes sub [] = (sub = [])"
| "js_includes sub (c # cs) = (take (length sub) (c # cs) = sub \<or> js_includes sub cs)"

fun js_less :: "string \<Rightarrow> string \<Rightarrow> bool" where
  "js_less _ [] = False"
| "js_less [] (d # ds) = True"
| "js_less (c # cs) (d # ds) =
     ((of_char c :: nat) < of_char d \<or> c = d \<and> js_less cs ds)"

lemma js_less_total: "s \<noteq> t \<Longrightarrow> js_less s t \<or> js_less t s"
proof (induction s t rule: js_less.induct)
  case (3 c cs d ds)
  have "c \<noteq> d \<Longrightarrow> (of_char c :: nat) < of_char d \<or> (of_char d :: nat) < of_char c"
    by (metis linorder_less_linear of_char_eq_iff)
  then show ?case using 3 by (cases "c = d") auto
qed (auto simp: neq_Nil_conv)

lemma js_less_irrefl: "\<not> js_less s s"
  by (induction s) auto

section \<open>Lists\<close>

lemma map_filter_append: "List.map_filter f (xs @ ys) = List.map_filter f xs @ List.map_filter f ys"
  by (simp add: map_filter_def)

lemma map_filter_concat: "List.map_filter f (concat xss) = concat (map (List.map_filter f) xss)"
  by (induction xss) (simp_all add: map_filter_append map_filter_simps)

end
