(* ===== verification/Errors.thy ===== *)
theory Errors
  imports Prelude
begin

text \<open>
  The error values of the SDK (\<open>src/errors.ts\<close>): the table of structured codes, the
  constructor shared by the TTT error classes, and the exceptions a call can end with.
  A function that may throw returns \<open>js_exn + 'a\<close>, with \<open>Inl\<close> for the exception.
\<close>

section \<open>The table of error codes\<close>

datatype error_key =
    CONFIG_MISSING_SIGNER | CONFIG_INVALID
  | SIGNER_NOT_INITIALIZED | SIGNER_MISSING_KEY | SIGNER_INVALID_KEY_FORMAT | SIGNER_NO_EIP712
  | SIGNER_PRIVY_NOT_IMPLEMENTED | SIGNER_KMS_AWS_INIT_FAILED | SIGNER_KMS_GCP_MISSING_FIELDS
  | SIGNER_KMS_GCP_INIT_FAILED | SIGNER_KMS_UNSUPPORTED_PROVIDER | SIGNER_UNSUPPORTED_TYPE
  | NETWORK_INVALID_RPC | NETWORK_CONNECTION_FAILED | NETWORK_CANNOT_RECONNECT
  | NETWORK_RECONNECTION_EXHAUSTED | NETWORK_TX_DROPPED | NETWORK_PROVIDER_NOT_CONNECTED
  | NETWORK_BLOCK_NOT_FOUND
  | CONTRACT_SIGNER_NOT_CONNECTED | CONTRACT_INVALID_ADDRESS | CONTRACT_NOT_ATTACHED
  | CONTRACT_BURN_FAILED | CONTRACT_MINT_FAILED | CONTRACT_BALANCE_QUERY_FAILED
  | CONTRACT_SWAP_FAILED | CONTRACT_INVALID_KEY_FORMAT
  | TIME_SYNTHESIS_INTEGRITY_FAILED | TIME_SYNTHESIS_INSUFFICIENT_CONFIDENCE
  | TIME_SYNTHESIS_SOURCE_NOT_FOUND | TIME_SYNTHESIS_ALL_SOURCES_FAILED
  | TIME_SYNTHESIS_POT_ALL_FAILED | TIME_SYNTHESIS_SELF_VERIFY_FAILED
  | FEE_CALCULATION_FAILED

fun ERROR_CODES :: "error_key \<Rightarrow> string" where
  "ERROR_CODES CONFIG_MISSING_SIGNER = ''TTT_E001''"
| "ERROR_CODES CONFIG_INVALID = ''TTT_E002''"
| "ERROR_CODES SIGNER_NOT_INITIALIZED = ''TTT_E010''"
| "ERROR_CODES SIGNER_MISSING_KEY = ''TTT_E011''"
| "ERROR_CODES SIGNER_INVALID_KEY_FORMAT = ''TTT_E012''"
| "ERROR_CODES SIGNER_NO_EIP712 = ''TTT_E013''"
| "ERROR_CODES SIGNER_PRIVY_NOT_IMPLEMENTED = ''TTT_E014''"
| "ERROR_CODES SIGNER_KMS_AWS_INIT_FAILED = ''TTT_E015''"
| "ERROR_CODES SIGNER_KMS_GCP_MISSING_FIELDS = ''TTT_E016''"
| "ERROR_CODES SIGNER_KMS_GCP_INIT_FAILED = ''TTT_E017''"
| "ERROR_CODES SIGNER_KMS_UNSUPPORTED_PROVIDER = ''TTT_E018''"
| "ERROR_CODES SIGNER_UNSUPPORTED_TYPE = ''TTT_E019''"
| "ERROR_CODES NETWORK_INVALID_RPC = ''TTT_E020''"
| "ERROR_CODES NETWORK_CONNECTION_FAILED = ''TTT_E021''"
| "ERROR_CODES NETWORK_CANNOT_RECONNECT = ''TTT_E022''"
| "ERROR_CODES NETWORK_RECONNECTION_EXHAUSTED = ''TTT_E023''"
| "ERROR_CODES NETWORK_TX_DROPPED = ''TTT_E024''"
| "ERROR_CODES NETWORK_PROVIDER_NOT_CONNECTED = ''TTT_E025''"
| "ERROR_CODES NETWORK_BLOCK_NOT_FOUND = ''TTT_E026''"
| "ERROR_CODES CONTRACT_SIGNER_NOT_CONNECTED = ''TTT_E030''"
| "ERROR_CODES CONTRACT_INVALID_ADDRESS = ''TTT_E031''"
| "ERROR_CODES CONTRACT_NOT_ATTACHED = ''TTT_E032''"
| "ERROR_CODES CONTRACT_BURN_FAILED = ''TTT_E033''"
| "ERROR_CODES CONTRACT_MINT_FAILED = ''TTT_E034''"
| "ERROR_CODES CONTRACT_BALANCE_QUERY_FAILED = ''TTT_E035''"
| "ERROR_CODES CONTRACT_SWAP_FAILED = ''TTT_E036''"
| "ERROR_CODES CONTRACT_INVALID_KEY_FORMAT = ''TTT_E037''"
| "ERROR_CODES TIME_SYNTHESIS_INTEGRITY_FAILED = ''TTT_E040''"
| "ERROR_CODES TIME_SYNTHESIS_INSUFFICIENT_CONFIDENCE = ''TTT_E041''"
| "ERROR_CODES TIME_SYNTHESIS_SOURCE_NOT_FOUND = ''TTT_E042''"
| "ERROR_CODES TIME_SYNTHESIS_ALL_SOURCES_FAILED = ''TTT_E043''"
| "ERROR_CODES TIME_SYNTHESIS_POT_ALL_FAILED = ''TTT_E044''"
| "ERROR_CODES TIME_SYNTHESIS_SELF_VERIFY_FAILED = ''TTT_E045''"
| "ERROR_CODES FEE_CALCULATION_FAILED = ''TTT_E050''"

definition all_error_keys :: "error_key list" where
  "all_error_keys =
     [CONFIG_MISSING_SIGNER, CONFIG_INVALID,
      SIGNER_NOT_INITIALIZED, SIGNER_MISSING_KEY, SIGNER_INVALID_KEY_FORMAT, SIGNER_NO_EIP712,
      SIGNER_PRIVY_NOT_IMPLEMENTED, SIGNER_KMS_AWS_INIT_FAILED, SIGNER_KMS_GCP_MISSING_FIELDS,
      SIGNER_KMS_GCP_INIT_FAILED, SIGNER_KMS_UNSUPPORTED_PROVIDER, SIGNER_UNSUPPORTED_TYPE,
      NETWORK_INVALID_RPC, NETWORK_CONNECTION_FAILED, NETWORK_CANNOT_RECONNECT,
      NETWORK_RECONNECTION_EXHAUSTED, NETWORK_TX_DROPPED, NETWORK_PROVIDER_NOT_CONNECTED,
      NETWORK_BLOCK_NOT_FOUND,
      CONTRACT_SIGNER_NOT_CONNECTED, CONTRACT_INVALID_ADDRESS, CONTRACT_NOT_ATTACHED,
      CONTRACT_BURN_FAILED, CONTRACT_MINT_FAILED, CONTRACT_BALANCE_QUERY_FAILED,
      CONTRACT_SWAP_FAILED, CONTRACT_INVALID_KEY_FORMAT,
      TIME_SYNTHESIS_INTEGRITY_FAILED, TIME_SYNTHESIS_INSUFFICIENT_CONFIDENCE,
      TIME_SYNTHESIS_SOURCE_NOT_FOUND, TIME_SYNTHESIS_ALL_SOURCES_FAILED,
      TIME_SYNTHESIS_POT_ALL_FAILED, TIME_SYNTHESIS_SELF_VERIFY_FAILED,
      FEE_CALCULATION_FAILED]"

lemma all_error_keys_complete: "k \<in> set all_error_keys"
  by (cases k) (simp_all add: all_error_keys_def)

lemma distinct_error_codes: "distinct (map ERROR_CODES all_error_keys)"
  by code_simp

section \<open>The error classes\<close>

datatype err_class =
  TTTConfigError | TTTSignerError | TTTNetworkError | TTTContractError | TTTTimeSynthesisError | TTTFeeError

record ttt_error =
  te_class :: err_class
  te_code :: string
  te_message :: string

text \<open>
  The constructor takes three or four strings: with a fourth one the first is the code,
  without it the first is the message and the code is the default \<open>TTT_E002\<close>.
\<close>

definition TTTBaseError :: "err_class \<Rightarrow> string \<Rightarrow> string \<Rightarrow> string \<Rightarrow> string option \<Rightarrow> ttt_error" where
  "TTTBaseError cls codeOrMessage messageOrReason reasonOrFix fix =
     (let hasCode = (fix \<noteq> None);
          code = (if hasCode then codeOrMessage else ''TTT_E002'');
          message = (if hasCode then messageOrReason else codeOrMessage);
          reason = (if hasCode then reasonOrFix else messageOrReason);
          fixStr = (case fix of Some f \<Rightarrow> f | None \<Rightarrow> reasonOrFix)
      in \<lparr>te_class = cls, te_code = code,
          te_message = ''['' @ code @ ''] '' @ message @ '' (Reason: '' @ reason @ ''. Fix: '' @ fixStr @ '')''\<rparr>)"

section \<open>Exceptions\<close>

datatype js_exn =
    TTTExn ttt_error
  | JsError string
  | RangeError string
  | TypeError string
  | SyntaxError string
  | PotFrameError string
  | TLSBindingError string

fun exn_message :: "js_exn \<Rightarrow> string" where
  "exn_message (TTTExn e) = te_message e"
| "exn_message (JsError m) = m"
| "exn_message (RangeError m) = m"
| "exn_message (TypeError m) = m"
| "exn_message (SyntaxError m) = m"
| "exn_message (PotFrameError m) = m"
| "exn_message (TLSBindingError m) = m"

text \<open>The two shapes of \<open>throw new TTT...Error(...)\<close>.\<close>

abbreviation throw3 :: "err_class \<Rightarrow> string \<Rightarrow> string \<Rightarrow> string \<Rightarrow> js_exn" where
  "throw3 cls m r f \<equiv> TTTExn (TTTBaseError cls m r f None)"

abbreviation throw4 :: "err_class \<Rightarrow> error_key \<Rightarrow> string \<Rightarrow> string \<Rightarrow> string \<Rightarrow> js_exn" where
  "throw4 cls k m r f \<equiv> TTTExn (TTTBaseError cls (ERROR_CODES k) m r (Some f))"

section \<open>Sequencing\<close>

text \<open>A statement after one that may throw, and a value that must be there.\<close>

definition bindr :: "'e + 'a \<Rightarrow> ('a \<Rightarrow> 'e + 'b) \<Rightarrow> 'e + 'b" where
  "bindr r f = (case r of Inl e \<Rightarrow> Inl e | Inr v \<Rightarrow> f v)"

definition need :: "'e \<Rightarrow> 'a option \<Rightarrow> 'e + 'a" where
  "need e v = (case v of None \<Rightarrow> Inl e | Some x \<Rightarrow> Inr x)"

definition check :: "'e \<Rightarrow> bool \<Rightarrow> 'e + unit" where
  "check e b = (if b then Inr () else Inl e)"

named_theorems result_simps "when a sequence of statements returns or throws"

lemma bindr_simps [simp]: "bindr (Inl e) f = Inl e" "bindr (Inr v) f = f v"
  by (simp_all add: bindr_def)

lemma need_simps [simp]: "need e None = Inl e" "need e (Some x) = Inr x"
  by (simp_all add: need_def)

lemma check_simps [simp]: "check e True = Inr ()" "check e False = Inl e"
  by (simp_all add: check_def)

lemma bindr_Inr [result_simps]: "bindr r f = Inr y \<longleftrightarrow> (\<exists>x. r = Inr x \<and> f x = Inr y)"
  by (cases r) simp_all

lemma bindr_Inl [result_simps]:
  "bindr r f = Inl e \<longleftrightarrow> r = Inl e \<or> (\<exists>x. r = Inr x \<and> f x = Inl e)"
  by (cases r) simp_all

lemma need_Inr [result_simps]: "need e v = Inr x \<longleftrightarrow> v = Some x"
  by (cases v) simp_all

lemma need_Inl [result_simps]: "need e v = Inl e' \<longleftrightarrow> v = None \<and> e' = e"
  by (cases v) auto

lemma check_Inr [result_simps]: "check e b = Inr u \<longleftrightarrow> b"
  by (simp add: check_def)

lemma check_Inl [result_simps]: "check e b = Inl e' \<longleftrightarrow> \<not> b \<and> e' = e"
  by (auto simp: check_def)

section \<open>Facts about error values\<close>

lemma te_code_three [simp]: "te_code (TTTBaseError cls m r f None) = ''TTT_E002''"
  by (simp add: TTTBaseError_def)

lemma te_code_four [simp]: "te_code (TTTBaseError cls c m r (Some f)) = c"
  by (simp add: TTTBaseError_def)

lemma te_class_base [simp]: "te_class (TTTBaseError cls c m r f) = cls"
  by (simp add: TTTBaseError_def Let_def)

lemma error_codes_inject: "ERROR_CODES k = ERROR_CODES l \<longleftrightarrow> k = l"
proof
  assume eq: "ERROR_CODES k = ERROR_CODES l"
  have "inj_on ERROR_CODES (set all_error_keys)"
    using distinct_error_codes by (simp add: distinct_map)
  then show "k = l"
    using eq all_error_keys_complete by (auto dest: inj_onD)
qed simp

text \<open>
  A structured error carries exactly the code it was thrown with, and two errors
  thrown under different keys of the table never carry the same code, whatever their
  class and texts.
\<close>

theorem error_code_identifies_key:
  "te_code (TTTBaseError cls (ERROR_CODES k) m r (Some f)) =
   te_code (TTTBaseError cls' (ERROR_CODES l) m' r' (Some f')) \<longleftrightarrow> k = l"
  by (simp add: error_codes_inject)

end
