(* ===== verification/TimeTypes.thy ===== *)
theory TimeTypes
  imports Errors
begin

text \<open>
  The public data types of \<open>src/types.ts\<close> that the time components exchange, and how a
  promise can settle.
\<close>

section \<open>Readings and proofs of time\<close>

record time_reading =
  tr_timestamp :: int
  tr_uncertainty :: rat
  tr_stratum :: int
  tr_source :: string

record synthesized_time =
  st_timestamp :: int
  st_confidence :: rat
  st_uncertainty :: rat
  st_sources :: nat
  st_stratum :: int

record source_reading =
  sr_source :: string
  sr_timestamp :: int
  sr_uncertainty :: rat
  sr_stratum :: "int option"

record pot_signature =
  issuerPubKey :: string
  sig_signature :: string
  issuedAt :: int

record proof_of_time =
  pot_timestamp :: int
  pot_uncertainty :: rat
  pot_sources :: nat
  pot_stratum :: int
  pot_confidence :: rat
  sourceReadings :: "source_reading list"
  pot_nonce :: string
  expiresAt :: int
  issuerSignature :: "pot_signature option"

datatype tier_type = T0_epoch | T1_block | T2_slot | T3_micro

fun TierIntervals :: "tier_type \<Rightarrow> int" where
  "TierIntervals T0_epoch = 384000"
| "TierIntervals T1_block = 2000"
| "TierIntervals T2_slot = 12000"
| "TierIntervals T3_micro = 100"

section \<open>Promises\<close>

text \<open>
  How one asynchronous call ends: fulfilled, rejected, or not settled at all because an
  exception escaped from an event callback, where no promise catches it (Node then stops
  the process).
\<close>

datatype 'a settle = Fulfilled 'a | Rejected js_exn | Uncaught js_exn

fun fulfilled_values :: "'a settle list \<Rightarrow> 'a list" where
  "fulfilled_values [] = []"
| "fulfilled_values (Fulfilled v # rs) = v # fulfilled_values rs"
| "fulfilled_values (Rejected e # rs) = fulfilled_values rs"
| "fulfilled_values (Uncaught e # rs) = fulfilled_values rs"

fun first_uncaught :: "'a settle list \<Rightarrow> js_exn option" where
  "first_uncaught [] = None"
| "first_uncaught (Uncaught e # rs) = Some e"
| "first_uncaught (Fulfilled v # rs) = first_uncaught rs"
| "first_uncaught (Rejected e # rs) = first_uncaught rs"

lemma set_fulfilled_values: "set (fulfilled_values rs) = {v. Fulfilled v \<in> set rs}"
  by (induction rs rule: fulfilled_values.induct) auto

lemma length_fulfilled_values: "length (fulfilled_values rs) \<le> length rs"
  by (induction rs rule: fulfilled_values.induct) auto

lemma first_uncaught_None: "first_uncaught rs = None \<longleftrightarrow> (\<forall>e. Uncaught e \<notin> set rs)"
  by (induction rs rule: first_uncaught.induct) auto

lemma fulfilled_all:
  "\<forall>r \<in> set rs. \<exists>v. r = Fulfilled v \<Longrightarrow> length (fulfilled_values rs) = length rs"
  by (induction rs rule: fulfilled_values.induct) auto

end
