(* ===== verification/Interfaces.thy ===== *)
theory Interfaces
  imports Prelude
begin

text \<open>
  The contracts that several components share, each stated once as a locale and interpreted
  on the model of every component that has it.

  \<^item> \<open>kept\<close>: an invariant that every operation of a component keeps, so that every run does.
  \<^item> \<open>settles\<close>: a promise that is settled once; the first result is the last.
  \<^item> \<open>refines\<close>: a component whose operations commute with those of an abstract specification.
  \<^item> \<open>simulation\<close>: a component whose answers, asked in the order of time, are those of an
    abstract specification, related to it by more than a function of the state.
  \<^item> \<open>bounded_log\<close>: an array that is pushed to, and shifted when it is longer than its capacity.
  \<^item> \<open>codec\<close>, \<open>lossless_codec\<close>: a writer whose reader recovers a view of what was written; when
    the view keeps everything, no two values are written alike.

  The contract of a time source is in \<open>TimeSources\<close>, that of a replay cache in \<open>ReplayGuard\<close>.
\<close>

section \<open>Invariants over runs\<close>

locale kept =
  fixes step :: "'op \<Rightarrow> 's \<Rightarrow> 's" and inv :: "'s \<Rightarrow> bool"
  assumes step_inv: "inv s \<Longrightarrow> inv (step op s)"
begin

lemma run: "inv s \<Longrightarrow> inv (fold step ops s)"
  by (induction ops arbitrary: s) (simp_all add: step_inv)

lemma run_after: "inv (step op s) \<Longrightarrow> inv (fold step (op # ops) s)"
  by (simp add: run)

lemma run_anywhere: "(\<And>s. inv (step op s)) \<Longrightarrow> inv (fold step (before @ op # later) s)"
  by (simp add: run)

end

section \<open>Promises\<close>

locale settles =
  fixes step :: "'e \<Rightarrow> 's \<Rightarrow> 's" and res :: "'s \<Rightarrow> 'r option"
  assumes step_res: "res s = Some r \<Longrightarrow> res (step e s) = Some r"

sublocale settles \<subseteq> result: kept step "\<lambda>s. res s = Some r" for r
  by unfold_locales (rule step_res)

sublocale settles \<subseteq> settled: kept step "\<lambda>s. res s \<noteq> None"
  by unfold_locales (auto dest: step_res)

context settles
begin

text \<open>An event that settles whatever came before fixes the result for whatever comes after.\<close>

lemma settled_for_good:
  assumes "res (step e (fold step es s)) \<noteq> None"
  shows "\<exists>r. \<forall>later. res (fold step (es @ e # later) s) = Some r"
proof -
  obtain r where "res (step e (fold step es s)) = Some r" using assms by blast
  then have "\<forall>later. res (fold step (es @ e # later) s) = Some r" by (simp add: result.run)
  then show ?thesis by blast
qed

end

section \<open>Refinement\<close>

locale refines = kept step inv
  for step :: "'op \<Rightarrow> 's \<Rightarrow> 's" and inv :: "'s \<Rightarrow> bool" +
  fixes abs :: "'s \<Rightarrow> 'a" and spec :: "'op \<Rightarrow> 'a \<Rightarrow> 'a"
  assumes abs_step: "inv s \<Longrightarrow> abs (step op s) = spec op (abs s)"
begin

lemma abs_run: "inv s \<Longrightarrow> abs (fold step ops s) = fold spec ops (abs s)"
  by (induction ops arbitrary: s) (simp_all add: step_inv abs_step)

lemma run_from: "inv s \<Longrightarrow> abs s = a \<Longrightarrow> inv (fold step ops s) \<and> abs (fold step ops s) = fold spec ops a"
  using run abs_run by blast

end

section \<open>Simulation\<close>

fun answers :: "('i \<Rightarrow> 's \<Rightarrow> 'o \<times> 's) \<Rightarrow> 'i list \<Rightarrow> 's \<Rightarrow> 'o list" where
  "answers step [] s = []"
| "answers step (i # is) s = fst (step i s) # answers step is (snd (step i s))"

locale simulation =
  fixes step :: "'i \<Rightarrow> 's \<Rightarrow> 'o \<times> 's" and spec :: "'i \<Rightarrow> 'a \<Rightarrow> 'o \<times> 'a"
    and moment :: "'i \<Rightarrow> int" and rel :: "int \<Rightarrow> 's \<Rightarrow> 'a \<Rightarrow> bool"
  assumes sim: "rel t s a \<Longrightarrow> t \<le> moment i \<Longrightarrow>
    fst (step i s) = fst (spec i a) \<and> rel (moment i) (snd (step i s)) (snd (spec i a))"
begin

lemma same_answers: "rel t s a \<Longrightarrow> sorted (t # map moment is) \<Longrightarrow> answers step is s = answers spec is a"
proof (induction "is" arbitrary: t s a)
  case (Cons i "is")
  then have "rel (moment i) (snd (step i s)) (snd (spec i a))" "fst (step i s) = fst (spec i a)"
    using sim [of t s a i] by simp_all
  with Cons show ?case by simp
qed simp

end

section \<open>Bounded logs\<close>

definition newest :: "nat \<Rightarrow> 'a list \<Rightarrow> 'a list" where
  "newest n xs = drop (length xs - n) xs"

lemma length_newest [simp]: "length (newest n xs) = min (length xs) n"
  by (simp add: newest_def)

lemma newest_Nil [simp]: "newest n [] = []"
  by (simp add: newest_def)

lemma newest_in: "e \<in> set (newest n xs) \<Longrightarrow> e \<in> set xs"
  by (auto simp: newest_def dest: in_set_dropD)

lemma newest_short [simp]: "length xs \<le> n \<Longrightarrow> newest n xs = xs"
  by (simp add: newest_def)

lemma newest_map: "newest n (map f xs) = map f (newest n xs)"
  by (simp add: newest_def drop_map)

locale bounded_log =
  fixes push :: "'a \<Rightarrow> 'a list \<Rightarrow> 'a list" and cap :: nat
  assumes push_room: "length xs < cap \<Longrightarrow> push e xs = xs @ [e]"
    and push_over: "length xs = cap \<Longrightarrow> push e xs = tl (xs @ [e])"
    and cap_pos: "0 < cap"
begin

lemma push_full: "length xs = cap \<Longrightarrow> push e xs = tl xs @ [e]"
  using cap_pos by (cases xs) (simp_all add: push_over)

lemma push_newest: "push e (newest cap xs) = newest cap (xs @ [e])"
proof (cases "length xs < cap")
  case True
  then show ?thesis by (simp add: push_room)
next
  case False
  then have "Suc (length xs) - cap = Suc (length xs - cap)" by simp
  moreover have "push e (newest cap xs) = tl (newest cap xs) @ [e]" using False by (simp add: push_full)
  ultimately show ?thesis using False cap_pos by (simp add: newest_def drop_Suc tl_drop)
qed

lemma push_length:
  "length xs \<le> cap \<Longrightarrow> length xs \<le> length (push e xs) \<and> length (push e xs) \<le> cap"
  using push_room [of xs e] push_full [of xs e] cap_pos by (cases "length xs < cap") auto

lemma push_set: "length xs \<le> cap \<Longrightarrow> set (push e xs) \<subseteq> insert e (set xs)"
  using push_room [of xs e] push_full [of xs e] by (cases xs; cases "length xs < cap") auto

lemma run_newest: "fold push es (newest cap xs) = newest cap (xs @ es)"
proof (induction es arbitrary: xs)
  case (Cons e es)
  from Cons [of "xs @ [e]"] show ?case by (simp add: push_newest)
qed simp

lemma run_empty: "fold push es [] = newest cap es"
  using run_newest [of es "[]"] by simp

end

sublocale bounded_log \<subseteq> bounded: kept push "\<lambda>xs. length xs \<le> cap"
  by unfold_locales (rule conjunct2 [OF push_length])

section \<open>Writers and readers\<close>

locale codec =
  fixes encode :: "'a \<Rightarrow> 'w" and decode :: "'w \<Rightarrow> 'b" and valid :: "'a \<Rightarrow> bool" and view :: "'a \<Rightarrow> 'b"
  assumes decode_encode: "valid x \<Longrightarrow> decode (encode x) = view x"
begin

lemma encode_view: "valid x \<Longrightarrow> valid y \<Longrightarrow> encode x = encode y \<Longrightarrow> view x = view y"
  using decode_encode by metis

lemma view_differs: "valid x \<Longrightarrow> valid y \<Longrightarrow> view x \<noteq> view y \<Longrightarrow> encode x \<noteq> encode y"
  using encode_view by blast

lemma decode_image: "decode ` encode ` {x. valid x} = view ` {x. valid x}"
  by (simp add: image_image decode_encode cong: image_cong_simp)

end

locale lossless_codec = codec +
  assumes view_inj: "inj_on view {x. valid x}"
begin

lemma encode_inj: "inj_on encode {x. valid x}"
proof (rule inj_onI)
  fix x y
  assume "x \<in> {x. valid x}" "y \<in> {x. valid x}" "encode x = encode y"
  then show "x = y" using encode_view [of x y] by (auto dest: inj_onD [OF view_inj])
qed

lemma encode_eq_iff: "valid x \<Longrightarrow> valid y \<Longrightarrow> encode x = encode y \<longleftrightarrow> x = y"
  using inj_on_eq_iff [OF encode_inj, of x y] by simp

end

end
