(* ===== verification/Bytes.thy ===== *)
theory Bytes
  imports Interfaces
begin

text \<open>
  Node buffers as byte lists: little- and big-endian integers of a given width, slices,
  and the hexadecimal and UTF-8 text encodings.  A read outside the buffer is \<open>None\<close>
  here; the components turn it into the \<open>RangeError\<close> Node throws.
\<close>

section \<open>Fixed-width integers\<close>

fun le_bytes :: "nat \<Rightarrow> nat \<Rightarrow> bytes" where
  "le_bytes 0 v = []"
| "le_bytes (Suc n) v = word_of_nat (v mod 256) # le_bytes n (v div 256)"

fun le_val :: "bytes \<Rightarrow> nat" where
  "le_val [] = 0"
| "le_val (b # bs) = unat b + 256 * le_val bs"

definition be_bytes :: "nat \<Rightarrow> nat \<Rightarrow> bytes" where
  "be_bytes n v = rev (le_bytes n v)"

definition be_val :: "bytes \<Rightarrow> nat" where
  "be_val bs = le_val (rev bs)"

lemma unat_word_of_nat_byte [simp]: "unat (word_of_nat (v mod 256) :: byte) = v mod 256"
  by (simp add: unat_of_nat)

lemma unat_byte_less [simp]: "unat (b :: byte) < 256"
  using unsigned_less [of b, where ?'a = nat] by simp

lemma word_of_nat_unat_byte [simp]: "(word_of_nat (unat b) :: byte) = b"
  by simp

lemma length_le_bytes [simp, byte_simps]: "length (le_bytes n v) = n"
  by (induction n arbitrary: v) auto

lemma length_be_bytes [simp, byte_simps]: "length (be_bytes n v) = n"
  by (simp add: be_bytes_def)

lemma le_val_le_bytes [byte_simps]: "le_val (le_bytes n v) = v mod 256 ^ n"
proof (induction n arbitrary: v)
  case (Suc n)
  have "v mod 256 ^ Suc n = v mod 256 + 256 * (v div 256 mod 256 ^ n)"
    by (simp add: mod_mult2_eq)
  with Suc show ?case by simp
qed simp

lemma le_val_bound: "le_val bs < 256 ^ length bs"
proof (induction bs)
  case (Cons b bs)
  have "unat b + 256 * le_val bs < 256 * (le_val bs + 1)"
    using unat_byte_less [of b] by (simp del: unat_byte_less)
  also have "\<dots> \<le> 256 * 256 ^ length bs"
    using Cons.IH by (intro mult_le_mono2) simp
  finally show ?case by simp
qed simp

lemma le_bytes_le_val [byte_simps]: "length bs = n \<Longrightarrow> le_bytes n (le_val bs) = bs"
proof (induction bs arbitrary: n)
  case (Cons b bs)
  then show ?case by auto
qed simp

lemma be_val_be_bytes [byte_simps]: "be_val (be_bytes n v) = v mod 256 ^ n"
  by (simp add: be_val_def be_bytes_def le_val_le_bytes)

lemma be_val_bound: "be_val bs < 256 ^ length bs"
  using le_val_bound [of "rev bs"] by (simp add: be_val_def)

lemma be_bytes_be_val [byte_simps]: "length bs = n \<Longrightarrow> be_bytes n (be_val bs) = bs"
  by (simp add: be_val_def be_bytes_def le_bytes_le_val)

lemma be_bytes_inject:
  "v < 256 ^ n \<Longrightarrow> w < 256 ^ n \<Longrightarrow> be_bytes n v = be_bytes n w \<longleftrightarrow> v = w"
  by (metis be_val_be_bytes mod_less)

section \<open>Slices and reads\<close>

text \<open>\<open>subarray(a, b)\<close> clamps both ends to the buffer.\<close>

definition subarray :: "nat \<Rightarrow> nat \<Rightarrow> 'a list \<Rightarrow> 'a list" where
  "subarray a b xs = take (b - a) (drop a xs)"

lemma length_subarray [simp, byte_simps]:
  "length (subarray a b xs) = min (b - a) (length xs - a)"
  by (simp add: subarray_def min.commute)

lemma subarray_all [simp]: "length xs \<le> b \<Longrightarrow> subarray 0 b xs = xs"
  by (simp add: subarray_def)

lemma subarray_append_left [simp]:
  "b \<le> length xs \<Longrightarrow> subarray a b (xs @ ys) = subarray a b xs"
  by (cases "a \<le> b") (auto simp: subarray_def)

lemma subarray_append_right [simp]:
  "length xs \<le> a \<Longrightarrow> subarray a b (xs @ ys) = subarray (a - length xs) (b - length xs) ys"
  by (simp add: subarray_def)

lemma subarray_Cons_Suc [simp]: "subarray (Suc a) (Suc b) (x # xs) = subarray a b xs"
  by (simp add: subarray_def)

definition readLE :: "nat \<Rightarrow> bytes \<Rightarrow> nat \<Rightarrow> nat option" where
  "readLE w buf off =
     (if off + w \<le> length buf then Some (le_val (subarray off (off + w) buf)) else None)"

definition readBE :: "nat \<Rightarrow> bytes \<Rightarrow> nat \<Rightarrow> nat option" where
  "readBE w buf off =
     (if off + w \<le> length buf then Some (be_val (subarray off (off + w) buf)) else None)"

lemma readLE_bound: "readLE w buf off = Some v \<Longrightarrow> v < 256 ^ w"
  using le_val_bound [of "subarray off (off + w) buf"]
  by (auto simp: readLE_def split: if_splits)

lemma readBE_bound: "readBE w buf off = Some v \<Longrightarrow> v < 256 ^ w"
  using be_val_bound [of "subarray off (off + w) buf"]
  by (auto simp: readBE_def split: if_splits)

lemma readLE_None [simp]: "readLE w buf off = None \<longleftrightarrow> length buf < off + w"
  by (auto simp: readLE_def)

lemma readBE_None [simp]: "readBE w buf off = None \<longleftrightarrow> length buf < off + w"
  by (auto simp: readBE_def)

lemma readLE_here: "readLE w (le_bytes w v @ ys) 0 = Some (v mod 256 ^ w)"
  by (simp add: readLE_def le_val_le_bytes)

lemma readLE_skip: "length xs = n \<Longrightarrow> readLE w (xs @ ys) (n + k) = readLE w ys k"
  by (simp add: readLE_def)

lemma readBE_here: "readBE w (be_bytes w v @ ys) 0 = Some (v mod 256 ^ w)"
  by (simp add: readBE_def be_val_be_bytes)

lemma readBE_skip: "length xs = n \<Longrightarrow> readBE w (xs @ ys) (n + k) = readBE w ys k"
  by (simp add: readBE_def)

section \<open>Hexadecimal text\<close>

definition hex_digit :: "nat \<Rightarrow> char" where
  "hex_digit n = (if n < 10 then char_of (48 + n) else char_of (87 + n))"

definition hex_val :: "char \<Rightarrow> nat option" where
  "hex_val c = (let n = of_char c in
     if 48 \<le> n \<and> n \<le> 57 then Some (n - 48)
     else if 97 \<le> n \<and> n \<le> 102 then Some (n - 87)
     else if 65 \<le> n \<and> n \<le> 70 then Some (n - 55)
     else None)"

text \<open>\<open>toString('hex')\<close>: two lower-case digits per byte.\<close>

fun hex_encode :: "bytes \<Rightarrow> string" where
  "hex_encode [] = []"
| "hex_encode (b # bs) = hex_digit (unat b div 16) # hex_digit (unat b mod 16) # hex_encode bs"

text \<open>
  \<open>Buffer.from(s, 'hex')\<close>: decodes pairs of digits and stops, without an error, at the
  first pair that is not hexadecimal; a trailing single digit is dropped.
\<close>

fun hex_decode :: "string \<Rightarrow> bytes" where
  "hex_decode (a # b # cs) =
     (case (hex_val a, hex_val b) of
        (Some x, Some y) \<Rightarrow> word_of_nat (16 * x + y) # hex_decode cs
      | _ \<Rightarrow> [])"
| "hex_decode _ = []"

lemma hex_val_digit [simp]: "n < 16 \<Longrightarrow> hex_val (hex_digit n) = Some n"
  by (auto simp: hex_val_def hex_digit_def Let_def)

lemma length_hex_encode [simp, byte_simps]: "length (hex_encode bs) = 2 * length bs"
  by (induction bs) auto

lemma hex_decode_encode [simp, byte_simps]: "hex_decode (hex_encode bs) = bs"
proof (induction bs)
  case (Cons b bs)
  have "unat b div 16 < 16" using unat_byte_less [of b] by linarith
  moreover have "word_of_nat (16 * (unat b div 16) + unat b mod 16) = b" by simp
  ultimately show ?case using Cons by simp
qed simp

interpretation hex: lossless_codec hex_encode hex_decode "\<lambda>_. True" "\<lambda>bs. bs"
  by unfold_locales simp_all

lemma hex_encode_inject [simp]: "hex_encode as = hex_encode bs \<longleftrightarrow> as = bs"
  by (rule hex.encode_eq_iff) simp_all

lemma hex_encode_append: "hex_encode (as @ bs) = hex_encode as @ hex_encode bs"
  by (induction as) auto

lemma hex_digit_ascii: "n < 16 \<Longrightarrow> of_char (hex_digit n) < (128 :: nat)"
  by (simp add: hex_digit_def)

lemma hex_chars_ascii: "c \<in> set (hex_encode bs) \<Longrightarrow> of_char c < (128 :: nat)"
proof (induction bs)
  case (Cons b bs)
  have "unat b div 16 < 16" using unat_byte_less [of b] by linarith
  moreover have "unat b mod 16 < 16" by simp
  ultimately show ?case using Cons by (auto simp: hex_digit_ascii)
qed simp

section \<open>Base64 text\<close>

text \<open>
  \<open>Buffer.from(s, 'base64')\<close>: both alphabets, characters outside them are skipped, the
  padding ends the text, and left-over bits are dropped.
\<close>

definition b64_val :: "char \<Rightarrow> nat option" where
  "b64_val c = (let n = of_char c in
     if 65 \<le> n \<and> n \<le> 90 then Some (n - 65)
     else if 97 \<le> n \<and> n \<le> 122 then Some (n - 71)
     else if 48 \<le> n \<and> n \<le> 57 then Some (n + 4)
     else if n = 43 \<or> n = 45 then Some 62
     else if n = 47 \<or> n = 95 then Some 63
     else None)"

fun b64_sextets :: "string \<Rightarrow> nat list" where
  "b64_sextets [] = []"
| "b64_sextets (c # cs) =
     (if c = CHR ''='' then []
      else case b64_val c of None \<Rightarrow> b64_sextets cs | Some v \<Rightarrow> v # b64_sextets cs)"

fun b64_group :: "nat list \<Rightarrow> bytes" where
  "b64_group (a # b # c # d # rest) =
     word_of_nat (4 * a + b div 16) # word_of_nat (16 * (b mod 16) + c div 4)
     # word_of_nat (64 * (c mod 4) + d) # b64_group rest"
| "b64_group [a, b, c] = [word_of_nat (4 * a + b div 16), word_of_nat (16 * (b mod 16) + c div 4)]"
| "b64_group [a, b] = [word_of_nat (4 * a + b div 16)]"
| "b64_group _ = []"

definition b64_decode :: "string \<Rightarrow> bytes" where
  "b64_decode s = b64_group (b64_sextets s)"

section \<open>UTF-8 text\<close>

text \<open>
  Strings of the model have code units up to 255, which UTF-8 writes in one or two bytes.
  Decoding is \<open>None\<close> when the bytes are not the UTF-8 form of such a string (Node would
  produce a character outside the model, such as the replacement character).
\<close>

fun utf8_encode :: "string \<Rightarrow> bytes" where
  "utf8_encode [] = []"
| "utf8_encode (c # cs) =
     (let n = of_char c :: nat in
      (if n < 128 then [word_of_nat n] else [word_of_nat (192 + n div 64), word_of_nat (128 + n mod 64)])
      @ utf8_encode cs)"

fun utf8_decode :: "bytes \<Rightarrow> string option" where
  "utf8_decode [] = Some []"
| "utf8_decode (b # bs) =
     (if unat b < 128 then map_option (\<lambda>s. char_of (unat b) # s) (utf8_decode bs)
      else (case bs of
              b2 # bs2 \<Rightarrow>
                (if (unat b = 194 \<or> unat b = 195) \<and> 128 \<le> unat b2 \<and> unat b2 < 192
                 then map_option (\<lambda>s. char_of ((unat b - 192) * 64 + (unat b2 - 128)) # s)
                        (utf8_decode bs2)
                 else None)
            | [] \<Rightarrow> None))"

definition ascii :: "string \<Rightarrow> bool" where
  "ascii s \<longleftrightarrow> (\<forall>c \<in> set s. of_char c < (128 :: nat))"

lemma of_char_byte: "(of_char (c :: char) :: nat) < 256"
  by (rule nat_of_char_less_256)

lemma unat_of_nat_byte: "n < 256 \<Longrightarrow> unat (word_of_nat n :: byte) = n"
  by (simp add: unat_of_nat)

lemma utf8_decode_encode [simp]: "utf8_decode (utf8_encode s) = Some s"
proof (induction s)
  case (Cons c cs)
  let ?n = "of_char c :: nat"
  have n: "?n < 256" by (rule of_char_byte)
  show ?case
  proof (cases "?n < 128")
    case True
    with Cons show ?thesis by (simp add: Let_def unat_of_nat_byte)
  next
    case False
    have a: "unat (word_of_nat (192 + ?n div 64) :: byte) = 192 + ?n div 64"
      using n by (intro unat_of_nat_byte) linarith
    have b: "unat (word_of_nat (128 + ?n mod 64) :: byte) = 128 + ?n mod 64"
      by (intro unat_of_nat_byte) (simp add: less_imp_le_nat trans_less_add1)
    have "?n div 64 = 2 \<or> ?n div 64 = 3" using n False by linarith
    moreover have "?n div 64 * 64 + ?n mod 64 = ?n" by simp
    moreover have "?n mod 64 < 64" by simp
    ultimately show ?thesis using Cons False
      by (auto simp: Let_def a b simp del: of_nat_add of_nat_numeral)
  qed
qed simp

lemma utf8_encode_ascii: "ascii s \<Longrightarrow> utf8_encode s = map (\<lambda>c. word_of_nat (of_char c)) s"
  by (induction s) (auto simp: ascii_def Let_def)

lemma length_utf8_ascii [byte_simps]: "ascii s \<Longrightarrow> length (utf8_encode s) = length s"
  by (simp add: utf8_encode_ascii)

lemma length_utf8_ge: "length s \<le> length (utf8_encode s)"
  by (induction s) (auto simp: Let_def)

lemma ascii_hex_encode [simp]: "ascii (hex_encode bs)"
  by (simp add: ascii_def hex_chars_ascii)

end
