(* ===== verification/TimeSources.thy ===== *)
theory TimeSources
  imports TimeTypes Bytes
begin

text \<open>
  The time sources of \<open>time_synthesis.ts\<close> and \<open>osnma_source.ts\<close>: NTP over UDP, the HTTPS
  \<open>Date\<close> header, and OSNMA key material.  A source is driven by the events of its socket or
  request, in the order they occur; the first event that settles the promise decides.
  Times are \<open>Date.now()\<close> values in milliseconds; readings are in nanoseconds.
\<close>

section \<open>The TimeSource interface\<close>

text \<open>
  What the synthesis relies on: a reading carries the name of its source and a stratum
  between 1 and 15.
\<close>

locale time_source =
  fixes name :: "'s \<Rightarrow> string"
    and getTime :: "'env \<Rightarrow> 's \<Rightarrow> time_reading settle option"
  assumes reading_named: "getTime env s = Some (Fulfilled r) \<Longrightarrow> tr_source r = name s"
    and reading_stratum: "getTime env s = Some (Fulfilled r) \<Longrightarrow> 1 \<le> tr_stratum r \<and> tr_stratum r \<le> 15"
begin

lemma readings_from_sources:
  assumes "list_all2 (\<lambda>s r. \<exists>env. getTime env s = Some r) ss rs" and "v \<in> set (fulfilled_values rs)"
  shows "tr_source v \<in> name ` set ss \<and> 1 \<le> tr_stratum v \<and> tr_stratum v \<le> 15"
proof -
  have "Fulfilled v \<in> set rs" using assms(2) by (simp add: set_fulfilled_values)
  then obtain i where i: "i < length rs" "rs ! i = Fulfilled v" by (metis in_set_conv_nth)
  then obtain env where "getTime env (ss ! i) = Some (Fulfilled v)" and "i < length ss"
    using list_all2_nthD2 [OF assms(1) i(1)] list_all2_lengthD [OF assms(1)] by auto
  then show ?thesis
    using reading_named reading_stratum by (metis image_eqI nth_mem)
qed

end

section \<open>NTP\<close>

definition NTP_OFFSET_1900_TO_1970 :: int where
  "NTP_OFFSET_1900_TO_1970 = 2208988800"

text \<open>An NTP timestamp as Unix nanoseconds: seconds and a 32-bit binary fraction.\<close>

definition ntp_unix_ns :: "int \<Rightarrow> int \<Rightarrow> int" where
  "ntp_unix_ns sec fract =
     (sec - NTP_OFFSET_1900_TO_1970) * 1000000000 + tdiv (fract * 1000000000) (2 ^ 32)"

definition u32_at :: "bytes \<Rightarrow> nat \<Rightarrow> int" where
  "u32_at msg off = int (be_val (subarray off (off + 4) msg))"

definition u8_at :: "bytes \<Rightarrow> nat \<Rightarrow> int" where
  "u8_at msg off = int (unat (msg ! off))"

lemma u8_at_nonneg: "0 \<le> u8_at msg off"
  by (simp add: u8_at_def)

lemma u32_at_nonneg: "0 \<le> u32_at msg off"
  by (simp add: u32_at_def)

record ntp_source =
  ntp_name :: string
  ntp_host :: string

definition ntp_message :: "ntp_source \<Rightarrow> int \<Rightarrow> int \<Rightarrow> bytes \<Rightarrow> time_reading settle" where
  "ntp_message src t1 t4 msg =
     (if length msg < 48 then
        Rejected (throw3 TTTTimeSynthesisError (''Invalid NTP response from '' @ ntp_host src)
          ''Packet length < 48 bytes''
          ''The NTP server returned a malformed response. Check the server address.'')
      else
        let stratum = u8_at msg 1 in
        if stratum = 0 \<or> stratum > 15 then
          Rejected (throw3 TTTTimeSynthesisError (''Invalid Stratum from '' @ ntp_host src)
            (''Stratum: '' @ show_int stratum)
            ''The NTP server is unsynchronized. Use a stratum 1 or 2 server.'')
        else
          let t2_sec = u32_at msg 32; t2_frac = u32_at msg 36 in
          if t2_sec \<le> NTP_OFFSET_1900_TO_1970 then
            Rejected (throw3 TTTTimeSynthesisError (''[NTP] Invalid T2 timestamp from '' @ ntp_host src)
              (show_int t2_sec @ '' <= NTP epoch offset'')
              ''The NTP server returned a pre-1970 timestamp. Use a reliable NTP server.'')
          else
            let t2 = ntp_unix_ns t2_sec t2_frac;
                t3_sec = u32_at msg 40; t3_frac = u32_at msg 44 in
            if t3_sec \<le> NTP_OFFSET_1900_TO_1970 then
              Rejected (throw3 TTTTimeSynthesisError (''[NTP] Invalid T3 timestamp from '' @ ntp_host src)
                (show_int t3_sec @ '' <= NTP epoch offset'')
                ''The NTP server returned a pre-1970 timestamp. Use a reliable NTP server.'')
            else
              let t3 = ntp_unix_ns t3_sec t3_frac;
                  offset = tdiv ((t2 - t1) + (t3 - t4)) 2;
                  delay = (t4 - t1) - (t3 - t2);
                  rootDispersion = of_int (u32_at msg 8) / 65536 * 1000;
                  rtt = of_int delay / 1000000;
                  uncertainty = rootDispersion + rtt / 2
              in Fulfilled \<lparr>tr_timestamp = t4 + offset, tr_uncertainty = uncertainty,
                            tr_stratum = stratum, tr_source = ntp_name src\<rparr>)"

datatype ntp_event =
    NtpTimeout
  | NtpSocketError string
  | NtpMessage int bytes
  | NtpSendCallback "string option"
  | NtpSendThrows string

fun ntp_event_settles :: "ntp_source \<Rightarrow> int \<Rightarrow> ntp_event \<Rightarrow> time_reading settle option" where
  "ntp_event_settles src t1 NtpTimeout =
     Some (Rejected (throw3 TTTTimeSynthesisError (''NTP timeout for '' @ ntp_host src)
       ''Server did not respond within 2000ms''
       ''Check your firewall (UDP port 123) or try a different NTP server.''))"
| "ntp_event_settles src t1 (NtpSocketError m) =
     Some (Rejected (throw3 TTTTimeSynthesisError (''NTP socket error for '' @ ntp_host src) m
       ''Ensure network connectivity and that UDP 123 is outbound-allowed.''))"
| "ntp_event_settles src t1 (NtpMessage now msg) = Some (ntp_message src t1 (now * 1000000) msg)"
| "ntp_event_settles src t1 (NtpSendCallback None) = None"
| "ntp_event_settles src t1 (NtpSendCallback (Some m)) =
     Some (Rejected (throw3 TTTTimeSynthesisError (''Failed to send NTP packet to '' @ ntp_host src) m
       ''Check network settings.''))"
| "ntp_event_settles src t1 (NtpSendThrows m) =
     Some (Rejected (throw3 TTTTimeSynthesisError (''Synchronous send error for '' @ ntp_host src) m
       ''Check runtime environment.''))"

text \<open>A promise settles once: the first settling event of the run.\<close>

fun first_settle :: "('ev \<Rightarrow> 'a settle option) \<Rightarrow> 'ev list \<Rightarrow> 'a settle option" where
  "first_settle f [] = None"
| "first_settle f (e # es) = (case f e of None \<Rightarrow> first_settle f es | Some r \<Rightarrow> Some r)"

definition ntp_getTime :: "int \<times> ntp_event list \<Rightarrow> ntp_source \<Rightarrow> time_reading settle option" where
  "ntp_getTime env src = first_settle (ntp_event_settles src (fst env * 1000000)) (snd env)"

lemma first_settle_Some: "first_settle f es = Some r \<Longrightarrow> \<exists>e \<in> set es. f e = Some r"
  by (induction es) (auto split: option.splits)

lemma ntp_message_Fulfilled:
  assumes "ntp_message src t1 t4 msg = Fulfilled r"
  shows "tr_source r = ntp_name src" and "1 \<le> tr_stratum r" and "tr_stratum r \<le> 15"
  using assms u8_at_nonneg [of msg 1] by (auto simp: ntp_message_def Let_def split: if_splits)

lemma ntp_getTime_Fulfilled:
  assumes "ntp_getTime env src = Some (Fulfilled r)"
  shows "\<exists>now msg. ntp_message src (fst env * 1000000) (now * 1000000) msg = Fulfilled r"
proof -
  obtain e where "ntp_event_settles src (fst env * 1000000) e = Some (Fulfilled r)"
    using assms unfolding ntp_getTime_def by (blast dest: first_settle_Some)
  then show ?thesis
    by (cases "(src, fst env * 1000000, e)" rule: ntp_event_settles.cases) auto
qed

interpretation ntp: time_source ntp_name ntp_getTime
  by unfold_locales (auto dest!: ntp_getTime_Fulfilled dest: ntp_message_Fulfilled)

lemma half_error_bound:
  fixes x :: rat
  shows "2 * x \<le> d + 1 \<Longrightarrow> 0 \<le> a \<Longrightarrow> u * 1000000 = a * 1000000 + d / 2 \<Longrightarrow> x \<le> u * 1000000 + 1 / 2"
  by linarith

lemma ntp_reading:
  assumes "ntp_message src t1 t4 msg = Fulfilled r"
  shows "tr_timestamp r = t4 + tdiv ((ntp_unix_ns (u32_at msg 32) (u32_at msg 36) - t1)
            + (ntp_unix_ns (u32_at msg 40) (u32_at msg 44) - t4)) 2"
    and "tr_uncertainty r = of_int (u32_at msg 8) / 65536 * 1000
            + of_int ((t4 - t1) - (ntp_unix_ns (u32_at msg 40) (u32_at msg 44)
                - ntp_unix_ns (u32_at msg 32) (u32_at msg 36))) / 1000000 / 2"
  using assms unfolding ntp_message_def Let_def by (simp_all split: if_splits) force+

lemma ntp_reading_error:
  assumes m: "ntp_message src t1 t4 msg = Fulfilled r"
    and t2: "ntp_unix_ns (u32_at msg 32) (u32_at msg 36) = t1 + d1 + \<theta>"
    and t3: "ntp_unix_ns (u32_at msg 40) (u32_at msg 44) = t1 + d1 + p + \<theta>"
    and t4: "t4 = t1 + d1 + p + d2"
    and nonneg: "0 \<le> d1" "0 \<le> d2"
  shows "\<bar>of_int (tr_timestamp r - (t4 + \<theta>))\<bar> \<le> tr_uncertainty r * 1000000 + 1 / 2"
proof -
  let ?off = "tdiv ((d1 + \<theta>) + (\<theta> - d2)) 2"
  have ts: "tr_timestamp r = t4 + ?off"
    unfolding ntp_reading(1) [OF m] t2 t3 by (simp add: t4 algebra_simps)
  have unc: "tr_uncertainty r * 1000000 = of_int (u32_at msg 8) / 65536 * 1000 * 1000000 + of_int (d1 + d2) / 2"
    unfolding ntp_reading(2) [OF m] t2 t3 by (simp add: t4 field_simps)
  have "\<bar>2 * ?off - (2 * \<theta> + (d1 - d2))\<bar> \<le> 1"
    using tdiv_2_bounds [of "(d1 + \<theta>) + (\<theta> - d2)"] by (simp add: algebra_simps)
  then have "2 * \<bar>?off - \<theta>\<bar> \<le> d1 + d2 + 1"
    using nonneg unfolding abs_le_iff by (simp add: abs_if)
  then have "2 * \<bar>of_int (?off - \<theta>)\<bar> \<le> (of_int (d1 + d2) + 1 :: rat)"
    by (metis (mono_tags, opaque_lifting) of_int_1 of_int_abs of_int_add of_int_le_iff of_int_mult of_int_numeral)
  moreover have "(0 :: rat) \<le> of_int (u32_at msg 8) / 65536 * 1000"
    by (simp add: u32_at_def)
  ultimately have "\<bar>of_int (?off - \<theta>)\<bar> \<le> tr_uncertainty r * 1000000 + 1 / 2"
    using unc by (rule half_error_bound)
  then show ?thesis unfolding ts by simp
qed

text \<open>
  C34. The accuracy of an NTP reading.  Let the server's clock be ahead of the client's by
  \<open>\<theta>\<close>, let the request travel for \<open>d1\<close>, the server hold it for \<open>p\<close>, and the response
  travel for \<open>d2\<close> nanoseconds.  If the packet passes the checks, the reading is fulfilled,
  and its distance to the server's time at the moment of receipt is covered by the
  uncertainty the reading declares (in milliseconds), up to half a nanosecond of rounding.
\<close>

theorem ntp_error_within_uncertainty:
  assumes len: "48 \<le> length msg"
    and stratum: "1 \<le> u8_at msg 1" "u8_at msg 1 \<le> 15"
    and secs: "NTP_OFFSET_1900_TO_1970 < u32_at msg 32" "NTP_OFFSET_1900_TO_1970 < u32_at msg 40"
    and t2: "ntp_unix_ns (u32_at msg 32) (u32_at msg 36) = t1 + d1 + \<theta>"
    and t3: "ntp_unix_ns (u32_at msg 40) (u32_at msg 44) = t1 + d1 + p + \<theta>"
    and t4: "t4 = t1 + d1 + p + d2"
    and nonneg: "0 \<le> d1" "0 \<le> d2"
  shows "\<exists>r. ntp_message src t1 t4 msg = Fulfilled r \<and>
             \<bar>of_int (tr_timestamp r - (t4 + \<theta>))\<bar> \<le> tr_uncertainty r * 1000000 + 1 / 2"
proof -
  obtain r where "ntp_message src t1 t4 msg = Fulfilled r"
    using len stratum secs by (simp add: ntp_message_def Let_def)
  with ntp_reading_error [OF this t2 t3 t4 nonneg] show ?thesis by blast
qed

text \<open>A stratum-1 answer: clocks 5 ns apart, 4 ns to the server, 2 ns in it, 2 ns back.\<close>

definition ntp_example_header :: bytes where
  "ntp_example_header = [0x24, 1] @ replicate 30 0"

definition ntp_example_msg :: bytes where
  "ntp_example_msg = ntp_example_header
     @ be_bytes 4 2208988801 @ be_bytes 4 39 @ be_bytes 4 2208988801 @ be_bytes 4 48"

lemma ntp_example_header_length [simp]: "length ntp_example_header = 32"
  by (simp add: ntp_example_header_def)

lemma ntp_example_eval:
  "length ntp_example_msg = 48"
  "u8_at ntp_example_msg (Suc 0) = 1"
  "u32_at ntp_example_msg 32 = 2208988801" "u32_at ntp_example_msg 36 = 39"
  "u32_at ntp_example_msg 40 = 2208988801" "u32_at ntp_example_msg 44 = 48"
  by (simp_all add: ntp_example_msg_def u32_at_def byte_simps nth_append)
     (simp add: u8_at_def ntp_example_header_def)

lemma ntp_error_within_uncertainty_witness:
  "\<exists>r. ntp_message \<lparr>ntp_name = ''nist'', ntp_host = ''time.nist.gov''\<rparr> 1000000000 1000000008
         ntp_example_msg = Fulfilled r \<and>
       \<bar>of_int (tr_timestamp r - (1000000008 + 5))\<bar> \<le> tr_uncertainty r * 1000000 + 1 / 2"
  by (rule ntp_error_within_uncertainty [where ?d1.0 = 4 and ?d2.0 = 2 and p = 2])
     (simp_all add: ntp_example_eval NTP_OFFSET_1900_TO_1970_def ntp_unix_ns_def tdiv_def)

section \<open>HTTPS Date headers\<close>

text \<open>
  \<open>new Date(header).getTime()\<close> is the parameter \<open>parse_date\<close>: the milliseconds of a
  header the runtime can read, or \<open>None\<close> for \<open>NaN\<close> (the standard leaves the accepted
  formats beyond ISO 8601 to the implementation).
\<close>

record https_source =
  https_name :: string
  https_url :: string

datatype https_event =
    HttpsTimeout
  | HttpsResponse int "string option"
  | HttpsRequestError string

text \<open>
  The state of one call: how its promise settled; whether the request is still in
  \<open>activeRequests\<close>; whether the timer is armed; and the exception that escaped from a
  callback, which settles no promise, but stops the process.
\<close>

record https_call =
  hc_result :: "time_reading settle option"
  hc_active :: bool
  hc_timer :: bool
  hc_crash :: "js_exn option"

definition new_https_call :: https_call where
  "new_https_call = \<lparr>hc_result = None, hc_active = True, hc_timer = True, hc_crash = None\<rparr>"

definition settle_once :: "'a settle \<Rightarrow> 'a settle option \<Rightarrow> 'a settle option" where
  "settle_once r cur = (case cur of None \<Rightarrow> Some r | Some r0 \<Rightarrow> Some r0)"

definition bad_date :: js_exn where
  "bad_date = RangeError ''The number NaN cannot be converted to a BigInt because it is not an integer''"

definition https_response ::
    "(string \<Rightarrow> int option) \<Rightarrow> https_source \<Rightarrow> int \<Rightarrow> int \<Rightarrow> string option \<Rightarrow> https_call \<Rightarrow> https_call" where
  "https_response parse_date src t1 t4 header c0 =
     (let c = c0\<lparr>hc_timer := False\<rparr>;
          absent = c\<lparr>hc_active := False,
            hc_result := settle_once (Rejected (throw3 TTTTimeSynthesisError
               (''No Date header from '' @ https_name src) ''HTTPS response missing Date header''
               ''The endpoint must return a Date header (RFC 7231).'')) (hc_result c)\<rparr>
      in case header of
           None \<Rightarrow> absent
         | Some dateHeader \<Rightarrow>
             (if dateHeader = [] then absent
              else case parse_date dateHeader of
                None \<Rightarrow> c\<lparr>hc_crash := Some bad_date\<rparr>
              | Some ms \<Rightarrow>
                  let serverTime = ms * 1000000;
                      rttNs = t4 - t1;
                      rttMs = of_int rttNs / 1000000;
                      corrected = serverTime + tdiv rttNs 2
                  in c\<lparr>hc_active := False,
                       hc_result := settle_once (Fulfilled
                         \<lparr>tr_timestamp = corrected, tr_uncertainty = rttMs / 2 + 500,
                          tr_stratum = 2, tr_source = https_name src\<rparr>) (hc_result c)\<rparr>))"

text \<open>The callbacks.  A timer that was cleared does not fire.\<close>

fun https_callback ::
    "(string \<Rightarrow> int option) \<Rightarrow> https_source \<Rightarrow> int \<Rightarrow> https_event \<Rightarrow> https_call \<Rightarrow> https_call" where
  "https_callback parse_date src t1 HttpsTimeout c =
     (if hc_timer c then
        c\<lparr>hc_timer := False, hc_result := settle_once (Rejected (throw3 TTTTimeSynthesisError
          (''HTTPS time timeout for '' @ https_name src)
          (https_url src @ '' did not respond within 3000ms'')
          ''Check network connectivity or try a different HTTPS time endpoint.'')) (hc_result c)\<rparr>
      else c)"
| "https_callback parse_date src t1 (HttpsResponse now header) c =
     https_response parse_date src t1 (now * 1000000) header c"
| "https_callback parse_date src t1 (HttpsRequestError m) c =
     c\<lparr>hc_timer := False, hc_active := False,
       hc_result := settle_once (Rejected (throw3 TTTTimeSynthesisError
        (''HTTPS time error for '' @ https_name src) m ''Check TLS connectivity.'')) (hc_result c)\<rparr>"

text \<open>Once the process has stopped, no callback runs.\<close>

definition https_step ::
    "(string \<Rightarrow> int option) \<Rightarrow> https_source \<Rightarrow> int \<Rightarrow> https_event \<Rightarrow> https_call \<Rightarrow> https_call" where
  "https_step parse_date src t1 ev c = (if hc_crash c = None then https_callback parse_date src t1 ev c else c)"

definition https_run ::
    "(string \<Rightarrow> int option) \<Rightarrow> int \<times> https_event list \<Rightarrow> https_source \<Rightarrow> https_call" where
  "https_run parse_date env src =
     fold (https_step parse_date src (fst env * 1000000)) (snd env) new_https_call"

text \<open>What becomes of a call: the exception that stopped the process, or how its promise settled, if it has.\<close>

definition https_outcome :: "https_call \<Rightarrow> time_reading settle option" where
  "https_outcome c = (case hc_crash c of Some e \<Rightarrow> Some (Uncaught e) | None \<Rightarrow> hc_result c)"

definition https_getTime ::
    "(string \<Rightarrow> int option) \<Rightarrow> int \<times> https_event list \<Rightarrow> https_source \<Rightarrow> time_reading settle option" where
  "https_getTime parse_date env src = https_outcome (https_run parse_date env src)"

lemma https_outcome_Fulfilled: "https_outcome c = Some (Fulfilled r) \<longleftrightarrow> hc_crash c = None \<and> hc_result c = Some (Fulfilled r)"
  by (simp add: https_outcome_def split: option.splits)

text \<open>What a fulfilled HTTPS reading looks like, over the whole run.\<close>

definition https_reading_ok :: "(string \<Rightarrow> int option) \<Rightarrow> https_source \<Rightarrow> int \<Rightarrow> https_call \<Rightarrow> bool" where
  "https_reading_ok parse_date src t1 c \<longleftrightarrow>
     (\<forall>r. hc_result c = Some (Fulfilled r) \<longrightarrow>
        tr_source r = https_name src \<and> tr_stratum r = 2 \<and>
        (\<exists>h ms t4. parse_date h = Some ms \<and> tr_timestamp r = ms * 1000000 + tdiv (t4 - t1) 2 \<and>
           tr_uncertainty r = of_int (t4 - t1) / 1000000 / 2 + 500))"

lemma https_response_ok:
  assumes "https_reading_ok parse_date src t1 c"
  shows "https_reading_ok parse_date src t1 (https_response parse_date src t1 t4 header c)"
proof (cases "hc_result c")
  case None
  show ?thesis
  proof (cases "header = None \<or> header = Some [] \<or> parse_date (the header) = None")
    case True
    with None show ?thesis
      by (auto simp: https_reading_ok_def https_response_def Let_def settle_once_def split: option.splits)
  next
    case False
    then obtain h where "header = Some h" "h \<noteq> []" by (cases header) simp_all
    moreover from this False obtain ms where "parse_date h = Some ms" by auto
    ultimately have h: "header = Some h" "h \<noteq> []" "parse_date h = Some ms" by simp_all
    with None have "hc_result (https_response parse_date src t1 t4 header c) = Some (Fulfilled
        \<lparr>tr_timestamp = ms * 1000000 + tdiv (t4 - t1) 2, tr_uncertainty = of_int (t4 - t1) / 1000000 / 2 + 500,
         tr_stratum = 2, tr_source = https_name src\<rparr>)"
      by (simp add: https_response_def Let_def settle_once_def)
    with h(3) show ?thesis unfolding https_reading_ok_def by auto
  qed
next
  case (Some r0)
  with assms show ?thesis
    by (auto simp: https_reading_ok_def https_response_def Let_def settle_once_def split: option.splits)
qed

lemma settle_once_simps [simp]:
  "settle_once r None = Some r" "settle_once r (Some r0) = Some r0"
  by (simp_all add: settle_once_def)

lemma settle_once_eq: "settle_once r cur = Some x \<longleftrightarrow> cur = Some x \<or> (cur = None \<and> r = x)"
  by (auto simp: settle_once_def split: option.splits)

lemma https_step_ok:
  assumes "https_reading_ok parse_date src t1 c"
  shows "https_reading_ok parse_date src t1 (https_step parse_date src t1 ev c)"
proof (cases ev)
  case (HttpsResponse now header)
  then show ?thesis using assms by (simp add: https_step_def https_response_ok)
qed (use assms in \<open>auto simp: https_step_def https_reading_ok_def settle_once_eq\<close>)

interpretation https_ok: kept "https_step parse_date src t1" "https_reading_ok parse_date src t1"
  for parse_date src t1
  by unfold_locales (rule https_step_ok)

lemma https_run_ok: "https_reading_ok parse_date src (fst env * 1000000) (https_run parse_date env src)"
  unfolding https_run_def by (rule https_ok.run) (simp add: https_reading_ok_def new_https_call_def)

lemma https_getTime_Fulfilled:
  "https_getTime parse_date env src = Some (Fulfilled r) \<Longrightarrow> tr_source r = https_name src \<and> tr_stratum r = 2"
  using https_run_ok [of parse_date src env] unfolding https_getTime_def https_outcome_Fulfilled https_reading_ok_def by blast

interpretation https: time_source https_name "https_getTime parse_date" for parse_date
  by unfold_locales (simp_all add: https_getTime_Fulfilled)

text \<open>The events that throw out of their callback, whatever came before, and what the timer's callback leaves.\<close>

fun throws_out :: "(string \<Rightarrow> int option) \<Rightarrow> https_event \<Rightarrow> bool" where
  "throws_out parse_date (HttpsResponse now (Some h)) = (h \<noteq> [] \<and> parse_date h = None)"
| "throws_out parse_date _ = False"

lemma callback_crash:
  "hc_crash c = None \<Longrightarrow>
   hc_crash (https_callback parse_date src t1 ev c) = (if throws_out parse_date ev then Some bad_date else None)"
  by (cases "(parse_date, ev)" rule: throws_out.cases) (auto simp: https_response_def Let_def split: option.splits)

lemma https_step_crash:
  "hc_crash (https_step parse_date src t1 ev c) =
     (if hc_crash c = None then if throws_out parse_date ev then Some bad_date else None else hc_crash c)"
  by (simp add: https_step_def callback_crash)

lemma https_run_snoc:
  "https_run parse_date (t, evs @ [ev]) src = https_step parse_date src (t * 1000000) ev (https_run parse_date (t, evs) src)"
  by (simp add: https_run_def)

lemma https_run_crash:
  "hc_crash (https_run parse_date (t, evs) src) = (if \<exists>ev \<in> set evs. throws_out parse_date ev then Some bad_date else None)"
  by (induction evs rule: rev_induct) (auto simp: https_run_snoc https_step_crash, simp_all add: https_run_def new_https_call_def)

text \<open>A timer that is off has fired, or was cleared by a callback that settled the promise, or threw.\<close>

definition timer_ok :: "https_call \<Rightarrow> bool" where
  "timer_ok c \<longleftrightarrow> hc_timer c \<or> hc_result c \<noteq> None \<or> hc_crash c \<noteq> None"

lemma settle_once_settles [simp]: "settle_once r cur \<noteq> None" "\<exists>y. settle_once r cur = Some y"
  by (simp_all add: settle_once_def split: option.splits)

lemma timer_step: "timer_ok c \<Longrightarrow> timer_ok (https_step parse_date src t1 ev c)"
  by (cases "(parse_date, ev)" rule: throws_out.cases)
     (auto simp: https_step_def timer_ok_def https_response_def Let_def split: option.splits)

interpretation https_timers: kept "https_step parse_date src t1" timer_ok for parse_date src t1
  by unfold_locales (rule timer_step)

text \<open>
  A \<open>Date\<close> header the runtime cannot parse is not an ordinary failure of the HTTPS
  source.  Every other first event rejects or fulfils the promise; this one throws inside
  the response callback, after the timer was cleared, so the promise never settles, no
  caller can catch the exception, and the request stays in \<open>activeRequests\<close>.
\<close>

theorem https_unparsable_date_uncaught:
  "dateHeader \<noteq> [] \<and> parse_date dateHeader = None \<longleftrightarrow>
   (\<exists>e. https_run parse_date (t1, [HttpsResponse now (Some dateHeader)]) src
          = \<lparr>hc_result = None, hc_active = True, hc_timer = False, hc_crash = Some e\<rparr>)"
  by (auto simp: https_run_def https_step_def new_https_call_def https_response_def Let_def split: option.splits)

section \<open>OSNMA key material\<close>

record osnma_key =
  pkid :: int
  publicKeyHex :: string
  merkleRootHex :: string
  hashFunction :: string
  applicabilityMs :: int

record osnma_result =
  or_valid :: bool
  or_pkid :: int
  or_merkleRootHex :: string
  keyFingerprint :: string
  or_applicabilityMs :: int
  checkedAt :: int

definition DEFAULT_OSNMA_KEY :: osnma_key where
  "DEFAULT_OSNMA_KEY =
     \<lparr>pkid = 2,
      publicKeyHex = ''02219204B5CA6C46B623EEED6CDD2CDDB1F7D6A7532767E5B8DA0DE1EBD695FC99'',
      merkleRootHex = ''7B944FA20915C7931D48DD016D94F9C6381FD37DC6C125D97015272FDDE41393'',
      hashFunction = ''SHA-256'',
      applicabilityMs = 1765360800000\<rparr>"

text \<open>
  The parameters are SHA-256, as bytes to bytes, the rendering of a time as an ISO string,
  and the hexadecimal form of the offending prefix (\<open>toString(16)\<close>).
\<close>

definition verifyOsnmaKeyMaterial ::
    "(bytes \<Rightarrow> bytes) \<Rightarrow> (int \<Rightarrow> string) \<Rightarrow> (nat \<Rightarrow> string) \<Rightarrow> int \<Rightarrow> osnma_key \<Rightarrow> js_exn + osnma_result" where
  "verifyOsnmaKeyMaterial sha256 toIso hex16 now key =
     (let pubKeyBytes = hex_decode (publicKeyHex key) in
      if length pubKeyBytes \<noteq> 33 then
        Inl (throw3 TTTTimeSynthesisError ''OSNMA_KEY_LENGTH_INVALID''
          (''Public key must be 33 bytes (compressed P-256), got '' @ show_int (int (length pubKeyBytes)))
          ''Check OSNMA key format from GSC Europa portal'')
      else if pubKeyBytes ! 0 \<noteq> 2 \<and> pubKeyBytes ! 0 \<noteq> 3 then
        Inl (throw3 TTTTimeSynthesisError ''OSNMA_KEY_PREFIX_INVALID''
          (''Compressed P-256 point must start with 02 or 03, got '' @ hex16 (unat (pubKeyBytes ! 0)))
          ''OSNMA public key is not a valid compressed EC point'')
      else
        let merkleBytes = hex_decode (merkleRootHex key) in
        if length merkleBytes \<noteq> 32 then
          Inl (throw3 TTTTimeSynthesisError ''OSNMA_MERKLE_LENGTH_INVALID''
            (''Merkle root must be 32 bytes (SHA-256), got '' @ show_int (int (length merkleBytes)))
            ''Check OSNMA Merkle Tree XML from GSC Europa portal'')
        else if now < applicabilityMs key then
          Inl (throw3 TTTTimeSynthesisError ''OSNMA_KEY_NOT_YET_APPLICABLE''
            (''Key PKID='' @ show_int (pkid key) @ '' not applicable until '' @ toIso (applicabilityMs key))
            ''Use a key with an applicability date in the past'')
        else
          Inr \<lparr>or_valid = True, or_pkid = pkid key, or_merkleRootHex = merkleRootHex key,
               keyFingerprint = hex_encode (sha256 pubKeyBytes),
               or_applicabilityMs = applicabilityMs key, checkedAt = now\<rparr>)"

record osnma_source =
  keyMaterial :: osnma_key
  verificationResult :: "osnma_result option"

text \<open>The constructor fills missing fields with the defaults.\<close>

definition OsnmaTimeSource ::
    "int option \<Rightarrow> string option \<Rightarrow> string option \<Rightarrow> string option \<Rightarrow> int option \<Rightarrow> osnma_source" where
  "OsnmaTimeSource kid pk mr hf app =
     \<lparr>keyMaterial =
        \<lparr>pkid = (case kid of None \<Rightarrow> pkid DEFAULT_OSNMA_KEY | Some v \<Rightarrow> v),
         publicKeyHex = (case pk of None \<Rightarrow> publicKeyHex DEFAULT_OSNMA_KEY | Some v \<Rightarrow> v),
         merkleRootHex = (case mr of None \<Rightarrow> merkleRootHex DEFAULT_OSNMA_KEY | Some v \<Rightarrow> v),
         hashFunction = (case hf of None \<Rightarrow> hashFunction DEFAULT_OSNMA_KEY | Some v \<Rightarrow> v),
         applicabilityMs = (case app of None \<Rightarrow> applicabilityMs DEFAULT_OSNMA_KEY | Some v \<Rightarrow> v)\<rparr>,
      verificationResult = None\<rparr>"

text \<open>\<open>getTime\<close>: verify once, cache the result; then the local clock with stratum 1.\<close>

definition osnma_getTime ::
    "(bytes \<Rightarrow> bytes) \<Rightarrow> (int \<Rightarrow> string) \<Rightarrow> (nat \<Rightarrow> string) \<Rightarrow> int \<times> int \<Rightarrow> osnma_source
     \<Rightarrow> time_reading settle \<times> osnma_source" where
  "osnma_getTime sha256 toIso hex16 clock s =
     (let verified = (case verificationResult s of
                        Some r \<Rightarrow> Inr r
                      | None \<Rightarrow> verifyOsnmaKeyMaterial sha256 toIso hex16 (fst clock) (keyMaterial s))
      in case verified of
           Inl e \<Rightarrow> (Rejected e, s)
         | Inr r \<Rightarrow>
             (Fulfilled \<lparr>tr_timestamp = snd clock * 1000000, tr_uncertainty = 50,
                         tr_stratum = 1, tr_source = ''osnma''\<rparr>,
              s\<lparr>verificationResult := Some r\<rparr>))"

interpretation osnma: time_source "\<lambda>_ :: osnma_source. ''osnma''"
  "\<lambda>clock s. Some (fst (osnma_getTime sha256 toIso hex16 clock s))" for sha256 toIso hex16
  by unfold_locales (auto simp: osnma_getTime_def Let_def split: sum.splits)

definition osnma_key_ok :: "int \<Rightarrow> osnma_key \<Rightarrow> bool" where
  "osnma_key_ok now key \<longleftrightarrow>
     length (hex_decode (publicKeyHex key)) = 33 \<and>
     hex_decode (publicKeyHex key) ! 0 \<in> {2, 3} \<and>
     length (hex_decode (merkleRootHex key)) = 32 \<and> applicabilityMs key \<le> now"

lemma verifyOsnma_Inr_iff:
  "(\<exists>r. verifyOsnmaKeyMaterial sha256 toIso hex16 now key = Inr r) \<longleftrightarrow> osnma_key_ok now key"
  by (simp add: verifyOsnmaKeyMaterial_def osnma_key_ok_def Let_def not_less)

lemma osnma_cached:
  "verificationResult s = Some v \<Longrightarrow>
   osnma_getTime sha256 toIso hex16 clock s =
     (Fulfilled \<lparr>tr_timestamp = snd clock * 1000000, tr_uncertainty = 50,
                 tr_stratum = 1, tr_source = ''osnma''\<rparr>, s)"
  by (cases s) (simp add: osnma_getTime_def)

text \<open>
  The OSNMA source verifies its key material exactly once.  A call is fulfilled iff
  an earlier one was, or the key passes the four checks at that call's time: a 33-byte
  point with prefix 02 or 03, a 32-byte Merkle root and an applicability date that is
  reached.  Once fulfilled it stays so, even if the clock is set back.
\<close>

theorem osnma_verified_once:
  assumes "osnma_getTime sha256 toIso hex16 clock s = (res, s')"
  shows "((\<exists>v. res = Fulfilled v) \<longleftrightarrow>
           verificationResult s \<noteq> None \<or>
           (length (hex_decode (publicKeyHex (keyMaterial s))) = 33 \<and>
            hex_decode (publicKeyHex (keyMaterial s)) ! 0 \<in> {2, 3} \<and>
            length (hex_decode (merkleRootHex (keyMaterial s))) = 32 \<and>
            applicabilityMs (keyMaterial s) \<le> fst clock)) \<and>
         ((\<exists>v. res = Fulfilled v) \<longrightarrow>
            (\<exists>w. fst (osnma_getTime sha256 toIso hex16 clock' s') = Fulfilled w) \<and>
            snd (osnma_getTime sha256 toIso hex16 clock' s') = s')"
proof (cases "verificationResult s")
  case None
  show ?thesis
  proof (cases "verifyOsnmaKeyMaterial sha256 toIso hex16 (fst clock) (keyMaterial s)")
    case (Inl e)
    then have "res = Rejected e" using assms None by (simp add: osnma_getTime_def Let_def)
    moreover have "\<not> osnma_key_ok (fst clock) (keyMaterial s)"
      using Inl verifyOsnma_Inr_iff [of sha256 toIso hex16 "fst clock" "keyMaterial s"] by simp
    ultimately show ?thesis using None by (simp add: osnma_key_ok_def)
  next
    case (Inr v)
    then have "s' = s\<lparr>verificationResult := Some v\<rparr>" and "\<exists>r. res = Fulfilled r"
      using assms None by (auto simp: osnma_getTime_def Let_def)
    moreover have "osnma_key_ok (fst clock) (keyMaterial s)"
      using Inr verifyOsnma_Inr_iff [of sha256 toIso hex16 "fst clock" "keyMaterial s"] by simp
    ultimately show ?thesis using None by (simp add: osnma_key_ok_def osnma_cached)
  qed
next
  case (Some v)
  then show ?thesis using assms by (auto simp: osnma_cached)
qed

lemma default_osnma_key_bytes:
  "length (hex_decode (publicKeyHex DEFAULT_OSNMA_KEY)) = 33"
  "hex_decode (publicKeyHex DEFAULT_OSNMA_KEY) ! 0 = 2"
  "length (hex_decode (merkleRootHex DEFAULT_OSNMA_KEY)) = 32"
  by code_simp+

definition osnma_default_source :: osnma_source where
  "osnma_default_source = OsnmaTimeSource None None None None None"

lemma osnma_verified_once_witness:
  "\<exists>v s'. osnma_getTime (\<lambda>bs. bs) show_int (\<lambda>n. show_int (int n)) (1800000000000, 1800000000001)
            osnma_default_source = (Fulfilled v, s') \<and>
          (\<exists>w. fst (osnma_getTime (\<lambda>bs. bs) show_int (\<lambda>n. show_int (int n)) (0, 5) s') = Fulfilled w)"
proof -
  let ?get = "osnma_getTime (\<lambda>bs. bs) show_int (\<lambda>n. show_int (int n))"
  obtain res s' where r: "?get (1800000000000, 1800000000001) osnma_default_source = (res, s')"
    by (cases "?get (1800000000000, 1800000000001) osnma_default_source")
  have key: "keyMaterial osnma_default_source = DEFAULT_OSNMA_KEY"
    by (simp add: osnma_default_source_def OsnmaTimeSource_def)
  have "applicabilityMs DEFAULT_OSNMA_KEY \<le> 1800000000000"
    by (simp add: DEFAULT_OSNMA_KEY_def)
  then show ?thesis
    using osnma_verified_once [OF r, of "(0, 5)"] r
    by (simp add: key default_osnma_key_bytes)
qed

end
