(* ===== verification/JsMap.thy ===== *)
theory JsMap
  imports Interfaces
begin

text \<open>
  The JavaScript \<open>Map\<close>: a list of entries in insertion order, one per key.  Setting a key
  that is present keeps its place; a new key goes to the end; \<open>keys().next()\<close> is the first
  key.  On top of it, the two idioms several components use: insertion with FIFO eviction
  at a capacity, and a sweep that drops the entries a test rejects (deleting while
  iterating visits every entry once, so it is a filter).
\<close>

section \<open>Operations\<close>

type_synonym ('k, 'v) jsmap = "('k \<times> 'v) list"

definition jm_get :: "'k \<Rightarrow> ('k, 'v) jsmap \<Rightarrow> 'v option" where
  "jm_get k m = map_of m k"

definition jm_has :: "'k \<Rightarrow> ('k, 'v) jsmap \<Rightarrow> bool" where
  "jm_has k m = (k \<in> set (map fst m))"

definition jm_set :: "'k \<Rightarrow> 'v \<Rightarrow> ('k, 'v) jsmap \<Rightarrow> ('k, 'v) jsmap" where
  "jm_set k v m =
     (if jm_has k m then map (\<lambda>(a, b). if a = k then (a, v) else (a, b)) m else m @ [(k, v)])"

definition jm_delete :: "'k \<Rightarrow> ('k, 'v) jsmap \<Rightarrow> ('k, 'v) jsmap" where
  "jm_delete k m = filter (\<lambda>e. fst e \<noteq> k) m"

definition jm_evict_oldest :: "('k, 'v) jsmap \<Rightarrow> ('k, 'v) jsmap" where
  "jm_evict_oldest m = (case m of [] \<Rightarrow> [] | e # _ \<Rightarrow> jm_delete (fst e) m)"

text \<open>Insertion at a capacity: the oldest entry goes first when the map is full.\<close>

definition jm_put_fifo :: "nat \<Rightarrow> 'k \<Rightarrow> 'v \<Rightarrow> ('k, 'v) jsmap \<Rightarrow> ('k, 'v) jsmap" where
  "jm_put_fifo cap k v m = jm_set k v (if cap \<le> length m then jm_evict_oldest m else m)"

definition jm_ok :: "('k, 'v) jsmap \<Rightarrow> bool" where
  "jm_ok m \<longleftrightarrow> distinct (map fst m)"

section \<open>Lookups\<close>

lemma jm_has_get [jmap_simps]: "jm_has k m \<longleftrightarrow> jm_get k m \<noteq> None"
  by (simp add: jm_has_def jm_get_def map_of_eq_None_iff)

lemma jm_get_empty [simp]: "jm_get k [] = None"
  by (simp add: jm_get_def)

lemma map_of_replace:
  "map_of (map (\<lambda>(a, b). if a = k then (a, v) else (a, b)) m) x =
     (if x = k \<and> map_of m k \<noteq> None then Some v else map_of m x)"
  by (induction m) auto

lemma jm_get_set [simp, jmap_simps]: "jm_get x (jm_set k v m) = (if x = k then Some v else jm_get x m)"
  by (auto simp: jm_set_def jm_has_get jm_get_def map_of_replace map_add_def split: option.splits)

lemma jm_get_delete [simp, jmap_simps]: "jm_get x (jm_delete k m) = (if x = k then None else jm_get x m)"
  by (induction m) (auto simp: jm_delete_def jm_get_def)

lemma jm_get_filter:
  "jm_ok m \<Longrightarrow> jm_get x (filter P m) =
     (case jm_get x m of None \<Rightarrow> None | Some v \<Rightarrow> if P (x, v) then Some v else None)"
  by (induction m) (auto simp: jm_ok_def jm_get_def map_of_eq_None_iff split: option.splits)

lemma jm_get_evict:
  "jm_get x (jm_evict_oldest m) = (if m \<noteq> [] \<and> x = fst (hd m) then None else jm_get x m)"
  by (cases m) (auto simp: jm_evict_oldest_def)

lemma jm_get_put_self [simp, jmap_simps]: "jm_get k (jm_put_fifo cap k v m) = Some v"
  by (simp add: jm_put_fifo_def)

lemma jm_get_put_other:
  "x \<noteq> k \<Longrightarrow> jm_get x (jm_put_fifo cap k v m) \<in> {None, jm_get x m}"
  by (simp add: jm_put_fifo_def jm_get_evict)

section \<open>Sizes and well-formedness\<close>

lemma fst_replace [simp]: "map fst (map (\<lambda>(a, b). if a = k then (a, v) else (a, b)) m) = map fst m"
  by (induction m) auto

lemma jm_keys_set: "map fst (jm_set k v m) = (if jm_has k m then map fst m else map fst m @ [k])"
  by (simp add: jm_set_def del: map_map)

lemma length_jm_set [jmap_simps]: "length (jm_set k v m) = (if jm_has k m then length m else Suc (length m))"
  by (simp add: jm_set_def)

lemma jm_ok_empty [simp]: "jm_ok []"
  by (simp add: jm_ok_def)

lemma jm_ok_set [simp]: "jm_ok m \<Longrightarrow> jm_ok (jm_set k v m)"
  by (auto simp: jm_ok_def jm_keys_set jm_has_def)

lemma jm_ok_filter [simp]: "jm_ok m \<Longrightarrow> jm_ok (filter P m)"
  by (simp add: jm_ok_def distinct_map_filter)

lemma jm_ok_delete [simp]: "jm_ok m \<Longrightarrow> jm_ok (jm_delete k m)"
  by (simp add: jm_delete_def)

lemma jm_ok_tl [simp]: "jm_ok m \<Longrightarrow> jm_ok (tl m)"
  by (cases m) (auto simp: jm_ok_def)

lemma jm_evict_tl: "jm_ok m \<Longrightarrow> jm_evict_oldest m = tl m"
  by (cases m) (auto simp: jm_evict_oldest_def jm_delete_def jm_ok_def image_iff
      intro!: filter_True)

lemma jm_ok_evict [simp]: "jm_ok m \<Longrightarrow> jm_ok (jm_evict_oldest m)"
  by (simp add: jm_evict_tl)

lemma jm_ok_put [simp]: "jm_ok m \<Longrightarrow> jm_ok (jm_put_fifo cap k v m)"
  by (simp add: jm_put_fifo_def)

lemma length_jm_put:
  "jm_ok m \<Longrightarrow> length m \<le> cap \<Longrightarrow> 0 < cap \<Longrightarrow> length (jm_put_fifo cap k v m) \<le> cap"
  by (auto simp: jm_put_fifo_def length_jm_set jm_evict_tl)

lemma jm_put_nonempty [simp]: "jm_put_fifo cap k v m \<noteq> []"
proof
  assume "jm_put_fifo cap k v m = []"
  then have "jm_get k (jm_put_fifo cap k v m) = None" by simp
  then show False by simp
qed

lemma jm_set_fresh: "\<not> jm_has k m \<Longrightarrow> jm_set k v m = m @ [(k, v)]"
  by (simp add: jm_set_def)

lemma jm_evict_incl: "set (jm_evict_oldest m) \<subseteq> set m"
  by (cases m) (auto simp: jm_evict_oldest_def jm_delete_def)

lemma jm_has_evict: "jm_has k (jm_evict_oldest m) \<Longrightarrow> jm_has k m"
  using jm_evict_incl [of m] by (auto simp: jm_has_def)

text \<open>Filling an empty map from entries with different keys.\<close>

lemma fold_jm_set_fresh:
  "distinct (map fst m @ map fst ps) \<Longrightarrow> fold (\<lambda>(t, v). jm_set t v) ps m = m @ ps"
  by (induction ps arbitrary: m) (auto simp: jm_set_def jm_has_def)

end
