(* ===== verification/Roughtime.thy ===== *)
theory Roughtime
  imports TimeSources JsMap
begin

text \<open>
  The Roughtime client of \<open>src/roughtime_source.ts\<close>: the tag-value wire format, the request,
  the validation of a response (signature chain, validity window, Merkle path) and the
  UDP exchange.  SHA-512 and Ed25519 verification are parameters; a key is handed to the
  latter in the DER form the code builds.
\<close>

section \<open>Configuration\<close>

record roughtime_server =
  rs_name :: string
  rs_host :: string
  rs_port :: nat
  rs_pubkeyB64 :: string

definition ROUGHTIME_SERVERS :: "roughtime_server list" where
  "ROUGHTIME_SERVERS =
     [\<lparr>rs_name = ''roughtime-int08h'', rs_host = ''roughtime.int08h.com'', rs_port = 2002,
       rs_pubkeyB64 = ''AW5uAoTSTDfG5NfY1bTh08GUnOqlRb+HVhbJ3ODJvsE=''\<rparr>,
      \<lparr>rs_name = ''roughtime-cloudflare'', rs_host = ''roughtime.cloudflare.com'', rs_port = 2003,
       rs_pubkeyB64 = ''0GD7c3yP8xEc4Zl2zeuN2SlLvDVVocjsPSL8/Rl/7zg=''\<rparr>,
      \<lparr>rs_name = ''roughtime-se'', rs_host = ''roughtime.se'', rs_port = 2002,
       rs_pubkeyB64 = ''S3AzfZJ5CjSdkJ21ZJGbxqdYP/SoE8fXKY0+aicsehI=''\<rparr>,
      \<lparr>rs_name = ''roughtime-txryan'', rs_host = ''time.txryan.com'', rs_port = 2002,
       rs_pubkeyB64 = ''iBVjxg/1j7y1+kQUTBYdTabxCppesU/07D4PMDJk2WA=''\<rparr>]"

section \<open>Tags, hashes and messages\<close>

definition ascii_bytes :: "string \<Rightarrow> bytes" where
  "ascii_bytes s = map (\<lambda>c. word_of_nat (of_char c)) s"

definition tagU32 :: "string \<Rightarrow> bytes" where
  "tagU32 s = take 4 (ascii_bytes s @ replicate 4 0)"

definition tagKey :: "bytes \<Rightarrow> nat" where
  "tagKey tag = le_val (take 4 tag)"

definition rtHash :: "(bytes \<Rightarrow> bytes) \<Rightarrow> bytes list \<Rightarrow> bytes" where
  "rtHash sha512 parts = take 32 (sha512 (concat parts))"

text \<open>Where each of a list of values starts when they are laid out from \<open>p\<close>.\<close>

fun positions :: "nat \<Rightarrow> bytes list \<Rightarrow> nat list" where
  "positions p [] = []"
| "positions p (v # vs) = p # positions (p + length v) vs"

text \<open>
  The message builder: the number of tags, all offsets but the first, the tags, the values.
  (Messages are shorter than \<open>2 ^ 32\<close> bytes, the most a Node buffer holds.)
\<close>

definition buildMessage :: "(bytes \<times> bytes) list \<Rightarrow> bytes" where
  "buildMessage pairs =
     le_bytes 4 (length pairs)
     @ concat (map (le_bytes 4) (tl (positions 0 (map snd pairs))))
     @ concat (map fst pairs)
     @ concat (map snd pairs)"

fun collect_values ::
    "bytes \<Rightarrow> (nat \<times> nat \<times> nat) list \<Rightarrow> (nat, bytes) jsmap \<Rightarrow> (nat, bytes) jsmap option" where
  "collect_values buf [] m = Some m"
| "collect_values buf ((tag, vstart, vend) # rest) m =
     (if length buf < vend \<or> vend < vstart then None
      else collect_values buf rest (jm_set tag (subarray vstart vend buf) m))"

definition parseMessage :: "bytes \<Rightarrow> (nat, bytes) jsmap option" where
  "parseMessage buf =
     (if length buf < 4 then None
      else
        let n = le_val (subarray 0 4 buf) in
        if n = 0 then Some []
        else
          let headerLen = 4 + 4 * (n - 1) + 4 * n in
          if length buf < headerLen then None
          else
            let offsets = 0 # map (\<lambda>i. le_val (subarray (4 + 4 * i) (4 + 4 * i + 4) buf)) [0..<n - 1];
                tagsStart = 4 + 4 * (n - 1);
                tags = map (\<lambda>i. le_val (subarray (tagsStart + 4 * i) (tagsStart + 4 * i + 4) buf)) [0..<n];
                starts = map (\<lambda>off. headerLen + off) offsets;
                ends = tl starts @ [length buf]
            in collect_values buf (zip tags (zip starts ends)) [])"

subsection \<open>The parser inverts the builder\<close>

lemma chunk_nth:
  "\<forall>x \<in> set xs. length x = w \<Longrightarrow> i < length xs \<Longrightarrow>
   subarray (w * i) (w * i + w) (concat xs @ ys) = xs ! i"
proof (induction xs arbitrary: i)
  case (Cons x xs)
  then show ?case by (cases i) (simp_all add: subarray_def)
qed simp

lemma subarray_skip: "length xs = h \<Longrightarrow> subarray (h + a) (h + b) (xs @ ys) = subarray a b ys"
  by (simp add: subarray_def)

lemma length_positions [simp]: "length (positions p vs) = length vs"
  by (induction vs arbitrary: p) auto

lemma positions_shift: "map (\<lambda>off. h + off) (positions p vs) = positions (h + p) vs"
  by (induction vs arbitrary: p) (auto simp: add.assoc)

lemma positions_bound: "x \<in> set (positions p vs) \<Longrightarrow> x \<le> p + length (concat vs)"
  by (induction vs arbitrary: p) force+

lemma positions_head: "vs \<noteq> [] \<Longrightarrow> positions p vs = p # tl (positions p vs)"
  by (cases vs) simp_all

lemma collect_positions:
  "collect_values (pre @ concat vs @ suf)
     (zip tags (zip (positions (length pre) vs)
        (tl (positions (length pre) vs) @ [length pre + length (concat vs)]))) m =
   Some (fold (\<lambda>(t, v). jm_set t v) (zip tags vs) m)"
proof (induction vs arbitrary: pre tags m)
  case Nil
  then show ?case by simp
next
  case (Cons v vs)
  show ?case
  proof (cases tags)
    case Nil
    then show ?thesis by simp
  next
    case (Cons t ts)
    have "collect_values ((pre @ v) @ concat vs @ suf)
        (zip ts (zip (positions (length (pre @ v)) vs)
          (tl (positions (length (pre @ v)) vs) @ [length (pre @ v) + length (concat vs)]))) (jm_set t v m)
        = Some (fold (\<lambda>(t, v). jm_set t v) (zip ts vs) (jm_set t v m))"
      by (rule Cons.IH)
    moreover have "subarray (length pre) (length pre + length v) (pre @ v @ concat vs @ suf) = v"
      by (simp add: subarray_def)
    ultimately show ?thesis
      using Cons by (cases vs) (simp_all add: add.assoc)
  qed
qed

definition message_ok :: "(bytes \<times> bytes) list \<Rightarrow> bool" where
  "message_ok pairs \<longleftrightarrow>
     (\<forall>p \<in> set pairs. length (fst p) = 4) \<and> distinct (map (tagKey \<circ> fst) pairs) \<and>
     length pairs < 256 ^ 4 \<and> length (concat (map snd pairs)) < 256 ^ 4"

lemma length_concat_chunks: "\<forall>x \<in> set xs. length x = w \<Longrightarrow> length (concat xs) = w * length xs"
  by (induction xs) auto

lemma length_buildMessage:
  assumes "\<forall>p \<in> set pairs. length (fst p) = 4"
  shows "length (buildMessage pairs) =
           4 + 4 * (length pairs - 1) + 4 * length pairs + length (concat (map snd pairs))"
proof -
  have "length (concat (map fst pairs)) = 4 * length pairs"
    using assms length_concat_chunks [of "map fst pairs" 4] by auto
  moreover have "length (concat (map (le_bytes 4) xs)) = 4 * length xs" for xs
    using length_concat_chunks [of "map (le_bytes 4) xs" 4] by auto
  ultimately show ?thesis
    unfolding buildMessage_def by simp
qed

lemma le_val_chunk:
  assumes "\<forall>x \<in> set xs. length x = 4" and "i < length xs"
  shows "subarray (4 * i) (4 * i + 4) (concat xs @ ys) = xs ! i"
  using chunk_nth [OF assms] by simp

lemma buildMessage_offset:
  assumes "i < length pairs - 1"
  shows "subarray (4 + 4 * i) (4 + 4 * i + 4) (buildMessage pairs)
         = le_bytes 4 (tl (positions 0 (map snd pairs)) ! i)"
proof -
  let ?offs = "tl (positions 0 (map snd pairs))"
  have "subarray (4 + 4 * i) (4 + 4 * i + 4) (buildMessage pairs)
      = subarray (4 * i) (4 * i + 4) (concat (map (le_bytes 4) ?offs) @ concat (map fst pairs) @ concat (map snd pairs))"
    unfolding buildMessage_def by (simp add: subarray_def)
  also have "\<dots> = map (le_bytes 4) ?offs ! i"
    using assms by (intro le_val_chunk) auto
  finally show ?thesis using assms by simp
qed

lemma buildMessage_tag:
  assumes "\<forall>p \<in> set pairs. length (fst p) = 4" and "i < length pairs"
  shows "subarray (4 + 4 * (length pairs - 1) + 4 * i) (4 + 4 * (length pairs - 1) + 4 * i + 4)
           (buildMessage pairs) = fst (pairs ! i)"
proof -
  let ?hd = "le_bytes 4 (length pairs) @ concat (map (le_bytes 4) (tl (positions 0 (map snd pairs))))"
  have hd: "length ?hd = 4 + 4 * (length pairs - 1)"
    using length_concat_chunks [of "map (le_bytes 4) (tl (positions 0 (map snd pairs)))" 4] by simp
  have "buildMessage pairs = ?hd @ concat (map fst pairs) @ concat (map snd pairs)"
    by (simp add: buildMessage_def)
  then have "subarray (4 + 4 * (length pairs - 1) + 4 * i) (4 + 4 * (length pairs - 1) + 4 * i + 4)
           (buildMessage pairs)
      = subarray (4 * i) (4 * i + 4) (concat (map fst pairs) @ concat (map snd pairs))"
    using subarray_skip [OF hd, of "4 * i" "4 * i + 4"] by (simp only: append_assoc add.assoc)
  also have "\<dots> = map fst pairs ! i"
    using assms by (intro le_val_chunk) auto
  finally show ?thesis using assms by simp
qed

theorem parse_build_message:
  assumes "message_ok pairs"
  shows "parseMessage (buildMessage pairs) = Some (map (\<lambda>(t, v). (tagKey t, v)) pairs)"
proof (cases "pairs = []")
  case True
  then show ?thesis
    by (simp add: parseMessage_def buildMessage_def Let_def le_val_le_bytes)
next
  case False
  let ?msg = "buildMessage pairs" and ?vs = "map snd pairs" and ?n = "length pairs"
  let ?h = "4 + 4 * (?n - 1) + 4 * ?n"
  have tag4: "\<forall>p \<in> set pairs. length (fst p) = 4" and n: "?n < 256 ^ 4"
    and vlen: "length (concat ?vs) < 256 ^ 4" and dist: "distinct (map (tagKey \<circ> fst) pairs)"
    using assms unfolding message_ok_def by auto
  have len: "length ?msg = ?h + length (concat ?vs)"
    by (rule length_buildMessage [OF tag4])
  have num: "le_val (subarray 0 4 ?msg) = ?n"
    using n by (simp add: buildMessage_def le_val_le_bytes)
  have offs: "map (\<lambda>i. le_val (subarray (4 + 4 * i) (4 + 4 * i + 4) ?msg)) [0..<?n - 1]
            = tl (positions 0 ?vs)"
  proof (rule nth_equalityI)
    fix i assume "i < length (map (\<lambda>i. le_val (subarray (4 + 4 * i) (4 + 4 * i + 4) ?msg)) [0..<?n - 1])"
    then have i: "i < ?n - 1" by simp
    then have "tl (positions 0 ?vs) ! i \<in> set (tl (positions 0 ?vs))"
      by (intro nth_mem) simp
    then have "tl (positions 0 ?vs) ! i \<in> set (positions 0 ?vs)"
      by (cases "positions 0 ?vs") simp_all
    then have "tl (positions 0 ?vs) ! i < 256 ^ 4"
      using positions_bound [of _ 0 ?vs] vlen by fastforce
    then have "le_val (subarray (4 + 4 * i) (4 + 4 * i + 4) ?msg) = tl (positions 0 ?vs) ! i"
      unfolding buildMessage_offset [OF i] by (simp add: le_val_le_bytes)
    then show "map (\<lambda>i. le_val (subarray (4 + 4 * i) (4 + 4 * i + 4) ?msg)) [0..<?n - 1] ! i
             = tl (positions 0 ?vs) ! i"
      using i by simp
  qed simp
  have tags: "map (\<lambda>i. le_val (subarray (4 + 4 * (?n - 1) + 4 * i) (4 + 4 * (?n - 1) + 4 * i + 4) ?msg)) [0..<?n]
            = map (tagKey \<circ> fst) pairs"
  proof (rule nth_equalityI)
    fix i assume "i < length (map (\<lambda>i. le_val (subarray (4 + 4 * (?n - 1) + 4 * i)
                     (4 + 4 * (?n - 1) + 4 * i + 4) ?msg)) [0..<?n])"
    then have i: "i < ?n" by simp
    then have "length (fst (pairs ! i)) = 4" using tag4 by simp
    then have "le_val (subarray (4 + 4 * (?n - 1) + 4 * i) (4 + 4 * (?n - 1) + 4 * i + 4) ?msg)
                = tagKey (fst (pairs ! i))"
      unfolding buildMessage_tag [OF tag4 i] by (simp add: tagKey_def)
    then show "map (\<lambda>i. le_val (subarray (4 + 4 * (?n - 1) + 4 * i)
                     (4 + 4 * (?n - 1) + 4 * i + 4) ?msg)) [0..<?n] ! i = map (tagKey \<circ> fst) pairs ! i"
      using i by simp
  qed simp
  have split: "?msg = take ?h ?msg @ concat ?vs @ []"
  proof -
    have "drop ?h ?msg = concat ?vs"
    proof -
      let ?hd = "le_bytes 4 ?n @ concat (map (le_bytes 4) (tl (positions 0 ?vs))) @ concat (map fst pairs)"
      have "length ?hd = ?h"
        using length_concat_chunks [of "map (le_bytes 4) (tl (positions 0 ?vs))" 4]
          length_concat_chunks [of "map fst pairs" 4] tag4 by simp
      then have "drop ?h (?hd @ concat ?vs) = concat ?vs" by simp
      then show ?thesis unfolding buildMessage_def by simp
    qed
    then show ?thesis using append_take_drop_id [of ?h ?msg] by simp
  qed
  have hlen: "length (take ?h ?msg) = ?h" using len by simp
  have starts: "map (\<lambda>off. ?h + off) (0 # tl (positions 0 ?vs)) = positions ?h ?vs"
    using positions_head [of ?vs 0] positions_shift [of ?h 0 ?vs] False by simp
  have "parseMessage ?msg
      = collect_values ?msg (zip (map (tagKey \<circ> fst) pairs)
          (zip (positions ?h ?vs) (tl (positions ?h ?vs) @ [length ?msg]))) []"
    using len num False unfolding parseMessage_def Let_def num offs tags starts by auto
  also have "\<dots> = Some (fold (\<lambda>(t, v). jm_set t v) (zip (map (tagKey \<circ> fst) pairs) ?vs) [])"
    using collect_positions [of "take ?h ?msg" ?vs "[]" "map (tagKey \<circ> fst) pairs" "[]"]
    unfolding hlen split [symmetric] len by (simp add: hlen)
  also have "zip (map (tagKey \<circ> fst) pairs) ?vs = map (\<lambda>(t, v). (tagKey t, v)) pairs"
    by (simp add: zip_map_map zip_same_conv_map case_prod_beta)
  also have "fold (\<lambda>(t, v). jm_set t v) (map (\<lambda>(t, v). (tagKey t, v)) pairs) [] = map (\<lambda>(t, v). (tagKey t, v)) pairs"
    using dist fold_jm_set_fresh [of "[]" "map (\<lambda>(t, v). (tagKey t, v)) pairs"]
    by (simp add: case_prod_beta comp_def)
  finally show ?thesis .
qed

section \<open>Requests\<close>

definition ROUGHTIME_MAGIC :: bytes where "ROUGHTIME_MAGIC = ascii_bytes ''ROUGHTIM''"
definition NONCE_LEN :: nat where "NONCE_LEN = 32"
definition MIN_PACKET_LEN :: nat where "MIN_PACKET_LEN = 1024"
definition VER_FINAL :: nat where "VER_FINAL = 1"
definition VER_EXPERIMENTAL :: nat where "VER_EXPERIMENTAL = 0x8000000c"

text \<open>\<open>Array.prototype.sort\<close> with the tag comparison, which is stable.\<close>

definition sort_pairs :: "(bytes \<times> bytes) list \<Rightarrow> (bytes \<times> bytes) list" where
  "sort_pairs = sort_key (\<lambda>p. tagKey (fst p))"

definition buildRoughtimeRequest ::
    "(bytes \<Rightarrow> bytes) \<Rightarrow> bytes \<Rightarrow> bytes \<Rightarrow> js_exn + bytes" where
  "buildRoughtimeRequest sha512 nonce32 serverPubkey32 =
     (if length nonce32 \<noteq> NONCE_LEN then
        Inl (JsError (''nonce must be '' @ show_int (int NONCE_LEN) @ '' bytes, got ''
                      @ show_int (int (length nonce32))))
      else
        let srv = rtHash sha512 [[0xff], serverPubkey32];
            type0 = replicate 4 0;
            ver = le_bytes 4 VER_FINAL @ le_bytes 4 VER_EXPERIMENTAL;
            pairs = sort_pairs [(tagU32 ''NONC'', nonce32), (tagU32 ''SRV'', srv),
                                (tagU32 ''TYPE'', type0), (tagU32 ''VER'', ver)];
            msg0 = buildMessage pairs;
            lenWithoutPad = 12 + length msg0;
            msg = (if lenWithoutPad < MIN_PACKET_LEN then
                     buildMessage (sort_pairs
                       (pairs @ [(tagU32 ''ZZZZ'', replicate (MIN_PACKET_LEN - lenWithoutPad) 0)]))
                   else msg0)
        in Inr (ROUGHTIME_MAGIC @ le_bytes 4 (length msg) @ msg))"

text \<open>The order of the tags as little-endian numbers.\<close>

lemma tag_keys [byte_simps]:
  "tagKey (tagU32 ''NONC'') = 0x434e4f4e" "tagKey (tagU32 ''SRV'') = 0x00565253"
  "tagKey (tagU32 ''TYPE'') = 0x45505954" "tagKey (tagU32 ''VER'') = 0x00524556"
  "tagKey (tagU32 ''ZZZZ'') = 0x5a5a5a5a" "tagKey (tagU32 ''SIG'') = 0x00474953"
  "tagKey (tagU32 ''PATH'') = 0x48544150" "tagKey (tagU32 ''SREP'') = 0x50455253"
  "tagKey (tagU32 ''CERT'') = 0x54524543" "tagKey (tagU32 ''INDX'') = 0x58444e49"
  "tagKey (tagU32 ''DELE'') = 0x454c4544" "tagKey (tagU32 ''PUBK'') = 0x4b425550"
  "tagKey (tagU32 ''MINT'') = 0x544e494d" "tagKey (tagU32 ''MAXT'') = 0x5458414d"
  "tagKey (tagU32 ''RADI'') = 0x49444152" "tagKey (tagU32 ''MIDP'') = 0x5044494d"
  "tagKey (tagU32 ''ROOT'') = 0x544f4f52"
  by (simp_all add: tagKey_def tagU32_def ascii_bytes_def)

lemma length_tagU32 [simp, byte_simps]: "length (tagU32 s) = 4"
  by (simp add: tagU32_def)

definition request_pairs :: "(bytes \<Rightarrow> bytes) \<Rightarrow> bytes \<Rightarrow> bytes \<Rightarrow> (bytes \<times> bytes) list" where
  "request_pairs sha512 nonce32 pk =
     [(tagU32 ''VER'', le_bytes 4 VER_FINAL @ le_bytes 4 VER_EXPERIMENTAL),
      (tagU32 ''SRV'', rtHash sha512 [[0xff], pk]),
      (tagU32 ''NONC'', nonce32),
      (tagU32 ''TYPE'', replicate 4 0)]"

lemma sort_request:
  "sort_pairs [(tagU32 ''NONC'', a), (tagU32 ''SRV'', b), (tagU32 ''TYPE'', c), (tagU32 ''VER'', d)]
     = [(tagU32 ''VER'', d), (tagU32 ''SRV'', b), (tagU32 ''NONC'', a), (tagU32 ''TYPE'', c)]"
  "sort_pairs [(tagU32 ''VER'', d), (tagU32 ''SRV'', b), (tagU32 ''NONC'', a), (tagU32 ''TYPE'', c),
               (tagU32 ''ZZZZ'', x)]
     = [(tagU32 ''VER'', d), (tagU32 ''SRV'', b), (tagU32 ''NONC'', a), (tagU32 ''TYPE'', c),
        (tagU32 ''ZZZZ'', x)]"
  by (simp_all add: sort_pairs_def byte_simps)

text \<open>A request to a server: 1024 bytes of message after padding, behind the 12-byte frame.\<close>

lemma build_request_eq:
  assumes "length nonce32 = 32" and "length (rtHash sha512 [[0xff], pk]) = 32"
  shows "buildRoughtimeRequest sha512 nonce32 pk =
           Inr (ROUGHTIME_MAGIC @ le_bytes 4 1020
                @ buildMessage (request_pairs sha512 nonce32 pk @ [(tagU32 ''ZZZZ'', replicate 904 0)]))"
proof -
  have "length (buildMessage (request_pairs sha512 nonce32 pk)) = 108"
    using assms by (subst length_buildMessage) (auto simp: request_pairs_def)
  moreover have "length (buildMessage (request_pairs sha512 nonce32 pk @ [(tagU32 ''ZZZZ'', replicate 904 0)])) = 1020"
    using assms by (subst length_buildMessage) (auto simp: request_pairs_def)
  ultimately show ?thesis
    using assms
    by (simp add: buildRoughtimeRequest_def NONCE_LEN_def MIN_PACKET_LEN_def Let_def sort_request
        request_pairs_def)
qed

text \<open>The DER form of a raw Ed25519 key, as \<open>crypto.createPublicKey\<close> receives it.\<close>

definition rebuildEd25519PublicKey :: "bytes \<Rightarrow> js_exn + bytes" where
  "rebuildEd25519PublicKey raw32 =
     (if length raw32 \<noteq> 32 then
        Inl (JsError (''Ed25519 public key must be 32 bytes, got '' @ show_int (int (length raw32))))
      else Inr (hex_decode ''302a300506032b6570032100'' @ raw32))"

section \<open>Responses\<close>

text \<open>
  The walk up the Merkle tree.  The index is read as an unsigned 32-bit number, but
  \<open>>>=\<close> shifts it as a signed one: the sign bit is kept.
\<close>

definition merkle_node :: "(bytes \<Rightarrow> bytes) \<Rightarrow> bytes \<Rightarrow> bytes \<Rightarrow> bytes" where
  "merkle_node sha512 l r = rtHash sha512 [[1], l, r]"

fun merkle_walk :: "(bytes \<Rightarrow> bytes) \<Rightarrow> bytes \<Rightarrow> bytes \<Rightarrow> 32 word \<Rightarrow> bytes \<times> 32 word" where
  "merkle_walk sha512 path cur idx =
     (if 32 \<le> length path then
        let node = take 32 path in
        merkle_walk sha512 (drop 32 path)
          (if and idx 1 = 0 then rtHash sha512 [[1], cur, node] else rtHash sha512 [[1], node, cur])
          (signed_drop_bit 1 idx)
      else (cur, idx))"

declare merkle_walk.simps [simp del]

record roughtime_validated =
  midpSeconds :: int
  radiSeconds :: nat

definition rt_field :: "string \<Rightarrow> (nat, bytes) jsmap \<Rightarrow> bytes option" where
  "rt_field name m = jm_get (tagKey (tagU32 name)) m"

text \<open>A fixed-width read from a value shorter than the width throws Node's \<open>RangeError\<close>.\<close>

definition rt_read :: "nat \<Rightarrow> bytes \<Rightarrow> js_exn + nat" where
  "rt_read w buf = need (RangeError ''Attempt to access memory outside buffer bounds'') (readLE w buf 0)"

definition rt_fail :: "string \<Rightarrow> string \<Rightarrow> js_exn" where
  "rt_fail sourceName reason =
     throw3 TTTTimeSynthesisError (''Roughtime validation failed for '' @ sourceName) reason
       ''Verify the server is a genuine Roughtime peer and the configured long-term public key is current (check ecosystem.json).''"

definition dele_context :: bytes where
  "dele_context = ascii_bytes ''RoughTime v1 delegation signature'' @ [0]"

definition srep_context :: bytes where
  "srep_context = ascii_bytes ''RoughTime v1 response signature'' @ [0]"

text \<open>
  The validation, statement by statement.  \<open>verify key msg sig\<close> is \<open>crypto.verify\<close> on a
  DER key, false where the library throws (the code catches that).
\<close>

definition validateRoughtimeResponse ::
    "(bytes \<Rightarrow> bytes) \<Rightarrow> (bytes \<Rightarrow> bytes \<Rightarrow> bytes \<Rightarrow> bool)
     \<Rightarrow> bytes \<Rightarrow> bytes \<Rightarrow> bytes \<Rightarrow> bytes \<Rightarrow> string \<Rightarrow> js_exn + roughtime_validated" where
  "validateRoughtimeResponse sha512 verify requestPacket responsePacket serverPubkey32 sentNonce32 sourceName =
   (let fail = rt_fail sourceName in
    bindr (check (fail ''packet too short (<12 bytes)'') (12 \<le> length responsePacket)) (\<lambda>_.
    let msgLen = le_val (subarray 8 12 responsePacket);
        msg = subarray 12 (12 + msgLen) responsePacket in
    bindr (need (fail ''bad top-level message (malformed TLV)'') (parseMessage msg)) (\<lambda>top.
    bindr (check (fail ''NONC mismatch (response does not match our request)'')
             (rt_field ''NONC'' top = Some sentNonce32)) (\<lambda>_.
    bindr (need (fail ''missing TYPE'') (rt_field ''TYPE'' top)) (\<lambda>typeBuf.
    bindr (rt_read 4 typeBuf) (\<lambda>typeV.
    bindr (check (fail (''TYPE='' @ show_int (int typeV) @ '', expected 1'')) (typeV = 1)) (\<lambda>_.
    bindr (need (fail ''missing SIG/PATH/SREP/CERT/INDX'') (rt_field ''SIG'' top)) (\<lambda>sig.
    bindr (need (fail ''missing SIG/PATH/SREP/CERT/INDX'') (rt_field ''PATH'' top)) (\<lambda>path.
    bindr (need (fail ''missing SIG/PATH/SREP/CERT/INDX'') (rt_field ''SREP'' top)) (\<lambda>srep.
    bindr (need (fail ''missing SIG/PATH/SREP/CERT/INDX'') (rt_field ''CERT'' top)) (\<lambda>cert.
    bindr (need (fail ''missing SIG/PATH/SREP/CERT/INDX'') (rt_field ''INDX'' top)) (\<lambda>indxBuf.
    bindr (rt_read 4 indxBuf) (\<lambda>indx0.
    bindr (need (fail ''bad CERT message'') (parseMessage cert)) (\<lambda>certMsg.
    bindr (need (fail ''missing CERT.SIG or DELE'') (rt_field ''SIG'' certMsg)) (\<lambda>certSig.
    bindr (need (fail ''missing CERT.SIG or DELE'') (rt_field ''DELE'' certMsg)) (\<lambda>dele.
    bindr (need (fail ''bad DELE message'') (parseMessage dele)) (\<lambda>deleMsg.
    bindr (need (fail ''missing PUBK/MINT/MAXT'') (rt_field ''PUBK'' deleMsg)) (\<lambda>pubk.
    bindr (need (fail ''missing PUBK/MINT/MAXT'') (rt_field ''MINT'' deleMsg)) (\<lambda>mintBuf.
    bindr (need (fail ''missing PUBK/MINT/MAXT'') (rt_field ''MAXT'' deleMsg)) (\<lambda>maxtBuf.
    bindr (rt_read 8 mintBuf) (\<lambda>mint.
    bindr (rt_read 8 maxtBuf) (\<lambda>maxt.
    bindr (case rebuildEd25519PublicKey serverPubkey32 of
             Inl e \<Rightarrow> Inl (fail (''bad configured long-term public key: '' @ exn_message e))
           | Inr k \<Rightarrow> Inr k) (\<lambda>longTermKey.
    bindr (check (fail ''CERT.SIG INVALID (delegated-key certificate signature does not verify against the configured long-term key)'')
             (verify longTermKey (dele_context @ dele) certSig)) (\<lambda>_.
    bindr (case rebuildEd25519PublicKey pubk of
             Inl e \<Rightarrow> Inl (fail (''bad delegated public key in response: '' @ exn_message e))
           | Inr k \<Rightarrow> Inr k) (\<lambda>delegatedKey.
    bindr (check (fail ''SREP SIG INVALID (time-report signature does not verify against the delegated key)'')
             (verify delegatedKey (srep_context @ srep) sig)) (\<lambda>_.
    bindr (need (fail ''bad SREP message'') (parseMessage srep)) (\<lambda>srepMsg.
    bindr (need (fail ''missing RADI/MIDP/ROOT'') (rt_field ''RADI'' srepMsg)) (\<lambda>radiBuf.
    bindr (need (fail ''missing RADI/MIDP/ROOT'') (rt_field ''MIDP'' srepMsg)) (\<lambda>midpBuf.
    bindr (need (fail ''missing RADI/MIDP/ROOT'') (rt_field ''ROOT'' srepMsg)) (\<lambda>root.
    bindr (rt_read 4 radiBuf) (\<lambda>radi.
    bindr (rt_read 8 midpBuf) (\<lambda>midp.
    bindr (check (fail (''MIDP '' @ show_int (int midp) @ '' outside delegated-key validity window [''
                        @ show_int (int mint) @ '','' @ show_int (int maxt) @ '']''))
             (mint \<le> midp \<and> midp \<le> maxt)) (\<lambda>_.
    let leaf = rtHash sha512 [[0], requestPacket];
        (cur, idx) = merkle_walk sha512 path leaf (word_of_nat indx0) in
    bindr (check (fail ''nonzero remaining INDX bits after Merkle walk'') (idx = 0)) (\<lambda>_.
    bindr (check (fail ''Merkle ROOT mismatch'') (cur = root)) (\<lambda>_.
    Inr \<lparr>midpSeconds = int midp, radiSeconds = radi\<rparr>)))))))))))))))))))))))))))))))))))"

subsection \<open>The Merkle tree\<close>

text \<open>The path on whole nodes and with an unbounded index: what the walk is meant to compute.\<close>

fun merkle_up :: "(bytes \<Rightarrow> bytes) \<Rightarrow> bytes list \<Rightarrow> bytes \<Rightarrow> nat \<Rightarrow> bytes" where
  "merkle_up sha512 [] cur idx = cur"
| "merkle_up sha512 (n # ns) cur idx =
     merkle_up sha512 ns (if even idx then merkle_node sha512 cur n else merkle_node sha512 n cur) (idx div 2)"

fun chunks32 :: "bytes \<Rightarrow> bytes list" where
  "chunks32 path = (if 32 \<le> length path then take 32 path # chunks32 (drop 32 path) else [])"

declare chunks32.simps [simp del]

lemma length_chunks32: "length (chunks32 path) = length path div 32"
proof (induction path rule: chunks32.induct)
  case (1 path)
  show ?case
  proof (cases "32 \<le> length path")
    case True
    then have "length path div 32 = Suc ((length path - 32) div 32)" by (simp add: le_div_geq)
    then show ?thesis using 1 True by (subst chunks32.simps) simp
  next
    case False
    then show ?thesis by (subst chunks32.simps) simp
  qed
qed

lemma chunks32_concat: "\<forall>n \<in> set ns. length n = 32 \<Longrightarrow> chunks32 (concat ns) = ns"
  by (induction ns) (simp_all add: chunks32.simps)

lemma word_even: "and w 1 = 0 \<longleftrightarrow> even (unat (w :: 32 word))"
  by transfer (simp add: and_one_eq take_bit_eq_mod even_nat_iff dvd_mod_iff mod_2_eq_odd)

lemma sign_bit: "bit (w :: 32 word) 31 \<longleftrightarrow> 2 ^ 31 \<le> unat w"
proof -
  have u: "unat w < 2 ^ 32" using unsigned_less [of w] by simp
  have "bit w 31 \<longleftrightarrow> bit (unat w) 31" by (simp add: bit_unsigned_iff)
  also have "\<dots> \<longleftrightarrow> odd (unat w div 2 ^ 31)" by (simp only: bit_iff_odd)
  also have "\<dots> \<longleftrightarrow> 2 ^ 31 \<le> unat w"
  proof (cases "2 ^ 31 \<le> unat w")
    case True
    then have "unat w div 2 ^ 31 = 1" using u by (intro div_nat_eqI) simp_all
    then show ?thesis using True by simp
  next
    case False
    then show ?thesis by simp
  qed
  finally show ?thesis .
qed

lemma unat_signed_drop:
  assumes "unat w < 2 ^ 31"
  shows "unat (signed_drop_bit 1 (w :: 32 word)) = unat w div 2"
proof -
  have "\<not> bit w 31" using assms unfolding sign_bit by simp
  then have "signed_drop_bit 1 w = drop_bit 1 w"
    by (intro bit_word_eqI) (auto simp: bit_signed_drop_bit_iff bit_drop_bit_eq min_def dest: bit_imp_le_length)
  moreover have "unat (drop_bit 1 w) = unat w div 2"
    by (simp only: unat_drop_bit_eq) (simp add: drop_bit_eq_div)
  ultimately show ?thesis by (simp only:)
qed

lemma merkle_walk_low:
  "unat idx < 2 ^ 31 \<Longrightarrow>
   fst (merkle_walk sha512 path cur idx) = merkle_up sha512 (chunks32 path) cur (unat idx) \<and>
   unat (snd (merkle_walk sha512 path cur idx)) = unat idx div 2 ^ (length path div 32)"
proof (induction sha512 path cur idx rule: merkle_walk.induct)
  case (1 sha512 path cur idx)
  show ?case
  proof (cases "32 \<le> length path")
    case True
    have u: "unat (signed_drop_bit 1 idx) = unat idx div 2"
      by (rule unat_signed_drop [OF "1.prems"])
    then have l: "unat (signed_drop_bit 1 idx) < 2 ^ 31"
      using "1.prems" by linarith
    have d: "length path div 32 = Suc ((length path - 32) div 32)"
      using True by (simp add: le_div_geq)
    show ?thesis
      using "1.IH" [OF True refl l] True
      by (subst (1 2) merkle_walk.simps, subst chunks32.simps, simp only: u d word_even,
          cases "even (unat idx)") (simp_all add: merkle_node_def div_mult2_eq)
  next
    case False
    then show ?thesis
      by (subst (1 2) merkle_walk.simps, subst chunks32.simps) simp
  qed
qed

lemma merkle_walk_high:
  "bit idx 31 \<Longrightarrow> bit (snd (merkle_walk sha512 path cur idx)) 31"
proof (induction sha512 path cur idx rule: merkle_walk.induct)
  case (1 sha512 path cur idx)
  have "bit (signed_drop_bit 1 idx) 31"
    using "1.prems" by (simp add: bit_signed_drop_bit_iff)
  then show ?case
    using 1 by (subst merkle_walk.simps) (simp add: Let_def)
qed

lemma merkle_walk_iff:
  assumes "n < 2 ^ 32"
  shows "merkle_walk sha512 path leaf (word_of_nat n) = (top_hash, 0) \<longleftrightarrow>
         n < 2 ^ 31 \<and> n < 2 ^ (length path div 32) \<and> merkle_up sha512 (chunks32 path) leaf n = top_hash"
proof -
  let ?w = "word_of_nat n :: 32 word"
  have n: "unat ?w = n" using assms by (simp add: unat_of_nat)
  show ?thesis
  proof (cases "n < 2 ^ 31")
    case True
    then have "unat ?w < 2 ^ 31" using n by (simp only:)
    from merkle_walk_low [OF this, of sha512 path leaf]
    have f: "fst (merkle_walk sha512 path leaf ?w) = merkle_up sha512 (chunks32 path) leaf n"
      and s: "unat (snd (merkle_walk sha512 path leaf ?w)) = n div 2 ^ (length path div 32)"
      unfolding n by blast+
    have "snd (merkle_walk sha512 path leaf ?w) = 0 \<longleftrightarrow> n < 2 ^ (length path div 32)"
      unfolding unat_eq_0 [symmetric] s by (simp add: div_eq_0_iff)
    then show ?thesis
      using f True unfolding prod_eq_iff by auto
  next
    case False
    then have "bit ?w 31" unfolding sign_bit n by simp
    then have "bit (snd (merkle_walk sha512 path leaf ?w)) 31"
      by (rule merkle_walk_high)
    then show ?thesis using False by auto
  qed
qed

text \<open>
  The tree a server builds over the requests of a batch, and for a leaf, given by the
  turns from the root to it (\<open>True\<close> is right), the siblings from the leaf upwards.
\<close>

datatype merkle_tree = MLeaf bytes | MNode merkle_tree merkle_tree

fun mt_hash :: "(bytes \<Rightarrow> bytes) \<Rightarrow> merkle_tree \<Rightarrow> bytes" where
  "mt_hash sha512 (MLeaf packet) = rtHash sha512 [[0], packet]"
| "mt_hash sha512 (MNode l r) = merkle_node sha512 (mt_hash sha512 l) (mt_hash sha512 r)"

fun mt_path :: "(bytes \<Rightarrow> bytes) \<Rightarrow> merkle_tree \<Rightarrow> bool list \<Rightarrow> (bytes \<times> bytes list) option" where
  "mt_path sha512 (MLeaf packet) [] = Some (packet, [])"
| "mt_path sha512 (MNode l r) (d # ds) =
     (case mt_path sha512 (if d then r else l) ds of
        None \<Rightarrow> None
      | Some (packet, ps) \<Rightarrow> Some (packet, ps @ [mt_hash sha512 (if d then l else r)]))"
| "mt_path sha512 _ _ = None"

fun turns_index :: "bool list \<Rightarrow> nat" where
  "turns_index [] = 0"
| "turns_index (d # ds) = (if d then 2 ^ length ds else 0) + turns_index ds"

lemma turns_index_bound: "turns_index ds < 2 ^ length ds"
  by (induction ds) auto

lemma merkle_up_append:
  "merkle_up sha512 (ps @ qs) c i = merkle_up sha512 qs (merkle_up sha512 ps c i) (i div 2 ^ length ps)"
  by (induction ps arbitrary: c i) (simp_all add: div_mult2_eq)

lemma merkle_up_low: "merkle_up sha512 ps c (2 ^ length ps + i) = merkle_up sha512 ps c i"
proof (induction ps arbitrary: c i)
  case (Cons p ps)
  have "(2 * 2 ^ length ps + i) div 2 = 2 ^ length ps + i div 2" by simp
  with Cons show ?case by simp
qed simp

lemma mt_path_root:
  "mt_path sha512 t ds = Some (packet, ps) \<Longrightarrow>
   length ps = length ds \<and>
   merkle_up sha512 ps (rtHash sha512 [[0], packet]) (turns_index ds) = mt_hash sha512 t"
proof (induction sha512 t ds arbitrary: packet ps rule: mt_path.induct)
  case (2 sha512 l r d ds)
  then obtain qs where q: "mt_path sha512 (if d then r else l) ds = Some (packet, qs)"
    and ps: "ps = qs @ [mt_hash sha512 (if d then l else r)]"
    by (auto split: option.splits prod.splits)
  have len: "length qs = length ds"
    and up: "merkle_up sha512 qs (rtHash sha512 [[0], packet]) (turns_index ds)
               = mt_hash sha512 (if d then r else l)"
    using "2.IH" [OF q] by blast+
  have b: "turns_index ds < 2 ^ length ds" by (rule turns_index_bound)
  show ?case
  proof (cases d)
    case True
    have "(2 ^ length ds + turns_index ds) div 2 ^ length ds = 1" using b by (intro div_nat_eqI) simp_all
    then show ?thesis
      using True up len by (simp add: ps merkle_up_append merkle_up_low [of sha512 qs, unfolded len])
  next
    case False
    then show ?thesis using up len b by (simp add: ps merkle_up_append)
  qed
qed simp_all

lemma length_rtHash: "\<forall>m. length (sha512 m) = 64 \<Longrightarrow> length (rtHash sha512 ps) = 32"
  by (simp add: rtHash_def)

lemma length_mt_hash: "\<forall>m. length (sha512 m) = 64 \<Longrightarrow> length (mt_hash sha512 t) = 32"
  by (cases t) (simp_all add: merkle_node_def length_rtHash)

lemma mt_path_lengths:
  assumes "\<forall>m. length (sha512 m) = 64"
  shows "mt_path sha512 t ds = Some (packet, ps) \<Longrightarrow> \<forall>p \<in> set ps. length p = 32"
proof (induction t ds arbitrary: packet ps rule: mt_path.induct [of "\<lambda>_. P" for P])
  case (2 s l r d ds)
  then show ?case
    using length_mt_hash [OF assms] by (auto split: option.splits prod.splits)
qed simp_all

subsection \<open>What an accepted response proves\<close>

lemma rt_read_Inr [result_simps]: "rt_read w b = Inr v \<longleftrightarrow> readLE w b 0 = Some v"
  by (simp add: rt_read_def need_Inr)

lemma rebuild_key_Inr:
  "(case rebuildEd25519PublicKey raw of Inl e \<Rightarrow> Inl (f e) | Inr k \<Rightarrow> Inr k) = Inr k' \<longleftrightarrow>
   length raw = 32 \<and> k' = hex_decode ''302a300506032b6570032100'' @ raw"
  by (auto simp: rebuildEd25519PublicKey_def)

text \<open>
  C4. A Roughtime reading is authentic.  If the client accepts a response, then: it echoes
  the client's nonce; the long-term key signed the delegation in it; the delegated key
  signed the time report; the reported midpoint lies in the delegation's validity window;
  and the signed root is the root of a Merkle path that starts at the hash of exactly the
  request packet that was sent, at an index with no bits beyond the path.
\<close>

theorem roughtime_validate_sound:
  assumes "validateRoughtimeResponse sha512 verify request response pk nonce src = Inr v"
  shows "\<exists>top cert certMsg certSig dele deleMsg pubk mintB mint maxtB maxt sig srep srepMsg
            midpB path indxB indx.
     parseMessage (subarray 12 (12 + le_val (subarray 8 12 response)) response) = Some top \<and>
     rt_field ''NONC'' top = Some nonce \<and>
     rt_field ''CERT'' top = Some cert \<and> parseMessage cert = Some certMsg \<and>
     rt_field ''SIG'' certMsg = Some certSig \<and> rt_field ''DELE'' certMsg = Some dele \<and>
     verify (hex_decode ''302a300506032b6570032100'' @ pk) (dele_context @ dele) certSig \<and>
     parseMessage dele = Some deleMsg \<and> rt_field ''PUBK'' deleMsg = Some pubk \<and>
     rt_field ''MINT'' deleMsg = Some mintB \<and> readLE 8 mintB 0 = Some mint \<and>
     rt_field ''MAXT'' deleMsg = Some maxtB \<and> readLE 8 maxtB 0 = Some maxt \<and>
     rt_field ''SIG'' top = Some sig \<and> rt_field ''SREP'' top = Some srep \<and>
     verify (hex_decode ''302a300506032b6570032100'' @ pubk) (srep_context @ srep) sig \<and>
     parseMessage srep = Some srepMsg \<and>
     rt_field ''MIDP'' srepMsg = Some midpB \<and>
     map_option int (readLE 8 midpB 0) = Some (midpSeconds v) \<and>
     int mint \<le> midpSeconds v \<and> midpSeconds v \<le> int maxt \<and>
     rt_field ''PATH'' top = Some path \<and>
     rt_field ''INDX'' top = Some indxB \<and> readLE 4 indxB 0 = Some indx \<and>
     indx < 2 ^ (length path div 32) \<and>
     rt_field ''ROOT'' srepMsg =
       Some (merkle_up sha512 (chunks32 path) (rtHash sha512 [[0], request]) indx)"
proof -
  have walk: "(n < 2 ^ 32 \<Longrightarrow> n < 2 ^ (length p div 32) \<and> merkle_up sha512 (chunks32 p) l n = c)"
    if "merkle_walk sha512 p l (word_of_nat n) = (c, 0)" for n p l c
    using that merkle_walk_iff [of n sha512 p l c] by blast
  have idx: "n < 2 ^ 32" if "readLE 4 b 0 = Some n" for b n
    using readLE_bound [OF that] by simp
  show ?thesis
    using assms unfolding validateRoughtimeResponse_def Let_def bindr_Inr need_Inr check_Inr rt_read_Inr
      rebuild_key_Inr case_prod_beta
    by (clarsimp simp: need_Inr) (insert walk idx, fastforce simp: prod_eq_iff)
qed


subsection \<open>An honest server is accepted\<close>

definition honest_dele :: "bytes \<Rightarrow> nat \<Rightarrow> nat \<Rightarrow> bytes" where
  "honest_dele pubk mint maxt =
     buildMessage [(tagU32 ''PUBK'', pubk), (tagU32 ''MINT'', le_bytes 8 mint), (tagU32 ''MAXT'', le_bytes 8 maxt)]"

definition honest_srep :: "nat \<Rightarrow> nat \<Rightarrow> bytes \<Rightarrow> bytes" where
  "honest_srep radi midp rt =
     buildMessage [(tagU32 ''RADI'', le_bytes 4 radi), (tagU32 ''MIDP'', le_bytes 8 midp), (tagU32 ''ROOT'', rt)]"

definition honest_response ::
    "bytes \<Rightarrow> bytes \<Rightarrow> bytes list \<Rightarrow> nat \<Rightarrow> bytes \<Rightarrow> bytes \<Rightarrow> bytes \<Rightarrow> bytes" where
  "honest_response sig nonce ps indx certSig dele srep =
     (let msg = buildMessage
            [(tagU32 ''SIG'', sig), (tagU32 ''NONC'', nonce), (tagU32 ''TYPE'', le_bytes 4 1),
             (tagU32 ''PATH'', concat ps), (tagU32 ''SREP'', srep),
             (tagU32 ''CERT'', buildMessage [(tagU32 ''SIG'', certSig), (tagU32 ''DELE'', dele)]),
             (tagU32 ''INDX'', le_bytes 4 indx)]
      in ROUGHTIME_MAGIC @ le_bytes 4 (length msg) @ msg)"

lemma readLE_le_bytes: "v < 256 ^ w \<Longrightarrow> readLE w (le_bytes w v) 0 = Some v"
  using readLE_here [of w v "[]"] by simp

lemma length_magic [simp, byte_simps]: "length ROUGHTIME_MAGIC = 8"
  by (simp add: ROUGHTIME_MAGIC_def ascii_bytes_def)

lemma parse_fields:
  assumes "message_ok pairs"
  shows "\<exists>m. parseMessage (buildMessage pairs) = Some m \<and>
             (\<forall>name v. (tagU32 name, v) \<in> set pairs \<longrightarrow> rt_field name m = Some v)"
proof -
  let ?m = "map (\<lambda>(t, v). (tagKey t, v)) pairs"
  have "distinct (map fst ?m)"
    using assms unfolding message_ok_def by (simp add: case_prod_beta comp_def)
  then have "rt_field name ?m = Some v" if "(tagU32 name, v) \<in> set pairs" for name v
    using that unfolding rt_field_def jm_get_def by (intro map_of_is_SomeI) force+
  then show ?thesis using parse_build_message [OF assms] by blast
qed

lemma frame_message:
  assumes "length msg < 2 ^ 32"
  shows "subarray 12 (12 + le_val (subarray 8 12 (ROUGHTIME_MAGIC @ le_bytes 4 (length msg) @ msg)))
           (ROUGHTIME_MAGIC @ le_bytes 4 (length msg) @ msg) = msg"
proof -
  have "subarray 8 12 (ROUGHTIME_MAGIC @ le_bytes 4 (length msg) @ msg) = le_bytes 4 (length msg)"
    by simp
  moreover have "le_val (le_bytes 4 (length msg)) = length msg"
    using assms by (simp add: le_val_le_bytes)
  ultimately show ?thesis by simp
qed

lemma honest_dele_parsed:
  assumes "length pubk = 32"
  shows "length (honest_dele pubk mint maxt) = 72 \<and>
    (\<exists>dm. parseMessage (honest_dele pubk mint maxt) = Some dm \<and>
       rt_field ''PUBK'' dm = Some pubk \<and> rt_field ''MINT'' dm = Some (le_bytes 8 mint) \<and>
       rt_field ''MAXT'' dm = Some (le_bytes 8 maxt))"
proof -
  have "message_ok [(tagU32 ''PUBK'', pubk), (tagU32 ''MINT'', le_bytes 8 mint), (tagU32 ''MAXT'', le_bytes 8 maxt)]"
    using assms by (simp add: message_ok_def byte_simps)
  from parse_fields [OF this] obtain dm where dm: "parseMessage (honest_dele pubk mint maxt) = Some dm"
    and f: "\<And>name v. (tagU32 name, v) \<in> set [(tagU32 ''PUBK'', pubk),
                (tagU32 ''MINT'', le_bytes 8 mint), (tagU32 ''MAXT'', le_bytes 8 maxt)]
                \<Longrightarrow> rt_field name dm = Some v" unfolding honest_dele_def by blast
  have "rt_field ''PUBK'' dm = Some pubk" "rt_field ''MINT'' dm = Some (le_bytes 8 mint)"
      "rt_field ''MAXT'' dm = Some (le_bytes 8 maxt)"
    by (rule f, simp)+
  moreover have "length (honest_dele pubk mint maxt) = 72"
    using assms unfolding honest_dele_def by (subst length_buildMessage) auto
  ultimately show ?thesis using dm by blast
qed

lemma honest_srep_parsed:
  assumes "length rt = 32"
  shows "length (honest_srep radi midp rt) = 68 \<and>
    (\<exists>sm. parseMessage (honest_srep radi midp rt) = Some sm \<and>
       rt_field ''RADI'' sm = Some (le_bytes 4 radi) \<and> rt_field ''MIDP'' sm = Some (le_bytes 8 midp) \<and>
       rt_field ''ROOT'' sm = Some rt)"
proof -
  have "message_ok [(tagU32 ''RADI'', le_bytes 4 radi), (tagU32 ''MIDP'', le_bytes 8 midp), (tagU32 ''ROOT'', rt)]"
    using assms by (simp add: message_ok_def byte_simps)
  from parse_fields [OF this] obtain sm where sm: "parseMessage (honest_srep radi midp rt) = Some sm"
    and f: "\<And>name v. (tagU32 name, v) \<in> set [(tagU32 ''RADI'', le_bytes 4 radi),
                (tagU32 ''MIDP'', le_bytes 8 midp), (tagU32 ''ROOT'', rt)]
                \<Longrightarrow> rt_field name sm = Some v" unfolding honest_srep_def by blast
  have "rt_field ''RADI'' sm = Some (le_bytes 4 radi)" "rt_field ''MIDP'' sm = Some (le_bytes 8 midp)"
      "rt_field ''ROOT'' sm = Some rt"
    by (rule f, simp)+
  moreover have "length (honest_srep radi midp rt) = 68"
    using assms unfolding honest_srep_def by (subst length_buildMessage) auto
  ultimately show ?thesis using sm by blast
qed

lemma honest_cert_parsed:
  assumes "length certSig = 64" "length dele = 72"
  shows "length (buildMessage [(tagU32 ''SIG'', certSig), (tagU32 ''DELE'', dele)]) = 152 \<and>
    (\<exists>cm. parseMessage (buildMessage [(tagU32 ''SIG'', certSig), (tagU32 ''DELE'', dele)]) = Some cm \<and>
       rt_field ''SIG'' cm = Some certSig \<and> rt_field ''DELE'' cm = Some dele)"
proof -
  let ?b = "buildMessage [(tagU32 ''SIG'', certSig), (tagU32 ''DELE'', dele)]"
  have "message_ok [(tagU32 ''SIG'', certSig), (tagU32 ''DELE'', dele)]"
    using assms by (simp add: message_ok_def byte_simps)
  from parse_fields [OF this] obtain cm where cm: "parseMessage ?b = Some cm"
    and f: "\<And>name v. (tagU32 name, v) \<in> set [(tagU32 ''SIG'', certSig), (tagU32 ''DELE'', dele)]
                \<Longrightarrow> rt_field name cm = Some v" by blast
  have "rt_field ''SIG'' cm = Some certSig" "rt_field ''DELE'' cm = Some dele"
    by (rule f, simp)+
  moreover have "length ?b = 152" using assms by (subst length_buildMessage) auto
  ultimately show ?thesis using cm by blast
qed

lemma honest_response_parsed:
  fixes indx :: nat
  assumes "length sig = 64" "length nonce = 32" "length path \<le> 992" "length path mod 32 = 0"
    and "length srep = 68"
    and cert: "length cert = 152"
  defines "pairs \<equiv> [(tagU32 ''SIG'', sig), (tagU32 ''NONC'', nonce), (tagU32 ''TYPE'', le_bytes 4 1),
             (tagU32 ''PATH'', path), (tagU32 ''SREP'', srep), (tagU32 ''CERT'', cert),
             (tagU32 ''INDX'', le_bytes 4 indx)]"
  shows "length (buildMessage pairs) < 2 ^ 32 \<and>
    (\<exists>top. parseMessage (buildMessage pairs) = Some top \<and>
     rt_field ''NONC'' top = Some nonce \<and> rt_field ''TYPE'' top = Some (le_bytes 4 1) \<and>
     rt_field ''SIG'' top = Some sig \<and> rt_field ''PATH'' top = Some path \<and>
     rt_field ''SREP'' top = Some srep \<and> rt_field ''CERT'' top = Some cert \<and>
     rt_field ''INDX'' top = Some (le_bytes 4 indx))"
proof -
  have "message_ok pairs"
    using assms by (simp add: message_ok_def byte_simps)
  from parse_fields [OF this] obtain top where top: "parseMessage (buildMessage pairs) = Some top"
    and f: "\<And>name v. (tagU32 name, v) \<in> set pairs \<Longrightarrow> rt_field name top = Some v" by blast
  have "rt_field ''NONC'' top = Some nonce" "rt_field ''TYPE'' top = Some (le_bytes 4 1)"
     "rt_field ''SIG'' top = Some sig" "rt_field ''PATH'' top = Some path"
     "rt_field ''SREP'' top = Some srep" "rt_field ''CERT'' top = Some cert"
     "rt_field ''INDX'' top = Some (le_bytes 4 indx)"
    by (rule f, simp add: pairs_def)+
  moreover have "length (buildMessage pairs) < 2 ^ 32"
    using assms(1-3,5) cert unfolding pairs_def by (subst length_buildMessage) auto
  ultimately show ?thesis using top by blast
qed

lemma honest_accepted:
  assumes sha: "\<forall>m. length (sha512 m) = 64"
    and tree: "mt_path sha512 t ds = Some (request, ps)" "length ds \<le> 31"
    and lens: "length nonce = 32" "length pk = 32" "length pubk = 32" "length sig = 64" "length certSig = 64"
    and ranges: "mint \<le> midp" "midp \<le> maxt" "maxt < 2 ^ 64" "radi < 2 ^ 32"
    and cert: "verify (hex_decode ''302a300506032b6570032100'' @ pk)
                 (dele_context @ honest_dele pubk mint maxt) certSig"
    and srep: "verify (hex_decode ''302a300506032b6570032100'' @ pubk)
                 (srep_context @ honest_srep radi midp (mt_hash sha512 t)) sig"
  shows "validateRoughtimeResponse sha512 verify request
           (honest_response sig nonce ps (turns_index ds) certSig
              (honest_dele pubk mint maxt) (honest_srep radi midp (mt_hash sha512 t)))
           pk nonce src
         = Inr \<lparr>midpSeconds = int midp, radiSeconds = radi\<rparr>"
proof -
  let ?dele = "honest_dele pubk mint maxt" and ?srep = "honest_srep radi midp (mt_hash sha512 t)"
  let ?cert = "buildMessage [(tagU32 ''SIG'', certSig), (tagU32 ''DELE'', ?dele)]"
  let ?resp = "honest_response sig nonce ps (turns_index ds) certSig ?dele ?srep"
  have plen: "\<forall>p \<in> set ps. length p = 32" by (rule mt_path_lengths [OF sha tree(1)])
  have pn: "length ps = length ds"
    and up: "merkle_up sha512 ps (rtHash sha512 [[0], request]) (turns_index ds) = mt_hash sha512 t"
    using mt_path_root [OF tree(1)] by blast+
  have path: "length (concat ps) = 32 * length ds"
    using length_concat_chunks [OF plen] pn by simp
  have idx: "turns_index ds < 2 ^ length ds" by (rule turns_index_bound)
  also have "(2 :: nat) ^ length ds \<le> 2 ^ 31" using tree(2) by (intro power_increasing) simp_all
  finally have idx31: "turns_index ds < 2 ^ 31" .
  obtain dm where dm: "length ?dele = 72" "parseMessage ?dele = Some dm" "rt_field ''PUBK'' dm = Some pubk"
     "rt_field ''MINT'' dm = Some (le_bytes 8 mint)" "rt_field ''MAXT'' dm = Some (le_bytes 8 maxt)"
    using honest_dele_parsed [OF lens(3)] by blast
  obtain sm where sm: "length ?srep = 68" "parseMessage ?srep = Some sm" "rt_field ''RADI'' sm = Some (le_bytes 4 radi)"
     "rt_field ''MIDP'' sm = Some (le_bytes 8 midp)" "rt_field ''ROOT'' sm = Some (mt_hash sha512 t)"
    using honest_srep_parsed [OF length_mt_hash [OF sha]] by blast
  obtain cm where cm: "length ?cert = 152" "parseMessage ?cert = Some cm" "rt_field ''SIG'' cm = Some certSig"
     "rt_field ''DELE'' cm = Some ?dele"
    using honest_cert_parsed [OF lens(5) dm(1)] by blast
  have pl: "length (concat ps) \<le> 992" "length (concat ps) mod 32 = 0" using path tree(2) by simp_all
  note parsed = honest_response_parsed [OF lens(4,1) pl sm(1) cm(1), of "turns_index ds"]
  then obtain top where top: "parseMessage (subarray 12 (12 + le_val (subarray 8 12 ?resp)) ?resp) = Some top"
     "rt_field ''NONC'' top = Some nonce" "rt_field ''TYPE'' top = Some (le_bytes 4 1)"
     "rt_field ''SIG'' top = Some sig" "rt_field ''PATH'' top = Some (concat ps)"
     "rt_field ''SREP'' top = Some ?srep" "rt_field ''CERT'' top = Some ?cert"
     "rt_field ''INDX'' top = Some (le_bytes 4 (turns_index ds))"
    unfolding honest_response_def Let_def using frame_message by force
  have walk: "merkle_walk sha512 (concat ps) (rtHash sha512 [[0], request]) (word_of_nat (turns_index ds))
                = (mt_hash sha512 t, 0)"
    using idx idx31 up by (subst merkle_walk_iff) (simp_all add: path chunks32_concat [OF plen])
  have reads: "rt_read 4 (le_bytes 4 1) = Inr 1" "rt_read 4 (le_bytes 4 (turns_index ds)) = Inr (turns_index ds)"
      "rt_read 8 (le_bytes 8 mint) = Inr mint" "rt_read 8 (le_bytes 8 maxt) = Inr maxt"
      "rt_read 8 (le_bytes 8 midp) = Inr midp" "rt_read 4 (le_bytes 4 radi) = Inr radi"
    using ranges idx31 unfolding rt_read_def by (simp_all add: readLE_le_bytes del: le_bytes.simps)
  have keys: "rebuildEd25519PublicKey k = Inr (hex_decode ''302a300506032b6570032100'' @ k)"
    if "length k = 32" for k using that by (simp add: rebuildEd25519PublicKey_def)
  have long: "12 \<le> length ?resp" unfolding honest_response_def Let_def by simp
  show ?thesis
    unfolding validateRoughtimeResponse_def Let_def
    by (simp only: long check_simps bindr_simps top need_simps refl reads cm(2-) dm(2-) keys lens
        cert srep sm(2-) ranges(1,2) walk sum.case prod.case simp_thms)
qed

text \<open>
  C5. Every genuine answer is accepted.  Let a server batch the client's request into a
  Merkle tree of any shape with at most 31 levels, sign the delegation and the report, and
  assemble the response in the order of the tags.  Whatever signature scheme and hash are
  used, the client returns exactly the midpoint and radius the server reported.
\<close>

theorem roughtime_honest_accepted:
  assumes sha: "\<forall>m. length (sha512 m) = 64"
    and tree: "mt_path sha512 t ds = Some (request, ps)" "length ds \<le> 31"
    and lens: "length nonce = 32" "length pk = 32" "length pubk = 32" "length sig = 64" "length certSig = 64"
    and ranges: "mint \<le> midp" "midp \<le> maxt" "maxt < 2 ^ 64" "radi < 2 ^ 32"
    and cert: "verify (hex_decode ''302a300506032b6570032100'' @ pk)
                 (dele_context @ honest_dele pubk mint maxt) certSig"
    and srep: "verify (hex_decode ''302a300506032b6570032100'' @ pubk)
                 (srep_context @ honest_srep radi midp (mt_hash sha512 t)) sig"
  shows "validateRoughtimeResponse sha512 verify request
           (honest_response sig nonce ps (turns_index ds) certSig
              (honest_dele pubk mint maxt) (honest_srep radi midp (mt_hash sha512 t)))
           pk nonce src
         = Inr \<lparr>midpSeconds = int midp, radiSeconds = radi\<rparr>"
  by (rule honest_accepted [OF assms])

text \<open>A batch of two requests; ours is the right leaf.\<close>

definition toy_sha :: "bytes \<Rightarrow> bytes" where "toy_sha m = take 64 (m @ replicate 64 0)"
definition toy_verify :: "bytes \<Rightarrow> bytes \<Rightarrow> bytes \<Rightarrow> bool" where
  "toy_verify k m s \<longleftrightarrow> s = take 64 (k @ m)"
definition toy_tree :: merkle_tree where "toy_tree = MNode (MLeaf [5]) (MLeaf [7, 7])"
definition toy_certSig :: bytes where
  "toy_certSig = take 64 ((hex_decode ''302a300506032b6570032100'' @ replicate 32 2)
     @ dele_context @ honest_dele (replicate 32 3) 10 20)"
definition toy_sig :: bytes where
  "toy_sig = take 64 ((hex_decode ''302a300506032b6570032100'' @ replicate 32 3)
     @ srep_context @ honest_srep 1 15 (mt_hash toy_sha toy_tree))"
definition toy_response :: bytes where
  "toy_response = honest_response toy_sig (replicate 32 1) [mt_hash toy_sha (MLeaf [5])] (turns_index [True])
     toy_certSig (honest_dele (replicate 32 3) 10 20) (honest_srep 1 15 (mt_hash toy_sha toy_tree))"

lemma toy_premises:
  "\<forall>m. length (toy_sha m) = 64"
  "mt_path toy_sha toy_tree [True] = Some ([7, 7], [mt_hash toy_sha (MLeaf [5])])"
  "length [True] \<le> 31" "length toy_sig = 64" "length toy_certSig = 64"
  "toy_verify (hex_decode ''302a300506032b6570032100'' @ replicate 32 2)
     (dele_context @ honest_dele (replicate 32 3) 10 20) toy_certSig"
  "toy_verify (hex_decode ''302a300506032b6570032100'' @ replicate 32 3)
     (srep_context @ honest_srep 1 15 (mt_hash toy_sha toy_tree)) toy_sig"
proof -
  have ctx: "length dele_context = 34" "length srep_context = 32"
    by (simp_all add: dele_context_def srep_context_def ascii_bytes_def)
  have spki: "length (hex_decode ''302a300506032b6570032100'') = 12" by code_simp
  show "length toy_sig = 64" "length toy_certSig = 64"
    unfolding toy_sig_def toy_certSig_def using ctx spki by simp_all
qed (simp_all only: toy_verify_def toy_sig_def toy_certSig_def, auto simp: toy_sha_def toy_tree_def min_def)

lemma toy_lengths: "length (replicate 32 (x :: byte)) = 32" "(10 :: nat) \<le> 15" "(15 :: nat) \<le> 20"
  "(20 :: nat) < 2 ^ 64" "(1 :: nat) < 2 ^ 32"
  by simp_all

lemma roughtime_honest_accepted_witness:
  "validateRoughtimeResponse toy_sha toy_verify [7, 7] toy_response (replicate 32 2) (replicate 32 1) ''roughtime-se''
     = Inr \<lparr>midpSeconds = int 15, radiSeconds = 1\<rparr>"
  unfolding toy_response_def
  by (rule roughtime_honest_accepted [OF toy_premises(1-3) toy_lengths(1) toy_lengths(1) toy_lengths(1)
        toy_premises(4,5) toy_lengths(2-5) toy_premises(6,7)])

lemma toy_accepted:
  "validateRoughtimeResponse toy_sha toy_verify [7, 7] toy_response (replicate 32 2) (replicate 32 1) ''roughtime-se''
     = Inr \<lparr>midpSeconds = int 15, radiSeconds = 1\<rparr>"
  unfolding toy_response_def
  by (rule honest_accepted [OF toy_premises(1-3) toy_lengths(1) toy_lengths(1) toy_lengths(1)
        toy_premises(4,5) toy_lengths(2-5) toy_premises(6,7)])

lemma roughtime_validate_sound_witness:
  "\<exists>top. parseMessage (subarray 12 (12 + le_val (subarray 8 12 toy_response)) toy_response) = Some top \<and>
         rt_field ''NONC'' top = Some (replicate 32 1)"
  using roughtime_validate_sound [OF toy_accepted] by blast

section \<open>The source\<close>

record roughtime_source =
  rt_name :: string
  rt_host :: string
  rt_port :: nat
  rt_pubkey :: bytes
  rt_timeoutMs :: nat

definition RoughtimeSource ::
    "string \<Rightarrow> string \<Rightarrow> nat \<Rightarrow> string \<Rightarrow> nat option \<Rightarrow> js_exn + roughtime_source" where
  "RoughtimeSource name host port pubkeyB64 timeoutMs =
     (let pubkey = b64_decode pubkeyB64 in
      if length pubkey \<noteq> 32 then
        Inl (JsError (''RoughtimeSource('' @ name @ ''): pubkeyB64 must decode to 32 bytes, got ''
                      @ show_int (int (length pubkey))))
      else Inr \<lparr>rt_name = name, rt_host = host, rt_port = port, rt_pubkey = pubkey,
                rt_timeoutMs = (case timeoutMs of None \<Rightarrow> 3000 | Some t \<Rightarrow> t)\<rparr>)"

definition createAllRoughtimeSources :: "nat option \<Rightarrow> (js_exn + roughtime_source) list" where
  "createAllRoughtimeSources timeoutMs =
     map (\<lambda>cfg. RoughtimeSource (rs_name cfg) (rs_host cfg) (rs_port cfg) (rs_pubkeyB64 cfg) timeoutMs)
       ROUGHTIME_SERVERS"

text \<open>
  One exchange: the promise, the flag the callbacks share, whether the socket is in
  \<open>activeSockets\<close>, and whether it is open.  A send that throws at once rejects the promise
  from the executor, without the flag; \<open>close()\<close> may come at any time.
\<close>

datatype rt_event =
    RtTimeout
  | RtSocketError string
  | RtMessage bytes
  | RtSendCallback "string option"
  | RtSendThrows string
  | RtClose

record rt_exchange =
  rx_result :: "bytes settle option"
  rx_settled :: bool
  rx_active :: bool
  rx_open :: bool

definition rx_start :: rt_exchange where
  "rx_start = \<lparr>rx_result = None, rx_settled = False, rx_active = True, rx_open = True\<rparr>"

definition rx_finish :: "bytes settle \<Rightarrow> rt_exchange \<Rightarrow> rt_exchange" where
  "rx_finish r c =
     (if rx_settled c then c
      else c\<lparr>rx_settled := True, rx_active := False, rx_open := False,
             rx_result := settle_once r (rx_result c)\<rparr>)"

fun rt_step :: "roughtime_source \<Rightarrow> rt_event \<Rightarrow> rt_exchange \<Rightarrow> rt_exchange" where
  "rt_step src RtTimeout c =
     rx_finish (Rejected (throw3 TTTTimeSynthesisError (''Roughtime timeout for '' @ rt_name src)
       (rt_host src @ '':'' @ show_int (int (rt_port src)) @ '' did not respond within ''
        @ show_int (int (rt_timeoutMs src)) @ ''ms'')
       ''Check UDP egress/firewall rules for this port, or try a different Roughtime server.'')) c"
| "rt_step src (RtSocketError m) c =
     rx_finish (Rejected (throw3 TTTTimeSynthesisError (''Roughtime socket error for '' @ rt_name src) m
       ''Ensure UDP is permitted outbound to this Roughtime server.'')) c"
| "rt_step src (RtMessage msg) c = rx_finish (Fulfilled msg) c"
| "rt_step src (RtSendCallback None) c = c"
| "rt_step src (RtSendCallback (Some m)) c =
     rx_finish (Rejected (throw3 TTTTimeSynthesisError (''Failed to send Roughtime request to '' @ rt_name src) m
       ''Check network settings.'')) c"
| "rt_step src (RtSendThrows m) c = c\<lparr>rx_result := settle_once (Rejected (JsError m)) (rx_result c)\<rparr>"
| "rt_step src RtClose c = (if rx_active c then c\<lparr>rx_active := False, rx_open := False\<rparr> else c)"

definition sendAndReceive :: "roughtime_source \<Rightarrow> rt_event list \<Rightarrow> rt_exchange" where
  "sendAndReceive src events = fold (rt_step src) events rx_start"

text \<open>The lookup of the server's name has no timer of its own: it may never answer.\<close>

datatype dns_answer = DnsPending | DnsFails string | DnsResolved

record rt_env =
  re_dns :: dns_answer
  re_nonce :: bytes
  re_events :: "rt_event list"

definition roughtime_getTime ::
    "(bytes \<Rightarrow> bytes) \<Rightarrow> (bytes \<Rightarrow> bytes \<Rightarrow> bytes \<Rightarrow> bool) \<Rightarrow> rt_env \<Rightarrow> roughtime_source
     \<Rightarrow> time_reading settle option" where
  "roughtime_getTime sha512 verify env src =
     (case re_dns env of
        DnsPending \<Rightarrow> None
      | DnsFails m \<Rightarrow> Some (Rejected (throw3 TTTTimeSynthesisError (''Roughtime DNS resolution failed for '' @ rt_name src)
          m ''Check DNS connectivity or try a different Roughtime server.''))
      | DnsResolved \<Rightarrow>
          (case buildRoughtimeRequest sha512 (re_nonce env) (rt_pubkey src) of
             Inl e \<Rightarrow> Some (Rejected e)
           | Inr requestPacket \<Rightarrow>
               (case rx_result (sendAndReceive src (re_events env)) of
                  None \<Rightarrow> None
                | Some (Rejected e) \<Rightarrow> Some (Rejected e)
                | Some (Uncaught e) \<Rightarrow> Some (Uncaught e)
                | Some (Fulfilled responsePacket) \<Rightarrow>
                    (case validateRoughtimeResponse sha512 verify requestPacket responsePacket
                            (rt_pubkey src) (re_nonce env) (rt_name src) of
                       Inl e \<Rightarrow> Some (Rejected e)
                     | Inr v \<Rightarrow> Some (Fulfilled
                         \<lparr>tr_timestamp = midpSeconds v * 1000000000,
                          tr_uncertainty = of_nat (radiSeconds v) * 1000 + 500,
                          tr_stratum = 2, tr_source = rt_name src\<rparr>)))))"

interpretation roughtime: time_source rt_name "roughtime_getTime sha512 verify" for sha512 verify
  by unfold_locales
     (auto simp: roughtime_getTime_def split: dns_answer.splits option.splits sum.splits settle.splits)

text \<open>All four configured keys have 32 bytes, so the convenience constructor never throws.\<close>

lemma configured_keys: "\<forall>cfg \<in> set ROUGHTIME_SERVERS. length (b64_decode (rs_pubkeyB64 cfg)) = 32"
  by code_simp

lemma createAll_sources:
  "\<forall>r \<in> set (createAllRoughtimeSources t). \<exists>s. r = Inr s \<and> length (rt_pubkey s) = 32"
  using configured_keys by (auto simp: createAllRoughtimeSources_def RoughtimeSource_def)

definition rx_ok :: "rt_exchange \<Rightarrow> bool" where
  "rx_ok c \<longleftrightarrow> (rx_active c \<longleftrightarrow> rx_open c) \<and> (rx_settled c \<longrightarrow> rx_result c \<noteq> None \<and> \<not> rx_open c)"

lemma rx_finish_ok: "rx_ok c \<Longrightarrow> rx_ok (rx_finish r c)"
  by (auto simp: rx_ok_def rx_finish_def settle_once_def split: option.splits)

lemma rx_finish_settled [simp]: "rx_settled (rx_finish r c)"
  by (simp add: rx_finish_def)

lemma rt_step_ok: "rx_ok c \<Longrightarrow> rx_ok (rt_step src ev c)"
  by (cases "(src, ev, c)" rule: rt_step.cases)
     (auto simp: rx_finish_ok, auto simp: rx_ok_def settle_once_def split: option.splits)

lemma rt_step_settled: "rx_settled c \<Longrightarrow> rx_settled (rt_step src ev c)"
  by (cases "(src, ev, c)" rule: rt_step.cases) simp_all

interpretation rx: kept "rt_step src" rx_ok for src
  by unfold_locales (rule rt_step_ok)

interpretation rx_settling: kept "rt_step src" rx_settled for src
  by unfold_locales (rule rt_step_settled)

text \<open>
  C33. No exchange leaks.  Once the timer has fired, in whatever order the socket events,
  a failing send and a \<open>close()\<close> came before or after it, the promise has settled and the
  socket is closed and gone from \<open>activeSockets\<close>.
\<close>

theorem roughtime_exchange_released:
  "rx_result (sendAndReceive src (before @ RtTimeout # after)) \<noteq> None \<and>
   \<not> rx_open (sendAndReceive src (before @ RtTimeout # after)) \<and>
   \<not> rx_active (sendAndReceive src (before @ RtTimeout # after))"
proof -
  have "rx_ok rx_start" by (simp add: rx_ok_def rx_start_def)
  then have "rx_ok (sendAndReceive src (before @ RtTimeout # after))"
    unfolding sendAndReceive_def by (rule rx.run)
  moreover have "rx_settled (sendAndReceive src (before @ RtTimeout # after))"
    unfolding sendAndReceive_def by (rule rx_settling.run_anywhere) simp
  ultimately show ?thesis by (simp add: rx_ok_def)
qed

end
