(* ===== verification/ReplayGuard.thy ===== *)
theory ReplayGuard
  imports JsMap
begin

text \<open>
  The contract every replay cache of the repository keeps: a nonce that was accepted is
  refused for a while.  Three components rely on it: the proof-of-time verifier of
  \<open>time_synthesis.ts\<close>, the HTTP client of \<open>http_client.ts\<close> (both with a capped map swept
  by age) and the frame verifier of \<open>pot_verifier.ts\<close> (with a map of expiry times).
  A cache is a function \<open>check\<close> that says whether a nonce is fresh at a time, and records
  it when it is.  \<open>live k d n c\<close> says that \<open>c\<close> still remembers \<open>n\<close> and will do so through
  \<open>k\<close> more checks, as long as these are made no later than \<open>d\<close>.
\<close>

locale replay_guard =
  fixes check :: "int \<Rightarrow> string \<Rightarrow> 'c \<Rightarrow> bool \<times> 'c"
    and inv :: "'c \<Rightarrow> bool"
    and live :: "nat \<Rightarrow> int \<Rightarrow> string \<Rightarrow> 'c \<Rightarrow> bool"
    and window :: int
    and budget :: nat
  assumes inv_check: "inv c \<Longrightarrow> inv (snd (check t m c))"
    and fresh_live: "inv c \<Longrightarrow> fst (check t n c) \<Longrightarrow> live budget (t + window) n (snd (check t n c))"
    and live_step: "inv c \<Longrightarrow> live (Suc k) d n c \<Longrightarrow> t \<le> d \<Longrightarrow> live k d n (snd (check t m c))"
    and live_weaken: "live (Suc k) d n c \<Longrightarrow> live k d n c"
    and live_rejected: "inv c \<Longrightarrow> live k d n c \<Longrightarrow> t \<le> d \<Longrightarrow> \<not> fst (check t n c)"
begin

lemma live_le: "live j d n c \<Longrightarrow> k \<le> j \<Longrightarrow> live k d n c"
proof (induction j)
  case (Suc j)
  then show ?case by (cases "k = Suc j") (auto dest: live_weaken)
qed simp

text \<open>
  A client changes its cache only through checks: a run of client calls, each of which
  leaves the cache or makes one check, keeps a nonce alive.
\<close>

lemma live_fold:
  assumes step: "\<And>x s. x \<in> set xs \<Longrightarrow>
      cache (f x s) = cache s \<or> (\<exists>t m. t \<le> d \<and> cache (f x s) = snd (check t m (cache s)))"
  shows "inv (cache s) \<Longrightarrow> live (length xs + k) d n (cache s) \<Longrightarrow>
         inv (cache (fold f xs s)) \<and> live k d n (cache (fold f xs s))"
  using step
proof (induction xs arbitrary: s)
  case Nil
  then show ?case by simp
next
  case (Cons x xs)
  have "inv (cache (f x s)) \<and> live (length xs + k) d n (cache (f x s))"
    using Cons.prems(3) [of x s] Cons.prems(1,2) by (auto intro: inv_check live_step live_weaken)
  then show ?case
    using Cons.IH [of "f x s"] Cons.prems(3) by simp
qed

lemma no_replay:
  assumes "inv (cache s0)" and "fst (check t0 n (cache s0))"
    and "cache s = snd (check t0 n (cache s0))"
    and "length xs \<le> budget" and "d \<le> t0 + window"
    and "\<And>x s. x \<in> set xs \<Longrightarrow>
      cache (f x s) = cache s \<or> (\<exists>t m. t \<le> t0 + window \<and> cache (f x s) = snd (check t m (cache s)))"
  shows "\<not> fst (check d n (cache (fold f xs s)))"
proof -
  have "live (length xs + 0) (t0 + window) n (cache s)"
    using assms(1-4) by (auto intro: live_le fresh_live)
  moreover have "inv (cache s)"
    using assms(1,3) by (simp add: inv_check)
  ultimately have "inv (cache (fold f xs s)) \<and> live 0 (t0 + window) n (cache (fold f xs s))"
    using assms(6) by (intro live_fold) auto
  then have i: "inv (cache (fold f xs s))" and l: "live 0 (t0 + window) n (cache (fold f xs s))"
    by blast+
  show ?thesis
    by (rule live_rejected [OF i l assms(5)])
qed

end

section \<open>The capped cache swept by age\<close>

text \<open>
  One look at the cache of \<open>time_synthesis.ts\<close> and \<open>http_client.ts\<close>: sweep the entries
  older than the time to live once the map is more than half full, refuse a known nonce,
  otherwise make room and record the nonce with the current time.
\<close>

definition nonce_cache_step ::
    "nat \<Rightarrow> int \<Rightarrow> int \<Rightarrow> string \<Rightarrow> (string, int) jsmap \<Rightarrow> bool \<times> (string, int) jsmap" where
  "nonce_cache_step cap ttl now nonce m =
     (let swept = (if cap < 2 * length m then filter (\<lambda>e. \<not> (ttl < now - snd e)) m else m)
      in if jm_has nonce swept then (False, swept)
         else (True, jm_put_fifo cap nonce now swept))"

definition MAX_NONCE_CACHE :: nat where "MAX_NONCE_CACHE = 10000"
definition NONCE_TTL_MS :: int where "NONCE_TTL_MS = 300000"

definition nonce_live :: "nat \<Rightarrow> int \<Rightarrow> nat \<Rightarrow> int \<Rightarrow> string \<Rightarrow> (string, int) jsmap \<Rightarrow> bool" where
  "nonce_live cap ttl k d n m \<longleftrightarrow>
     (\<exists>pre ts post. m = pre @ (n, ts) # post \<and> d \<le> ts + ttl \<and> length post + k < cap)"

definition nonce_cache_ok :: "nat \<Rightarrow> (string, int) jsmap \<Rightarrow> bool" where
  "nonce_cache_ok cap m \<longleftrightarrow> jm_ok m \<and> length m \<le> cap"

lemma nonce_cache_step_ok:
  assumes "nonce_cache_ok cap m" and "0 < cap"
  shows "nonce_cache_ok cap (snd (nonce_cache_step cap ttl now n m))"
proof -
  let ?f = "filter (\<lambda>e. \<not> (ttl < now - snd e)) m"
  have "length ?f \<le> cap" using assms(1) length_filter_le [of _ m]
    unfolding nonce_cache_ok_def by (meson le_trans)
  with assms show ?thesis
    by (auto simp: nonce_cache_step_def nonce_cache_ok_def Let_def length_jm_put)
qed

lemma nonce_fresh_last:
  assumes "jm_ok m" and "fst (nonce_cache_step cap ttl t n m)"
  shows "\<exists>pre. snd (nonce_cache_step cap ttl t n m) = pre @ [(n, t)]"
proof -
  obtain s where "snd (nonce_cache_step cap ttl t n m) = jm_put_fifo cap n t s" and "\<not> jm_has n s"
    using assms(2) by (auto simp: nonce_cache_step_def Let_def split: if_splits)
  moreover have "\<not> jm_has n (if cap \<le> length s then jm_evict_oldest s else s)"
    using \<open>\<not> jm_has n s\<close> by (auto dest: jm_has_evict)
  ultimately show ?thesis
    by (simp add: jm_put_fifo_def jm_set_fresh del: split_paired_Ex)
qed

text \<open>Neither the sweep nor the eviction drops a live nonce.\<close>

lemma nonce_live_put:
  assumes "jm_ok m" and m: "m = pre @ (n, ts) # post" and "Suc (length post) < cap" and "k \<noteq> n"
  shows "\<exists>pre' post'. jm_put_fifo cap k v m = pre' @ (n, ts) # post' \<and> length post' \<le> Suc (length post)"
proof -
  have "\<exists>pre'. (if cap \<le> length m then jm_evict_oldest m else m) = pre' @ (n, ts) # post"
  proof (cases "cap \<le> length m")
    case True
    with assms(3) m obtain p ps where "pre = p # ps" by (cases pre) auto
    with True assms(1) m show ?thesis by (simp add: jm_evict_tl)
  next
    case False
    with m show ?thesis by simp
  qed
  then obtain pre' where e: "(if cap \<le> length m then jm_evict_oldest m else m) = pre' @ (n, ts) # post"
    by blast
  let ?g = "\<lambda>(a, b). if a = k then (a, v) else (a, b)"
  show ?thesis
  proof (cases "jm_has k (pre' @ (n, ts) # post)")
    case True
    then have "jm_put_fifo cap k v m = map ?g pre' @ (n, ts) # map ?g post"
      using \<open>k \<noteq> n\<close> by (simp add: jm_put_fifo_def e jm_set_def)
    then show ?thesis
      by (intro exI [of _ "map ?g pre'"] exI [of _ "map ?g post"]) simp
  next
    case False
    then have "jm_put_fifo cap k v m = pre' @ (n, ts) # (post @ [(k, v)])"
      by (simp add: jm_put_fifo_def e jm_set_def)
    then show ?thesis
      by (intro exI [of _ pre'] exI [of _ "post @ [(k, v)]"]) simp
  qed
qed

lemma nonce_live_step:
  assumes ok: "jm_ok m" and live: "nonce_live cap ttl (Suc k) d n m" and "t \<le> d"
  shows "nonce_live cap ttl k d n (snd (nonce_cache_step cap ttl t x m))"
proof -
  obtain pre ts post where m: "m = pre @ (n, ts) # post" and d: "d \<le> ts + ttl"
    and len: "length post + Suc k < cap"
    using live by (auto simp: nonce_live_def)
  let ?P = "\<lambda>e :: string \<times> int. \<not> (ttl < t - snd e)"
  let ?s = "if cap < 2 * length m then filter ?P m else m"
  have keep: "?P (n, ts)" using d \<open>t \<le> d\<close> by simp
  have "\<exists>pre' post'. ?s = pre' @ (n, ts) # post' \<and> length post' \<le> length post"
    using m keep by (auto intro: length_filter_le)
  then obtain pre' post' where s: "?s = pre' @ (n, ts) # post'" and p: "length post' \<le> length post"
    by blast
  have oks: "jm_ok ?s" using ok by simp
  show ?thesis
  proof (cases "jm_has x ?s")
    case True
    then have "snd (nonce_cache_step cap ttl t x m) = pre' @ (n, ts) # post'"
      by (simp add: nonce_cache_step_def Let_def s)
    moreover have "length post' + k < cap" using p len by simp
    ultimately show ?thesis using d unfolding nonce_live_def by blast
  next
    case False
    then have "x \<noteq> n" by (auto simp: s jm_has_def)
    then obtain pre'' post'' where "jm_put_fifo cap x t ?s = pre'' @ (n, ts) # post''"
        and "length post'' \<le> Suc (length post')"
      using nonce_live_put [OF oks s, of cap x t] p len by auto
    moreover have "snd (nonce_cache_step cap ttl t x m) = jm_put_fifo cap x t ?s"
      using False by (simp add: nonce_cache_step_def Let_def)
    moreover have "length post'' + k < cap" using calculation(2) p len by simp
    ultimately show ?thesis using d unfolding nonce_live_def by (simp only:) blast
  qed
qed

lemma nonce_live_rejected:
  assumes "nonce_live cap ttl k d n m" and "t \<le> d"
  shows "\<not> fst (nonce_cache_step cap ttl t n m)"
proof -
  obtain pre ts post where m: "m = pre @ (n, ts) # post" and d: "d \<le> ts + ttl"
    using assms(1) by (auto simp: nonce_live_def)
  have "(n, ts) \<in> set (if cap < 2 * length m then filter (\<lambda>e. \<not> (ttl < t - snd e)) m else m)"
    using m d assms(2) by simp
  then have "jm_has n (if cap < 2 * length m then filter (\<lambda>e. \<not> (ttl < t - snd e)) m else m)"
    unfolding jm_has_def set_map by (rule image_eqI [rotated]) simp
  then show ?thesis
    by (simp add: nonce_cache_step_def Let_def)
qed

lemma nonce_fresh_live:
  assumes "jm_ok m" and "0 < cap" and "fst (nonce_cache_step cap ttl t n m)"
  shows "nonce_live cap ttl (cap - 1) (t + ttl) n (snd (nonce_cache_step cap ttl t n m))"
proof -
  obtain pre where "snd (nonce_cache_step cap ttl t n m) = pre @ (n, t) # []"
    using nonce_fresh_last [OF assms(1,3)] by auto
  then show ?thesis
    unfolding nonce_live_def using assms(2) by fastforce
qed

interpretation capped: replay_guard
  "nonce_cache_step MAX_NONCE_CACHE NONCE_TTL_MS" "nonce_cache_ok MAX_NONCE_CACHE"
  "nonce_live MAX_NONCE_CACHE NONCE_TTL_MS" NONCE_TTL_MS 9999
proof unfold_locales
  fix c t n
  assume "nonce_cache_ok MAX_NONCE_CACHE c" "fst (nonce_cache_step MAX_NONCE_CACHE NONCE_TTL_MS t n c)"
  then show "nonce_live MAX_NONCE_CACHE NONCE_TTL_MS 9999 (t + NONCE_TTL_MS) n
               (snd (nonce_cache_step MAX_NONCE_CACHE NONCE_TTL_MS t n c))"
    using nonce_fresh_live [of c MAX_NONCE_CACHE NONCE_TTL_MS t n]
    by (simp add: nonce_cache_ok_def MAX_NONCE_CACHE_def)
next
  fix k d n and c :: "(string, int) jsmap"
  show "nonce_live MAX_NONCE_CACHE NONCE_TTL_MS (Suc k) d n c \<Longrightarrow>
        nonce_live MAX_NONCE_CACHE NONCE_TTL_MS k d n c"
    unfolding nonce_live_def by fastforce
next
  fix k d n c t m
  assume "nonce_cache_ok MAX_NONCE_CACHE c" "nonce_live MAX_NONCE_CACHE NONCE_TTL_MS (Suc k) d n c" "t \<le> d"
  then show "nonce_live MAX_NONCE_CACHE NONCE_TTL_MS k d n
               (snd (nonce_cache_step MAX_NONCE_CACHE NONCE_TTL_MS t m c))"
    unfolding nonce_cache_ok_def by (blast intro: nonce_live_step)
next
  fix c t m
  assume "nonce_cache_ok MAX_NONCE_CACHE c"
  then show "nonce_cache_ok MAX_NONCE_CACHE (snd (nonce_cache_step MAX_NONCE_CACHE NONCE_TTL_MS t m c))"
    by (rule nonce_cache_step_ok) (simp add: MAX_NONCE_CACHE_def)
qed (blast intro: nonce_live_rejected [THEN notE])

text \<open>The nonce a check accepted is in the cache afterwards.\<close>

lemma nonce_step_records:
  "fst (nonce_cache_step cap ttl t n m) \<Longrightarrow>
   jm_get n (snd (nonce_cache_step cap ttl t n m)) = Some t"
  by (auto simp: nonce_cache_step_def Let_def split: if_splits)

text \<open>A nonce it accepted was not there, or was recorded longer ago than the time to live.\<close>

lemma nonce_step_unseen:
  assumes "fst (nonce_cache_step cap ttl t n m)" and "jm_get n m = Some t0"
  shows "t0 + ttl < t"
proof (rule ccontr)
  assume "\<not> t0 + ttl < t"
  moreover have "(n, t0) \<in> set m" using assms(2) by (auto simp: jm_get_def dest: map_of_SomeD)
  ultimately have "(n, t0) \<in> set (if cap < 2 * length m then filter (\<lambda>e. \<not> (ttl < t - snd e)) m else m)" by simp
  then have "jm_has n (if cap < 2 * length m then filter (\<lambda>e. \<not> (ttl < t - snd e)) m else m)"
    unfolding jm_has_def set_map by (rule image_eqI [rotated]) simp
  then show False using assms(1) by (simp add: nonce_cache_step_def Let_def)
qed

end
