(* ===== verification/TimeSynthesis.thy ===== *)
theory TimeSynthesis
  imports TimeSources Roughtime ReplayGuard
begin

text \<open>
  The class \<open>TimeSynthesis\<close> of \<open>src/time_synthesis.ts\<close>: which sources a configuration
  gives, how readings are combined, how a proof of time is generated and verified.
  The outcomes of the sources' calls are an argument, one per configured source, in order;
  every use of the clock is an argument of its own.
\<close>

section \<open>Sources\<close>

datatype any_source = HttpsSrc https_source | RoughtimeSrc roughtime_source

fun source_name :: "any_source \<Rightarrow> string" where
  "source_name (HttpsSrc s) = https_name s"
| "source_name (RoughtimeSrc s) = rt_name s"

datatype source_env = HttpsEnv int "https_event list" | RoughtimeEnv rt_env

fun source_getTime ::
    "(string \<Rightarrow> int option) \<Rightarrow> (bytes \<Rightarrow> bytes) \<Rightarrow> (bytes \<Rightarrow> bytes \<Rightarrow> bytes \<Rightarrow> bool)
     \<Rightarrow> source_env \<Rightarrow> any_source \<Rightarrow> time_reading settle option" where
  "source_getTime parse_date sha512 verify (HttpsEnv t1 evs) (HttpsSrc s) = https_getTime parse_date (t1, evs) s"
| "source_getTime parse_date sha512 verify (RoughtimeEnv env) (RoughtimeSrc s) =
     roughtime_getTime sha512 verify env s"
| "source_getTime _ _ _ _ _ = None"

interpretation any: time_source source_name "source_getTime parse_date sha512 verify"
  for parse_date sha512 verify
proof unfold_locales
  fix env s r
  assume g: "source_getTime parse_date sha512 verify env s = Some (Fulfilled r)"
  show "tr_source r = source_name s"
    using g by (cases "(parse_date, sha512, verify, env, s)" rule: source_getTime.cases)
      (auto dest: https.reading_named roughtime.reading_named)
  show "1 \<le> tr_stratum r \<and> tr_stratum r \<le> 15"
    using g by (cases "(parse_date, sha512, verify, env, s)" rule: source_getTime.cases)
      (auto dest: https.reading_stratum roughtime.reading_stratum)
qed

record time_synthesis =
  ts_sources :: "any_source list"
  usedNonces :: "(string, int) jsmap"

definition DEFAULT_SOURCE_NAMES :: "string list" where
  "DEFAULT_SOURCE_NAMES =
     [''nist'', ''google'', ''cloudflare'', ''apple'',
      ''roughtime-int08h'', ''roughtime-cloudflare'', ''roughtime-se'', ''roughtime-txryan'']"

definition roughtime_of_config :: "roughtime_server \<Rightarrow> js_exn + any_source" where
  "roughtime_of_config cfg =
     bindr (RoughtimeSource (rs_name cfg) (rs_host cfg) (rs_port cfg) (rs_pubkeyB64 cfg) None)
       (\<lambda>s. Inr (RoughtimeSrc s))"

text \<open>What one configured name adds; unknown names add nothing.\<close>

definition named_sources :: "string \<Rightarrow> (js_exn + any_source) list" where
  "named_sources s =
     (if s = ''nist'' then [Inr (HttpsSrc \<lparr>https_name = ''nist'', https_url = ''https://time.nist.gov/''\<rparr>)]
      else if s = ''google'' \<or> s = ''galileo'' then
        [Inr (HttpsSrc \<lparr>https_name = ''google'', https_url = ''https://time.google.com/''\<rparr>)]
      else if s = ''cloudflare'' then
        [Inr (HttpsSrc \<lparr>https_name = ''cloudflare'', https_url = ''https://time.cloudflare.com/''\<rparr>)]
      else if s = ''apple'' then
        [Inr (HttpsSrc \<lparr>https_name = ''apple'', https_url = ''https://time.apple.com/''\<rparr>)]
      else if s = ''roughtime'' then map roughtime_of_config ROUGHTIME_SERVERS
      else (case find (\<lambda>c. rs_name c = s) ROUGHTIME_SERVERS of
              Some rtCfg \<Rightarrow> [roughtime_of_config rtCfg]
            | None \<Rightarrow> []))"

fun push_sources :: "(js_exn + any_source) list \<Rightarrow> any_source list \<Rightarrow> js_exn + any_source list" where
  "push_sources [] acc = Inr acc"
| "push_sources (Inl e # rs) acc = Inl e"
| "push_sources (Inr s # rs) acc = push_sources rs (acc @ [s])"

definition TimeSynthesis :: "string list option \<Rightarrow> js_exn + time_synthesis" where
  "TimeSynthesis sources =
     (let sourceNames = (case sources of None \<Rightarrow> DEFAULT_SOURCE_NAMES | Some ns \<Rightarrow> ns)
      in bindr (push_sources (concat (map named_sources sourceNames)) [])
           (\<lambda>ss. Inr \<lparr>ts_sources = ss, usedNonces = []\<rparr>))"

text \<open>\<open>getFromSource\<close> picks the first source of the name; \<open>outcome\<close> is its call's.\<close>

definition getFromSource ::
    "string \<Rightarrow> (any_source \<Rightarrow> time_reading settle option) \<Rightarrow> time_synthesis \<Rightarrow> time_reading settle option" where
  "getFromSource name outcome ts =
     (case find (\<lambda>s. source_name s = name) (ts_sources ts) of
        None \<Rightarrow> Some (Rejected (throw4 TTTTimeSynthesisError TIME_SYNTHESIS_SOURCE_NOT_FOUND
                  (''Source '' @ name @ '' not found'') ''Requested source name is not configured''
                  ''Configure the source in the TimeSynthesis constructor.''))
      | Some s \<Rightarrow> outcome s)"

section \<open>Combining readings\<close>

text \<open>
  The middle of the sorted readings: of two the mean (rounded towards zero) with the better
  stratum, otherwise the median reading.
\<close>

definition select_time :: "time_reading list \<Rightarrow> int \<times> rat \<times> int" where
  "select_time readings =
     (let rs = sort_key tr_timestamp readings in
      if length rs = 1 then (tr_timestamp (rs ! 0), tr_uncertainty (rs ! 0), tr_stratum (rs ! 0))
      else if length rs = 2 then
        (tdiv (tr_timestamp (rs ! 0) + tr_timestamp (rs ! 1)) 2,
         (tr_uncertainty (rs ! 0) + tr_uncertainty (rs ! 1)) / 2,
         min (tr_stratum (rs ! 0)) (tr_stratum (rs ! 1)))
      else
        let mid = length rs div 2 in
        (tr_timestamp (rs ! mid), tr_uncertainty (rs ! mid), tr_stratum (rs ! mid)))"

text \<open>
  \<open>synthesize\<close>.  An exception that escapes a source's callback is not caught by
  \<open>Promise.allSettled\<close>: it ends the process, which is the call's outcome here.
\<close>

definition synthesize :: "time_reading settle list \<Rightarrow> time_synthesis \<Rightarrow> synthesized_time settle" where
  "synthesize results ts =
     (case first_uncaught results of
        Some e \<Rightarrow> Uncaught e
      | None \<Rightarrow>
          let readings = fulfilled_values results in
          if length readings = 0 then
            Rejected (throw4 TTTTimeSynthesisError TIME_SYNTHESIS_ALL_SOURCES_FAILED
              ''[TimeSynthesis] CRITICAL: All NTP sources failed.''
              ''Zero readings returned from all configured NTP sources''
              ''Ensure UDP port 123 is open and NTP servers are reachable.'')
          else if length readings = 1 then
            Fulfilled \<lparr>st_timestamp = tr_timestamp (readings ! 0),
                       st_confidence = 1 / of_nat (length (ts_sources ts)),
                       st_uncertainty = tr_uncertainty (readings ! 0), st_sources = 1,
                       st_stratum = tr_stratum (readings ! 0)\<rparr>
          else
            let (finalTimestamp, finalUncertainty, finalStratum) = select_time readings in
            Fulfilled \<lparr>st_timestamp = finalTimestamp,
                       st_confidence = of_nat (length readings) / of_nat (length (ts_sources ts)),
                       st_uncertainty = finalUncertainty, st_sources = length readings,
                       st_stratum = finalStratum\<rparr>)"

section \<open>Proofs of time\<close>

definition getToleranceForStratum :: "int \<Rightarrow> int" where
  "getToleranceForStratum stratum =
     (if stratum \<le> 1 then 10000000 else if stratum = 2 then 25000000 else 50000000)"

fun lowest_stratum :: "source_reading list \<Rightarrow> int \<Rightarrow> int" where
  "lowest_stratum [] acc = acc"
| "lowest_stratum (r # rs) acc =
     (case sr_stratum r of
        Some k \<Rightarrow> lowest_stratum rs (if k < acc then k else acc)
      | None \<Rightarrow> lowest_stratum rs acc)"

definition reading_tolerance :: "int \<Rightarrow> source_reading \<Rightarrow> int" where
  "reading_tolerance floorToleranceNs r =
     (let ownToleranceNs = js_round (sr_uncertainty r * 1000000)
      in if ownToleranceNs > floorToleranceNs then ownToleranceNs else floorToleranceNs)"

fun readings_within :: "int \<Rightarrow> int \<Rightarrow> source_reading list \<Rightarrow> bool" where
  "readings_within floorToleranceNs ts [] = True"
| "readings_within floorToleranceNs ts (r # rs) =
     (let diff = (if sr_timestamp r > ts then sr_timestamp r - ts else ts - sr_timestamp r)
      in if diff > reading_tolerance floorToleranceNs r then False
         else readings_within floorToleranceNs ts rs)"

text \<open>\<open>t_exp\<close> and \<open>t_now\<close> are the two readings of the clock.\<close>

definition verifyProofOfTime ::
    "int \<Rightarrow> int \<Rightarrow> proof_of_time \<Rightarrow> time_synthesis \<Rightarrow> bool \<times> time_synthesis" where
  "verifyProofOfTime t_exp t_now pot ts =
     (if sourceReadings pot = [] then (False, ts)
      else if pot_confidence pot \<le> 0 then (False, ts)
      else
        let floorToleranceNs =
              getToleranceForStratum (lowest_stratum (sourceReadings pot) (pot_stratum pot)) in
        if t_exp > expiresAt pot then (False, ts)
        else
          case nonce_cache_step MAX_NONCE_CACHE NONCE_TTL_MS t_now (pot_nonce pot) (usedNonces ts) of
            (fresh, cache) \<Rightarrow>
              (if \<not> fresh then (False, ts\<lparr>usedNonces := cache\<rparr>)
               else (readings_within floorToleranceNs (pot_timestamp pot) (sourceReadings pot),
                     ts\<lparr>usedNonces := cache\<rparr>)))"

definition reading_entry :: "time_reading \<Rightarrow> source_reading" where
  "reading_entry r = \<lparr>sr_source = tr_source r, sr_timestamp = tr_timestamp r,
                      sr_uncertainty = tr_uncertainty r, sr_stratum = Some (tr_stratum r)\<rparr>"

text \<open>
  \<open>generateProofOfTime\<close>: \<open>rand\<close> are the 16 random bytes, \<open>t_iss\<close> the clock when the
  expiry is set, and the other two clock readings are those of the self-verification.
\<close>

definition generateProofOfTime ::
    "time_reading settle list \<Rightarrow> bytes \<Rightarrow> int \<Rightarrow> int \<Rightarrow> int \<Rightarrow> time_synthesis
     \<Rightarrow> proof_of_time settle \<times> time_synthesis" where
  "generateProofOfTime results rand t_iss t_exp t_now ts =
     (case first_uncaught results of
        Some e \<Rightarrow> (Uncaught e, ts)
      | None \<Rightarrow>
          let readings = fulfilled_values results in
          if length readings = 0 then
            (Rejected (throw4 TTTTimeSynthesisError TIME_SYNTHESIS_POT_ALL_FAILED
               ''[TimeSynthesis] Cannot generate PoT: All NTP sources failed.''
               ''No successful readings from NTP servers.''
               ''Check internet connection and UDP 123 access.''), ts)
          else
            let (finalTimestamp, finalUncertainty, finalStratum) = select_time readings;
                pot = \<lparr>pot_timestamp = finalTimestamp, pot_uncertainty = finalUncertainty,
                       pot_sources = length readings, pot_stratum = finalStratum,
                       pot_confidence = of_nat (length readings) / of_nat (length (ts_sources ts)),
                       sourceReadings = map reading_entry (sort_key tr_timestamp readings),
                       pot_nonce = hex_encode rand, expiresAt = t_iss + 60000,
                       issuerSignature = None\<rparr>;
                (ok, ts') = verifyProofOfTime t_exp t_now pot ts
            in if \<not> ok then
                 (Rejected (throw4 TTTTimeSynthesisError TIME_SYNTHESIS_SELF_VERIFY_FAILED
                    ''[PoT] Self-verification failed''
                    ''Source readings are too far apart from synthesized median''
                    ''Check for high network jitter or malicious NTP spoofing.''), ts')
               else (Fulfilled pot, ts'))"

text \<open>The on-chain digest; the ABI coder and Keccak-256 come from \<open>ethers\<close>.\<close>

definition getOnChainHash ::
    "(string list \<Rightarrow> int list \<Rightarrow> js_exn + bytes) \<Rightarrow> (bytes \<Rightarrow> string) \<Rightarrow> proof_of_time \<Rightarrow> js_exn + string" where
  "getOnChainHash abi_encode keccak256 pot =
     bindr (abi_encode [''uint64'', ''uint64'', ''uint8'', ''uint8'', ''uint32'']
              [pot_timestamp pot, js_round (pot_uncertainty pot * 1000000), int (pot_sources pot),
               pot_stratum pot, js_round (pot_confidence pot * 1000000)])
       (\<lambda>enc. Inr (keccak256 enc))"

definition close_synthesis :: "time_synthesis \<Rightarrow> time_synthesis" where
  "close_synthesis ts = ts\<lparr>usedNonces := []\<rparr>"

section \<open>Configurations\<close>

lemma roughtime_of_config_ok:
  "cfg \<in> set ROUGHTIME_SERVERS \<Longrightarrow>
   roughtime_of_config cfg = Inr (RoughtimeSrc \<lparr>rt_name = rs_name cfg, rt_host = rs_host cfg,
     rt_port = rs_port cfg, rt_pubkey = b64_decode (rs_pubkeyB64 cfg), rt_timeoutMs = 3000\<rparr>)"
  using configured_keys by (simp add: roughtime_of_config_def RoughtimeSource_def Let_def)

lemma push_sources_all:
  "(\<forall>r \<in> set rs. \<exists>s. r = Inr s) \<Longrightarrow> push_sources rs acc = Inr (acc @ map projr rs)"
  by (induction rs arbitrary: acc) auto

lemma find_Some_in: "find P xs = Some x \<Longrightarrow> x \<in> set xs \<and> P x"
  by (auto simp: find_Some_iff)

lemma named_sources_ok: "r \<in> set (named_sources s) \<Longrightarrow> \<exists>src. r = Inr src"
  by (cases "find (\<lambda>c. rs_name c = s) ROUGHTIME_SERVERS")
     (auto simp: named_sources_def roughtime_of_config_ok dest: find_Some_in split: if_splits)

lemma TimeSynthesis_eq:
  "TimeSynthesis sources =
     Inr \<lparr>ts_sources = map projr (concat (map named_sources
            (case sources of None \<Rightarrow> DEFAULT_SOURCE_NAMES | Some ns \<Rightarrow> ns))), usedNonces = []\<rparr>"
  unfolding TimeSynthesis_def Let_def
  by (subst push_sources_all) (auto dest: named_sources_ok)

text \<open>The names of the sources a name stands for.\<close>

definition names_for :: "string \<Rightarrow> string list" where
  "names_for s =
     (if s \<in> {''nist'', ''cloudflare'', ''apple''} then [s]
      else if s \<in> {''google'', ''galileo''} then [''google'']
      else if s = ''roughtime'' then map rs_name ROUGHTIME_SERVERS
      else filter (\<lambda>n. n = s) (map rs_name ROUGHTIME_SERVERS))"

lemma find_filter_distinct:
  "distinct (map f xs) \<Longrightarrow>
   (case find (\<lambda>c. f c = s) xs of Some c \<Rightarrow> [f c] | None \<Rightarrow> []) = filter (\<lambda>n. n = s) (map f xs)"
proof (induction xs)
  case (Cons x xs)
  have "filter (\<lambda>n. n = s) (map f xs) = []" if "f x = s"
  proof -
    have "s \<notin> set (map f xs)" using Cons.prems that by auto
    then show ?thesis by (auto simp: filter_empty_conv)
  qed
  with Cons show ?case by auto
qed simp

lemma server_names_distinct: "distinct (map rs_name ROUGHTIME_SERVERS)"
  by (simp add: ROUGHTIME_SERVERS_def)

lemma named_sources_names: "map (source_name \<circ> projr) (named_sources s) = names_for s"
proof -
  have "(case find (\<lambda>c. rs_name c = s) ROUGHTIME_SERVERS of
           Some c \<Rightarrow> [source_name (projr (roughtime_of_config c))] | None \<Rightarrow> [])
        = (case find (\<lambda>c. rs_name c = s) ROUGHTIME_SERVERS of Some c \<Rightarrow> [rs_name c] | None \<Rightarrow> [])"
    by (cases "find (\<lambda>c. rs_name c = s) ROUGHTIME_SERVERS") (auto simp: roughtime_of_config_ok dest: find_Some_in)
  moreover have "map (source_name \<circ> projr \<circ> roughtime_of_config) ROUGHTIME_SERVERS = map rs_name ROUGHTIME_SERVERS"
    by (simp add: roughtime_of_config_ok)
  ultimately show ?thesis
    using find_filter_distinct [OF server_names_distinct, of s]
    by (auto simp: named_sources_def names_for_def comp_def split: option.splits)
qed

text \<open>
  The constructor never throws, and the configuration determines the sources: the
  default is the four HTTPS endpoints and the four Roughtime servers, \<open>galileo\<close> stands for
  the source called \<open>google\<close>, \<open>roughtime\<close> for all four servers, and an unknown name for
  nothing.
\<close>

theorem constructor_sources:
  "\<exists>ts. TimeSynthesis cfg = Inr ts \<and> usedNonces ts = [] \<and>
        map source_name (ts_sources ts) =
          concat (map names_for (case cfg of None \<Rightarrow> DEFAULT_SOURCE_NAMES | Some ns \<Rightarrow> ns))"
  unfolding TimeSynthesis_eq
  by (simp add: map_concat comp_def named_sources_names [unfolded comp_def])

section \<open>The median\<close>

lemma filter_greater_nth:
  assumes "sorted xs" and "k < length xs"
  shows "length (filter (\<lambda>x. xs ! k < x) xs) \<le> length xs - Suc k"
proof -
  have "filter (\<lambda>x. xs ! k < x) (take (Suc k) xs) = []"
    using assms by (auto simp: filter_empty_conv in_set_conv_nth not_less less_Suc_eq_le intro!: sorted_nth_mono)
  moreover have "filter (\<lambda>x. xs ! k < x) xs
      = filter (\<lambda>x. xs ! k < x) (take (Suc k) xs) @ filter (\<lambda>x. xs ! k < x) (drop (Suc k) xs)"
    by (metis append_take_drop_id filter_append)
  moreover have "length (filter (\<lambda>x. xs ! k < x) (drop (Suc k) xs)) \<le> length xs - Suc k"
    using length_filter_le [of _ "drop (Suc k) xs"] by simp
  ultimately show ?thesis by simp
qed

lemma filter_less_nth:
  assumes "sorted xs" and "k < length xs"
  shows "length (filter (\<lambda>x. x < xs ! k) xs) \<le> k"
proof -
  have "filter (\<lambda>x. x < xs ! k) (drop k xs) = []"
    using assms by (auto simp: filter_empty_conv in_set_conv_nth not_less less_Suc_eq_le intro!: sorted_nth_mono)
  moreover have "filter (\<lambda>x. x < xs ! k) xs
      = filter (\<lambda>x. x < xs ! k) (take k xs) @ filter (\<lambda>x. x < xs ! k) (drop k xs)"
    by (metis append_take_drop_id filter_append)
  moreover have "length (filter (\<lambda>x. x < xs ! k) (take k xs)) \<le> k"
    using length_filter_le [of "\<lambda>x. x < xs ! k" "take k xs"] by simp
  ultimately show ?thesis by simp
qed

lemma length_filter_mono:
  "(\<And>x. x \<in> set xs \<Longrightarrow> P x \<Longrightarrow> Q x) \<Longrightarrow> length (filter P xs) \<le> length (filter Q xs)"
  by (induction xs) auto

lemma length_filter_sort_key: "length (filter P (sort_key f xs)) = length (filter P xs)"
  by (metis filter_sort length_sort)

text \<open>
  A majority inside an interval puts the middle there: any position with fewer elements on
  either side than the interval has.
\<close>

lemma nth_in_majority:
  fixes f :: "'a \<Rightarrow> int"
  assumes k: "k < length rs" and right: "length rs - Suc k < length (filter P rs)" and left: "k < length (filter P rs)"
    and honest: "\<And>r. r \<in> set rs \<Longrightarrow> P r \<Longrightarrow> lo \<le> f r \<and> f r \<le> hi"
  shows "lo \<le> f (sort_key f rs ! k) \<and> f (sort_key f rs ! k) \<le> hi"
proof -
  let ?s = "sort_key f rs"
  let ?m = "f (?s ! k)"
  have m: "map f ?s ! k = ?m" using k by simp
  have sorted: "sorted (map f ?s)" by simp
  have P: "length (filter P ?s) = length (filter P rs)" by (rule length_filter_sort_key)
  have "\<not> ?m < lo"
  proof
    assume "?m < lo"
    then have "length (filter P ?s) \<le> length (filter (\<lambda>r. ?m < f r) ?s)"
      using honest by (intro length_filter_mono) force
    also have "\<dots> = length (filter (\<lambda>x. ?m < x) (map f ?s))" by (simp add: filter_map comp_def)
    also have "\<dots> \<le> length rs - Suc k"
      using filter_greater_nth [OF sorted, of k] k m by simp
    finally show False using right P by simp
  qed
  moreover have "\<not> hi < ?m"
  proof
    assume "hi < ?m"
    then have "length (filter P ?s) \<le> length (filter (\<lambda>r. f r < ?m) ?s)"
      using honest by (intro length_filter_mono) force
    also have "\<dots> = length (filter (\<lambda>x. x < ?m) (map f ?s))" by (simp add: filter_map comp_def)
    also have "\<dots> \<le> k"
      using filter_less_nth [OF sorted, of k] k m by simp
    finally show False using left P by simp
  qed
  ultimately show ?thesis by simp
qed

lemma median_in_majority:
  fixes f :: "'a \<Rightarrow> int"
  assumes "rs \<noteq> []" and "length rs < 2 * length (filter P rs)"
    and "\<And>r. r \<in> set rs \<Longrightarrow> P r \<Longrightarrow> lo \<le> f r \<and> f r \<le> hi"
  shows "lo \<le> f (sort_key f rs ! (length rs div 2)) \<and> f (sort_key f rs ! (length rs div 2)) \<le> hi"
proof (rule nth_in_majority [where P = P])
  show "length rs div 2 < length rs" using assms(1) by simp
  show "length rs - Suc (length rs div 2) < length (filter P rs)" "length rs div 2 < length (filter P rs)"
    using assms(2) by linarith+
qed (rule assms(3))

lemma select_time_many:
  "3 \<le> length rs \<Longrightarrow> select_time rs =
     (tr_timestamp (sort_key tr_timestamp rs ! (length rs div 2)),
      tr_uncertainty (sort_key tr_timestamp rs ! (length rs div 2)),
      tr_stratum (sort_key tr_timestamp rs ! (length rs div 2)))"
  by (simp add: select_time_def Let_def)


definition sample_reading :: "string \<Rightarrow> int \<Rightarrow> time_reading" where
  "sample_reading n t = \<lparr>tr_timestamp = t, tr_uncertainty = 500, tr_stratum = 2, tr_source = n\<rparr>"

definition sample_synthesis :: time_synthesis where
  "sample_synthesis = \<lparr>ts_sources =
     [HttpsSrc \<lparr>https_name = ''nist'', https_url = ''https://time.nist.gov/''\<rparr>,
      HttpsSrc \<lparr>https_name = ''google'', https_url = ''https://time.google.com/''\<rparr>,
      HttpsSrc \<lparr>https_name = ''apple'', https_url = ''https://time.apple.com/''\<rparr>], usedNonces = []\<rparr>"


section \<open>Verification\<close>

definition synthesis_ok :: "time_synthesis \<Rightarrow> bool" where
  "synthesis_ok ts \<longleftrightarrow> nonce_cache_ok MAX_NONCE_CACHE (usedNonces ts)"

lemma readings_within_iff:
  "readings_within fl ts rs \<longleftrightarrow> (\<forall>r \<in> set rs. \<bar>sr_timestamp r - ts\<bar> \<le> reading_tolerance fl r)"
  by (induction rs) (auto simp: Let_def)

lemma reading_tolerance_max:
  "reading_tolerance fl r = max fl (js_round (sr_uncertainty r * 1000000))"
  by (simp add: reading_tolerance_def Let_def)

lemma lowest_stratum_eq:
  "lowest_stratum rs acc = Min (insert acc {k. \<exists>r \<in> set rs. sr_stratum r = Some k})"
proof (induction rs arbitrary: acc)
  case (Cons r rs)
  have fin: "finite {k. \<exists>r \<in> set rs. sr_stratum r = Some k}"
    by (rule finite_subset [of _ "(the \<circ> sr_stratum) ` set rs"]) force+
  show ?case
  proof (cases "sr_stratum r")
    case None
    then have "{k. \<exists>q \<in> set (r # rs). sr_stratum q = Some k} = {k. \<exists>r \<in> set rs. sr_stratum r = Some k}"
      by auto
    with None Cons show ?thesis by simp
  next
    case (Some j)
    then have "{k. \<exists>q \<in> set (r # rs). sr_stratum q = Some k} = insert j {k. \<exists>r \<in> set rs. sr_stratum r = Some k}"
      by auto
    then show ?thesis using Some Cons fin by (cases "{k. \<exists>r \<in> set rs. sr_stratum r = Some k} = {}")
        (simp_all add: min_def, smt (verit))
  qed
qed simp

lemma verify_iff:
  "fst (verifyProofOfTime t_exp t_now pot ts) \<longleftrightarrow>
     sourceReadings pot \<noteq> [] \<and> 0 < pot_confidence pot \<and> t_exp \<le> expiresAt pot \<and>
     fst (nonce_cache_step MAX_NONCE_CACHE NONCE_TTL_MS t_now (pot_nonce pot) (usedNonces ts)) \<and>
     (\<forall>r \<in> set (sourceReadings pot). \<bar>sr_timestamp r - pot_timestamp pot\<bar> \<le>
        max (getToleranceForStratum (lowest_stratum (sourceReadings pot) (pot_stratum pot)))
            (js_round (sr_uncertainty r * 1000000)))"
  by (auto simp: verifyProofOfTime_def Let_def readings_within_iff reading_tolerance_max split: prod.splits)

lemma verify_cache:
  "usedNonces (snd (verifyProofOfTime t_exp t_now pot ts)) = usedNonces ts \<or>
   usedNonces (snd (verifyProofOfTime t_exp t_now pot ts)) =
     snd (nonce_cache_step MAX_NONCE_CACHE NONCE_TTL_MS t_now (pot_nonce pot) (usedNonces ts))"
  by (auto simp: verifyProofOfTime_def Let_def split: prod.splits)

lemma verify_True_cache:
  "fst (verifyProofOfTime t_exp t_now pot ts) \<Longrightarrow>
   usedNonces (snd (verifyProofOfTime t_exp t_now pot ts)) =
     snd (nonce_cache_step MAX_NONCE_CACHE NONCE_TTL_MS t_now (pot_nonce pot) (usedNonces ts))"
  by (auto simp: verifyProofOfTime_def Let_def split: prod.splits if_splits)

lemma verify_sources [simp]: "ts_sources (snd (verifyProofOfTime t_exp t_now pot ts)) = ts_sources ts"
  by (auto simp: verifyProofOfTime_def Let_def split: prod.splits)

lemma generate_cases:
  assumes "generateProofOfTime results rand t_iss t_exp t_now ts = (Fulfilled pot, ts')"
  shows "fulfilled_values results \<noteq> [] \<and> first_uncaught results = None \<and>
    (\<exists>u k. select_time (fulfilled_values results) = (pot_timestamp pot, u, k) \<and>
         pot_uncertainty pot = u \<and> pot_stratum pot = k) \<and>
    pot_sources pot = length (fulfilled_values results) \<and>
    pot_confidence pot = of_nat (length (fulfilled_values results)) / of_nat (length (ts_sources ts)) \<and>
    sourceReadings pot = map reading_entry (sort_key tr_timestamp (fulfilled_values results)) \<and>
    pot_nonce pot = hex_encode rand \<and> expiresAt pot = t_iss + 60000 \<and>
    fst (verifyProofOfTime t_exp t_now pot ts) \<and> ts' = snd (verifyProofOfTime t_exp t_now pot ts)"
  using assms unfolding generateProofOfTime_def Let_def
  by (simp split: option.splits prod.splits if_splits) auto

lemma generate_cache:
  "usedNonces (snd (generateProofOfTime results rand t_iss t_exp t_now ts)) = usedNonces ts \<or>
   usedNonces (snd (generateProofOfTime results rand t_iss t_exp t_now ts)) =
     snd (nonce_cache_step MAX_NONCE_CACHE NONCE_TTL_MS t_now (hex_encode rand) (usedNonces ts))"
  unfolding generateProofOfTime_def Let_def
  using verify_cache [of t_exp t_now _ ts]
  by (auto split: option.splits prod.splits) (metis proof_of_time.select_convs(7) snd_conv)+

text \<open>
  C3. A generated proof of time is consistent.  It carries the readings of exactly the
  sources that answered, in the order of their times; its confidence is their share of the
  configured sources; it expires one minute after it was made; its nonce was not recorded
  within the time to live before, and is now recorded; and every reading lies within its tolerance of the proof's timestamp,
  which is the larger of its own declared uncertainty and the floor of the lowest stratum.
\<close>

theorem generate_sound:
  assumes "generateProofOfTime results rand t_iss t_exp t_now ts = (Fulfilled pot, ts')"
  shows "sourceReadings pot = map reading_entry (sort_key tr_timestamp (fulfilled_values results)) \<and>
         0 < pot_sources pot \<and> pot_sources pot = length (sourceReadings pot) \<and>
         pot_confidence pot = of_nat (pot_sources pot) / of_nat (length (ts_sources ts)) \<and>
         expiresAt pot = t_iss + 60000 \<and> t_exp \<le> expiresAt pot \<and>
         (\<forall>t. jm_get (pot_nonce pot) (usedNonces ts) = Some t \<longrightarrow> t + NONCE_TTL_MS < t_now) \<and>
         jm_get (pot_nonce pot) (usedNonces ts') = Some t_now \<and>
         (\<forall>r \<in> set (fulfilled_values results). \<bar>tr_timestamp r - pot_timestamp pot\<bar> \<le>
            max (getToleranceForStratum
                   (Min (insert (pot_stratum pot) (tr_stratum ` set (fulfilled_values results)))))
                (js_round (tr_uncertainty r * 1000000)))"
proof -
  note g = generate_cases [OF assms]
  have v: "fst (verifyProofOfTime t_exp t_now pot ts)" and ts': "ts' = snd (verifyProofOfTime t_exp t_now pot ts)"
    and sr: "sourceReadings pot = map reading_entry (sort_key tr_timestamp (fulfilled_values results))"
    using g by blast+
  have strata: "{k. \<exists>r \<in> set (sourceReadings pot). sr_stratum r = Some k} = tr_stratum ` set (fulfilled_values results)"
    unfolding sr by (auto simp: reading_entry_def)
  have "jm_get (pot_nonce pot) (usedNonces ts') = Some t_now"
    unfolding ts' verify_True_cache [OF v]
    using v unfolding verify_iff by (blast intro: nonce_step_records)
  moreover have "\<forall>t. jm_get (pot_nonce pot) (usedNonces ts) = Some t \<longrightarrow> t + NONCE_TTL_MS < t_now"
    using v nonce_step_unseen unfolding verify_iff by blast
  moreover have "\<forall>r \<in> set (fulfilled_values results). \<bar>tr_timestamp r - pot_timestamp pot\<bar> \<le>
            max (getToleranceForStratum
                   (Min (insert (pot_stratum pot) (tr_stratum ` set (fulfilled_values results)))))
                (js_round (tr_uncertainty r * 1000000))"
  proof
    fix r assume "r \<in> set (fulfilled_values results)"
    then have "reading_entry r \<in> set (sourceReadings pot)" by (simp add: sr)
    moreover have "\<forall>q \<in> set (sourceReadings pot). \<bar>sr_timestamp q - pot_timestamp pot\<bar> \<le>
        max (getToleranceForStratum
               (Min (insert (pot_stratum pot) (tr_stratum ` set (fulfilled_values results)))))
            (js_round (sr_uncertainty q * 1000000))"
      using v unfolding verify_iff lowest_stratum_eq strata by blast
    ultimately show "\<bar>tr_timestamp r - pot_timestamp pot\<bar> \<le>
        max (getToleranceForStratum
               (Min (insert (pot_stratum pot) (tr_stratum ` set (fulfilled_values results)))))
            (js_round (tr_uncertainty r * 1000000))"
      by (auto simp: reading_entry_def dest!: bspec)
  qed
  moreover have "t_exp \<le> expiresAt pot" using v unfolding verify_iff by blast
  ultimately show ?thesis using g by (simp add: sr)
qed

lemma generate_sample:
  "\<exists>pot ts'. generateProofOfTime [Fulfilled (sample_reading ''nist'' 1000), Rejected (JsError ''x''),
      Fulfilled (sample_reading ''apple'' 1010)] (replicate 16 0xab) 50 51 52 sample_synthesis
      = (Fulfilled pot, ts')"
  by (simp add: generateProofOfTime_def verifyProofOfTime_def Let_def select_time_def sample_reading_def
      sample_synthesis_def reading_entry_def nonce_cache_step_def MAX_NONCE_CACHE_def jm_has_def
      getToleranceForStratum_def reading_tolerance_def js_round_def tdiv_def)

lemma generate_sound_witness:
  "\<exists>pot ts'. generateProofOfTime [Fulfilled (sample_reading ''nist'' 1000), Rejected (JsError ''x''),
      Fulfilled (sample_reading ''apple'' 1010)] (replicate 16 0xab) 50 51 52 sample_synthesis
      = (Fulfilled pot, ts') \<and> pot_sources pot = 2 \<and> expiresAt pot = 60050"
proof -
  obtain pot ts' where g: "generateProofOfTime [Fulfilled (sample_reading ''nist'' 1000), Rejected (JsError ''x''),
      Fulfilled (sample_reading ''apple'' 1010)] (replicate 16 0xab) 50 51 52 sample_synthesis
      = (Fulfilled pot, ts')"
    using generate_sample by blast
  then show ?thesis using generate_sound [OF g] by simp
qed

section \<open>Replay\<close>

datatype synthesis_op =
    OpVerify int int proof_of_time
  | OpGenerate "time_reading settle list" bytes int int int
  | OpSynthesize "time_reading settle list"

fun synthesis_step :: "synthesis_op \<Rightarrow> time_synthesis \<Rightarrow> time_synthesis" where
  "synthesis_step (OpVerify t_exp t_now pot) ts = snd (verifyProofOfTime t_exp t_now pot ts)"
| "synthesis_step (OpGenerate results rand t_iss t_exp t_now) ts =
     snd (generateProofOfTime results rand t_iss t_exp t_now ts)"
| "synthesis_step (OpSynthesize results) ts = ts"

fun op_time :: "synthesis_op \<Rightarrow> int" where
  "op_time (OpVerify t_exp t_now pot) = t_now"
| "op_time (OpGenerate results rand t_iss t_exp t_now) = t_now"
| "op_time (OpSynthesize results) = 0"

lemma synthesis_step_cache:
  "usedNonces (synthesis_step op ts) = usedNonces ts \<or>
   (\<exists>n. usedNonces (synthesis_step op ts) =
      snd (nonce_cache_step MAX_NONCE_CACHE NONCE_TTL_MS (op_time op) n (usedNonces ts)))"
proof (cases op)
  case (OpVerify t_exp t_now pot)
  then show ?thesis using verify_cache [of t_exp t_now pot ts] by (simp only: synthesis_step.simps op_time.simps) blast
next
  case (OpGenerate results rand t_iss t_exp t_now)
  then show ?thesis using generate_cache [of results rand t_iss t_exp t_now ts]
    by (simp only: synthesis_step.simps op_time.simps) blast
qed simp

lemma synthesis_step_ok: "synthesis_ok ts \<Longrightarrow> synthesis_ok (synthesis_step op ts)"
  using synthesis_step_cache [of op ts] capped.inv_check unfolding synthesis_ok_def by metis

interpretation synthesis: kept synthesis_step synthesis_ok
  by unfold_locales (rule synthesis_step_ok)

lemma TimeSynthesis_fresh: "TimeSynthesis cfg = Inr ts \<Longrightarrow> synthesis_ok ts"
  by (auto simp: TimeSynthesis_eq synthesis_ok_def nonce_cache_ok_def bindr_Inr split: if_splits)

text \<open>
  C15. The nonce cache never exceeds its capacity of 10000, nor holds a nonce twice,
  whatever proofs are verified and generated and whatever the clock does.
\<close>

theorem synthesis_cache_bounded:
  "length (usedNonces (fold synthesis_step ops \<lparr>ts_sources = srcs, usedNonces = []\<rparr>)) \<le> 10000 \<and>
   distinct (map fst (usedNonces (fold synthesis_step ops \<lparr>ts_sources = srcs, usedNonces = []\<rparr>)))"
proof -
  have "synthesis_ok \<lparr>ts_sources = srcs, usedNonces = []\<rparr>"
    by (simp add: synthesis_ok_def nonce_cache_ok_def)
  then have "synthesis_ok (fold synthesis_step ops \<lparr>ts_sources = srcs, usedNonces = []\<rparr>)"
    by (rule synthesis.run)
  then show ?thesis
    by (simp add: synthesis_ok_def nonce_cache_ok_def jm_ok_def MAX_NONCE_CACHE_def)
qed

text \<open>
  C6. No proof is accepted twice.  After a proof was accepted, the same verifier refuses
  every proof with that nonce for the five minutes of the time to live, whatever it
  verified and generated in between, up to 9999 operations (one fewer than the cache
  holds; with more, eviction may drop the nonce).
\<close>

theorem verify_no_replay:
  assumes "synthesis_ok ts" and "fst (verifyProofOfTime t_exp t_now pot ts)"
    and "pot_nonce pot' = pot_nonce pot"
    and "length ops \<le> 9999" and "\<forall>op \<in> set ops. op_time op \<le> t_now + NONCE_TTL_MS"
    and "t_now' \<le> t_now + NONCE_TTL_MS"
  shows "\<not> fst (verifyProofOfTime t_exp' t_now' pot'
           (fold synthesis_step ops (snd (verifyProofOfTime t_exp t_now pot ts))))"
proof -
  let ?check = "nonce_cache_step MAX_NONCE_CACHE NONCE_TTL_MS"
  have "\<not> fst (?check t_now' (pot_nonce pot)
            (usedNonces (fold synthesis_step ops (snd (verifyProofOfTime t_exp t_now pot ts)))))"
  proof (rule capped.no_replay [where cache = usedNonces and ?s0.0 = ts and ?t0.0 = t_now])
    show "nonce_cache_ok MAX_NONCE_CACHE (usedNonces ts)"
      using assms(1) by (simp add: synthesis_ok_def)
    show "fst (?check t_now (pot_nonce pot) (usedNonces ts))"
      using assms(2) unfolding verify_iff by blast
    show "usedNonces (snd (verifyProofOfTime t_exp t_now pot ts)) = snd (?check t_now (pot_nonce pot) (usedNonces ts))"
      by (rule verify_True_cache [OF assms(2)])
    show "usedNonces (synthesis_step op s) = usedNonces s \<or>
          (\<exists>t m. t \<le> t_now + NONCE_TTL_MS \<and> usedNonces (synthesis_step op s) = snd (?check t m (usedNonces s)))"
      if "op \<in> set ops" for op s
      using synthesis_step_cache [of op s] assms(5) that by blast
  qed (use assms(4,6) in simp_all)
  then show ?thesis unfolding verify_iff assms(3) by blast
qed


definition sample_pot :: proof_of_time where
  "sample_pot = \<lparr>pot_timestamp = 1000, pot_uncertainty = 500, pot_sources = 1, pot_stratum = 2,
     pot_confidence = 1, sourceReadings = [reading_entry (sample_reading ''nist'' 1000)],
     pot_nonce = ''ab'', expiresAt = 60000, issuerSignature = None\<rparr>"

lemma sample_pot_verifies: "fst (verifyProofOfTime 10 11 sample_pot sample_synthesis)"
  by (simp add: verify_iff sample_pot_def sample_synthesis_def nonce_cache_step_def MAX_NONCE_CACHE_def
      jm_has_def reading_entry_def sample_reading_def js_round_def getToleranceForStratum_def)

lemma sample_synthesis_ok: "synthesis_ok sample_synthesis"
  by (simp add: synthesis_ok_def nonce_cache_ok_def sample_synthesis_def)

lemma verify_no_replay_witness:
  "\<not> fst (verifyProofOfTime 20 21 sample_pot
       (fold synthesis_step [OpSynthesize [], OpVerify 12 13 (sample_pot\<lparr>pot_nonce := ''cd''\<rparr>)]
          (snd (verifyProofOfTime 10 11 sample_pot sample_synthesis))))"
  by (rule verify_no_replay [OF sample_synthesis_ok sample_pot_verifies])
     (simp_all add: NONCE_TTL_MS_def)

lemma generated_rejected:
  assumes "synthesis_ok ts"
    and "generateProofOfTime results rand t_iss t_exp t_now ts = (Fulfilled pot, ts')"
    and "t_iss \<le> t_now" and "t_now' \<le> t_exp' + 240000"
  shows "\<not> fst (verifyProofOfTime t_exp' t_now' pot ts')"
proof (cases "t_exp' \<le> expiresAt pot")
  case True
  have g: "expiresAt pot = t_iss + 60000" "fst (verifyProofOfTime t_exp t_now pot ts)"
      "ts' = snd (verifyProofOfTime t_exp t_now pot ts)"
    using generate_cases [OF assms(2)] by blast+
  have "t_now' \<le> t_now + NONCE_TTL_MS"
    using True g(1) assms(3,4) by (simp add: NONCE_TTL_MS_def)
  let ?check = "nonce_cache_step MAX_NONCE_CACHE NONCE_TTL_MS"
  have "\<not> fst (?check t_now' (pot_nonce pot) (usedNonces (fold synthesis_step [] ts')))"
    using assms(1) g(2) \<open>t_now' \<le> t_now + NONCE_TTL_MS\<close> verify_True_cache [OF g(2)]
    unfolding g(3) synthesis_ok_def verify_iff
    by (intro capped.no_replay [where cache = usedNonces and ?s0.0 = ts and ?t0.0 = t_now]) simp_all
  then show ?thesis unfolding verify_iff by simp
next
  case False
  then show ?thesis unfolding verify_iff by simp
qed

text \<open>
  The self-verification uses up the nonce: the instance that generated a proof refuses
  it ever after, as long as its clock does not run backwards and a verification takes less
  than four minutes.  Within the time to live the nonce is a duplicate, and after it the
  proof has expired.  Only another instance can verify it.
\<close>

theorem generated_never_reverified:
  assumes "synthesis_ok ts"
    and "generateProofOfTime results rand t_iss t_exp t_now ts = (Fulfilled pot, ts')"
    and "t_iss \<le> t_now" and "t_now' \<le> t_exp' + 240000"
  shows "\<not> fst (verifyProofOfTime t_exp' t_now' pot ts')"
  by (rule generated_rejected [OF assms])

lemma generated_never_reverified_witness:
  "\<exists>pot ts'. generateProofOfTime [Fulfilled (sample_reading ''nist'' 1000), Rejected (JsError ''x''),
      Fulfilled (sample_reading ''apple'' 1010)] (replicate 16 0xab) 50 51 52 sample_synthesis
      = (Fulfilled pot, ts') \<and> \<not> fst (verifyProofOfTime 60 61 pot ts')"
proof -
  obtain pot ts' where g: "generateProofOfTime [Fulfilled (sample_reading ''nist'' 1000), Rejected (JsError ''x''),
      Fulfilled (sample_reading ''apple'' 1010)] (replicate 16 0xab) 50 51 52 sample_synthesis
      = (Fulfilled pot, ts')"
    using generate_sample by blast
  have "\<not> fst (verifyProofOfTime 60 61 pot ts')"
    by (rule generated_never_reverified [OF sample_synthesis_ok g]) simp_all
  with g show ?thesis by blast
qed

section \<open>Every source answers\<close>

lemma https_step_keeps: "hc_result c = Some r \<Longrightarrow> hc_result (https_step parse_date src t1 ev c) = Some r"
  by (cases ev) (auto simp: https_step_def https_response_def Let_def split: option.splits)

lemma rt_step_keeps: "rx_result c = Some r \<Longrightarrow> rx_result (rt_step src ev c) = Some r"
  by (cases "(src, ev, c)" rule: rt_step.cases) (simp_all add: rx_finish_def)

interpretation https_promise: settles "https_step parse_date src t1" hc_result for parse_date src t1
  by unfold_locales (rule https_step_keeps)

interpretation exchange: settles "rt_step src" rx_result for src
  by unfold_locales (rule rt_step_keeps)

text \<open>A promise is settled with a value or a rejection, never with an exception that escaped.\<close>

definition settled_value :: "'a settle option \<Rightarrow> bool" where
  "settled_value r \<longleftrightarrow> (\<forall>e. r \<noteq> Some (Uncaught e))"

lemma settled_value_simps [simp]:
  "settled_value None" "settled_value (Some (Fulfilled v))" "settled_value (Some (Rejected e))"
  "\<not> settled_value (Some (Uncaught e))"
  by (simp_all add: settled_value_def)

lemma settled_value_once [simp]: "settled_value cur \<Longrightarrow> settled_value (settle_once (Fulfilled v) cur)"
  "settled_value cur \<Longrightarrow> settled_value (settle_once (Rejected e) cur)"
  by (cases cur; simp)+

lemma https_value: "settled_value (hc_result c) \<Longrightarrow> settled_value (hc_result (https_step parse_date src t1 ev c))"
  by (cases ev) (auto simp: https_step_def https_response_def Let_def split: option.splits)

lemma rt_value: "settled_value (rx_result c) \<Longrightarrow> settled_value (rx_result (rt_step src ev c))"
  by (cases "(src, ev, c)" rule: rt_step.cases) (simp_all add: rx_finish_def)

interpretation https_values: kept "https_step parse_date src t1" "\<lambda>c. settled_value (hc_result c)" for parse_date src t1
  by unfold_locales (rule https_value)

interpretation rt_values: kept "rt_step src" "\<lambda>c. settled_value (rx_result c)" for src
  by unfold_locales (rule rt_value)

lemma ntp_message_value: "settled_value (Some (ntp_message src t1 t4 msg))"
  by (simp add: ntp_message_def Let_def)

lemma ntp_value: "settled_value (ntp_getTime env src)"
proof -
  have v: "settled_value (ntp_event_settles src t1 e)" for t1 e
    by (cases "(src, t1, e)" rule: ntp_event_settles.cases) (simp_all add: ntp_message_value)
  have "settled_value (first_settle (ntp_event_settles src t1) es)" for t1 es
    by (induction es) (simp, metis v first_settle.simps(2) option.case_eq_if option.collapse)
  then show ?thesis by (simp add: ntp_getTime_def)
qed

lemma first_settle_prefix: "f e = Some r \<Longrightarrow> \<exists>r. \<forall>es'. first_settle f (es @ e # es') = Some r"
proof (induction es)
  case (Cons a es)
  then show ?case by (cases "f a") simp_all
qed simp

lemma ntp_timer: "\<exists>r. settled_value (Some r) \<and> (\<forall>later. ntp_getTime (t1, es @ NtpTimeout # later) src = Some r)"
proof -
  obtain r where r: "\<And>later. ntp_getTime (t1, es @ NtpTimeout # later) src = Some r"
    using first_settle_prefix [of "ntp_event_settles src (t1 * 1000000)" NtpTimeout] unfolding ntp_getTime_def by force
  then show ?thesis using ntp_value [of "(t1, es @ [NtpTimeout])" src] by auto
qed

lemma https_timer:
  "\<exists>r. settled_value (Some r) \<and>
     (\<forall>later. https_getTime parse_date (t1, es @ HttpsTimeout # later) src =
        Some (if \<exists>ev \<in> set (es @ later). throws_out parse_date ev then Uncaught bad_date else r))"
proof (cases "\<exists>ev \<in> set es. throws_out parse_date ev")
  case True
  then have "https_getTime parse_date (t1, es @ HttpsTimeout # later) src = Some (Uncaught bad_date)" for later
    using https_run_crash [of parse_date t1 "es @ HttpsTimeout # later" src] by (auto simp: https_getTime_def https_outcome_def)
  then show ?thesis using True by (intro exI [of _ "Rejected bad_date"]) auto
next
  case False
  let ?c = "https_run parse_date (t1, es) src"
  let ?d = "https_step parse_date src (t1 * 1000000) HttpsTimeout ?c"
  have "timer_ok ?c" unfolding https_run_def by (rule https_timers.run) (simp add: timer_ok_def new_https_call_def)
  then have "hc_result ?d \<noteq> None"
    using https_run_crash [of parse_date t1 es src] False by (auto simp: https_step_def timer_ok_def)
  then obtain r where r: "hc_result ?d = Some r" by blast
  have "settled_value (hc_result (https_run parse_date (t1, es @ [HttpsTimeout]) src))"
    unfolding https_run_def by (rule https_values.run) (simp add: new_https_call_def)
  then have v: "settled_value (Some r)" using r by (simp add: https_run_snoc)
  have "hc_result (https_run parse_date (t1, es @ HttpsTimeout # later) src) = Some r" for later
  proof -
    have "hc_result (fold (https_step parse_date src (t1 * 1000000)) later ?d) = Some r"
      by (rule https_promise.result.run [OF r])
    then show ?thesis by (simp add: https_run_def)
  qed
  then have "https_getTime parse_date (t1, es @ HttpsTimeout # later) src =
        Some (if \<exists>ev \<in> set (es @ later). throws_out parse_date ev then Uncaught bad_date else r)" for later
    using https_run_crash [of parse_date t1 "es @ HttpsTimeout # later" src]
    by (auto simp: https_getTime_def https_outcome_def)
  then show ?thesis using v by blast
qed

lemma rt_timer:
  "\<exists>r. settled_value (Some r) \<and> (\<forall>later. rx_result (sendAndReceive src (es @ RtTimeout # later)) = Some r)"
proof -
  have "rx_ok (rt_step src RtTimeout (fold (rt_step src) es rx_start))"
    by (intro rt_step_ok rx.run) (simp add: rx_ok_def rx_start_def)
  then have "rx_result (rt_step src RtTimeout (fold (rt_step src) es rx_start)) \<noteq> None"
    by (auto simp: rx_ok_def)
  then obtain r where r: "\<And>later. rx_result (sendAndReceive src (es @ RtTimeout # later)) = Some r"
    unfolding sendAndReceive_def using exchange.settled_for_good by blast
  have "settled_value (rx_result (sendAndReceive src (es @ [RtTimeout])))"
    unfolding sendAndReceive_def by (rule rt_values.run) (simp add: rx_start_def)
  then show ?thesis using r by auto
qed


end
