(* ===== verification/Json.thy ===== *)
theory Json
  imports Errors JsMap Bytes
begin

text \<open>
  JSON values as trees, between \<open>JSON.stringify\<close> and \<open>JSON.parse\<close>; the text itself is the
  standard library's.  An in-memory object may also hold a \<open>BigInt\<close> (\<open>JBig\<close>), which the
  replacer of the serializers turns into its decimal string.
\<close>

datatype json =
    JNull
  | JBool bool
  | JNum rat
  | JBig int
  | JStr string
  | JArr "json list"
  | JObj "(string \<times> json) list"

text \<open>The replacer \<open>(key, value) => typeof value === 'bigint' ? value.toString() : value\<close>.\<close>

fun bigint_replacer :: "json \<Rightarrow> json" where
  "bigint_replacer (JBig i) = JStr (show_int i)"
| "bigint_replacer (JArr xs) = JArr (map bigint_replacer xs)"
| "bigint_replacer (JObj fs) = JObj (map (\<lambda>(k, v). (k, bigint_replacer v)) fs)"
| "bigint_replacer v = v"

text \<open>What an \<open>if\<close>, \<open>||\<close> or \<open>!\<close> makes of a property that may be missing.\<close>

fun js_truthy :: "json option \<Rightarrow> bool" where
  "js_truthy None = False"
| "js_truthy (Some JNull) = False"
| "js_truthy (Some (JBool b)) = b"
| "js_truthy (Some (JNum r)) = (r \<noteq> 0)"
| "js_truthy (Some (JBig i)) = (i \<noteq> 0)"
| "js_truthy (Some (JStr s)) = (s \<noteq> [])"
| "js_truthy (Some (JArr xs)) = True"
| "js_truthy (Some (JObj fs)) = True"

section \<open>The BigInt conversion\<close>

definition js_space :: "char \<Rightarrow> bool" where
  "js_space c \<longleftrightarrow> of_char c \<in> {9, 10, 11, 12, 13, 32, 160 :: nat}"

definition js_trim :: "string \<Rightarrow> string" where
  "js_trim s = rev (dropWhile js_space (rev (dropWhile js_space s)))"

fun read_radix :: "nat \<Rightarrow> nat \<Rightarrow> string \<Rightarrow> nat option" where
  "read_radix b acc [] = Some acc"
| "read_radix b acc (c # cs) =
     (case hex_val c of
        None \<Rightarrow> None
      | Some d \<Rightarrow> if d < b then read_radix b (b * acc + d) cs else None)"

definition string_to_bigint :: "string \<Rightarrow> int option" where
  "string_to_bigint s =
     (let t = js_trim s; radix = (\<lambda>b. map_option int (read_radix b 0 (drop 2 t))) in
      if t = [] then Some 0
      else if 3 \<le> length t \<and> t ! 0 = CHR ''0'' \<and> t ! 1 \<in> {CHR ''x'', CHR ''X''} then radix 16
      else if 3 \<le> length t \<and> t ! 0 = CHR ''0'' \<and> t ! 1 \<in> {CHR ''o'', CHR ''O''} then radix 8
      else if 3 \<le> length t \<and> t ! 0 = CHR ''0'' \<and> t ! 1 \<in> {CHR ''b'', CHR ''B''} then radix 2
      else if t ! 0 = CHR ''+'' then
        (if length t = 1 then None else map_option int (read_digits 0 (tl t)))
      else read_int t)"

text \<open>
  \<open>BigInt(v)\<close>, with \<open>None\<close> for \<open>undefined\<close>.  (An array whose text is a number, such as
  \<open>[5]\<close>, would be converted; here arrays and objects are the syntax error most of them are.)
\<close>

fun js_BigInt :: "json option \<Rightarrow> js_exn + int" where
  "js_BigInt None = Inl (TypeError ''Cannot convert undefined to a BigInt'')"
| "js_BigInt (Some JNull) = Inl (TypeError ''Cannot convert null to a BigInt'')"
| "js_BigInt (Some (JBool b)) = Inr (if b then 1 else 0)"
| "js_BigInt (Some (JNum r)) =
     (if of_int \<lfloor>r\<rfloor> = r then Inr \<lfloor>r\<rfloor>
      else Inl (RangeError ''The number cannot be converted to a BigInt because it is not an integer''))"
| "js_BigInt (Some (JBig i)) = Inr i"
| "js_BigInt (Some (JStr s)) =
     need (SyntaxError (''Cannot convert '' @ s @ '' to a BigInt'')) (string_to_bigint s)"
| "js_BigInt (Some (JArr xs)) = Inl (SyntaxError ''Cannot convert an array to a BigInt'')"
| "js_BigInt (Some (JObj fs)) = Inl (SyntaxError ''Cannot convert [object Object] to a BigInt'')"

text \<open>Property access: a \<open>TypeError\<close> on \<open>null\<close>, \<open>undefined\<close> on values without the property.\<close>

fun js_prop :: "string \<Rightarrow> json \<Rightarrow> js_exn + json option" where
  "js_prop k JNull = Inl (TypeError (''Cannot read properties of null (reading '' @ k @ '')''))"
| "js_prop k (JObj fs) = Inr (jm_get k fs)"
| "js_prop k _ = Inr None"

text \<open>
  The own properties an object spread copies: those of an object, and the indexed entries of an
  array and of a text.
\<close>

definition js_indexed :: "json list \<Rightarrow> (string \<times> json) list" where
  "js_indexed xs = zip (map (\<lambda>i. show_int (int i)) [0..<length xs]) xs"

fun js_fields :: "json \<Rightarrow> (string \<times> json) list" where
  "js_fields (JObj fs) = fs"
| "js_fields (JArr xs) = js_indexed xs"
| "js_fields (JStr s) = js_indexed (map (\<lambda>c. JStr [c]) s)"
| "js_fields _ = []"

fun map_result :: "('a \<Rightarrow> 'e + 'b) \<Rightarrow> 'a list \<Rightarrow> 'e + 'b list" where
  "map_result f [] = Inr []"
| "map_result f (x # xs) = bindr (f x) (\<lambda>y. bindr (map_result f xs) (\<lambda>ys. Inr (y # ys)))"

lemma map_result_all: "(\<And>x. x \<in> set xs \<Longrightarrow> f x = Inr (g x)) \<Longrightarrow> map_result f xs = Inr (map g xs)"
  by (induction xs) simp_all

section \<open>Decimal strings read back\<close>

lemma dropWhile_id: "(xs \<noteq> [] \<Longrightarrow> \<not> P (hd xs)) \<Longrightarrow> dropWhile P xs = xs"
  by (cases xs) simp_all

lemma show_int_chars:
  assumes "c \<in> set (show_int i)"
  shows "of_char c = (45 :: nat) \<or> (48 \<le> (of_char c :: nat) \<and> (of_char c :: nat) \<le> 57)"
proof -
  have "c = CHR ''-'' \<or> (\<exists>d < 10. c = char_of (48 + d :: nat))"
    using assms set_nat_digits by (fastforce simp: show_int_def split: if_splits)
  then show ?thesis by (auto simp: of_char_of)
qed

lemma show_int_not_space: "c \<in> set (show_int i) \<Longrightarrow> \<not> js_space c"
  by (auto simp: js_space_def dest!: show_int_chars)

lemma show_int_nonempty [simp]: "show_int i \<noteq> []"
  by (simp add: show_int_def)

lemma trim_show_int [simp]: "js_trim (show_int i) = show_int i"
proof -
  have "dropWhile js_space (show_int i) = show_int i"
    by (rule dropWhile_id) (metis hd_in_set show_int_not_space)
  moreover have "dropWhile js_space (rev (show_int i)) = rev (show_int i)"
    by (rule dropWhile_id) (metis hd_in_set set_rev show_int_not_space)
  ultimately show ?thesis by (simp add: js_trim_def)
qed

lemma string_to_bigint_show [simp]: "string_to_bigint (show_int i) = Some i"
proof -
  have letters: "c \<notin> {CHR ''x'', CHR ''X'', CHR ''o'', CHR ''O'', CHR ''b'', CHR ''B'', CHR ''+''}"
    if "c \<in> set (show_int i)" for c
    using show_int_chars [OF that] by auto
  have l: "3 \<le> length (show_int i) \<Longrightarrow> show_int i ! 1 \<in> set (show_int i)"
    by (rule nth_mem) simp
  have "show_int i ! 0 \<in> set (show_int i)" by (rule nth_mem) simp
  from letters [OF this] have "show_int i ! 0 \<noteq> CHR ''+''" by simp
  moreover have n: "\<not> (3 \<le> length (show_int i) \<and> show_int i ! 0 = CHR ''0'' \<and> show_int i ! 1 \<in> {a, b})"
    if "a \<in> {CHR ''x'', CHR ''o'', CHR ''b''}" "b \<in> {CHR ''X'', CHR ''O'', CHR ''B''}" for a b
    using letters [OF l] that by auto
  have "\<not> (3 \<le> length (show_int i) \<and> show_int i ! 0 = CHR ''0'' \<and> show_int i ! 1 \<in> {CHR ''x'', CHR ''X''})"
    and "\<not> (3 \<le> length (show_int i) \<and> show_int i ! 0 = CHR ''0'' \<and> show_int i ! 1 \<in> {CHR ''o'', CHR ''O''})"
    and "\<not> (3 \<le> length (show_int i) \<and> show_int i ! 0 = CHR ''0'' \<and> show_int i ! 1 \<in> {CHR ''b'', CHR ''B''})"
    by (rule n, simp, simp)+
  then show ?thesis
    using calculation unfolding string_to_bigint_def trim_show_int Let_def
    by (simp only: if_False not_False_eq_True show_int_nonempty read_show_int)
qed

lemma js_BigInt_show [simp]: "js_BigInt (Some (JStr (show_int i))) = Inr i"
  by simp

end
