(* ===== verification/PotSerial.thy ===== *)
theory PotSerial
  imports TimeTypes Json
begin

text \<open>
  The two serial forms of a proof of time in \<open>src/time_synthesis.ts\<close>: JSON, as a tree, and
  the compact binary layout, with IEEE binary32 numbers and Node's range errors.
\<close>

section \<open>JSON\<close>

text \<open>The object in memory, with its properties in the order they are created.\<close>

definition reading_object :: "source_reading \<Rightarrow> json" where
  "reading_object r =
     JObj ([(''source'', JStr (sr_source r)), (''timestamp'', JBig (sr_timestamp r)),
            (''uncertainty'', JNum (sr_uncertainty r))]
           @ (case sr_stratum r of None \<Rightarrow> [] | Some k \<Rightarrow> [(''stratum'', JNum (of_int k))]))"

definition signature_object :: "pot_signature \<Rightarrow> json" where
  "signature_object s =
     JObj [(''issuerPubKey'', JStr (issuerPubKey s)), (''signature'', JStr (sig_signature s)),
           (''issuedAt'', JBig (issuedAt s))]"

definition pot_object :: "(pot_signature \<Rightarrow> json) \<Rightarrow> proof_of_time \<Rightarrow> json" where
  "pot_object sig_form pot =
     JObj ([(''timestamp'', JBig (pot_timestamp pot)), (''uncertainty'', JNum (pot_uncertainty pot)),
            (''sources'', JNum (of_nat (pot_sources pot))), (''stratum'', JNum (of_int (pot_stratum pot))),
            (''confidence'', JNum (pot_confidence pot)),
            (''sourceReadings'', JArr (map reading_object (sourceReadings pot))),
            (''nonce'', JStr (pot_nonce pot)), (''expiresAt'', JBig (expiresAt pot))]
           @ (case issuerSignature pot of None \<Rightarrow> [] | Some s \<Rightarrow> [(''issuerSignature'', sig_form s)]))"

definition serializeToJSON :: "proof_of_time \<Rightarrow> json" where
  "serializeToJSON pot = bigint_replacer (pot_object signature_object pot)"

definition parse_reading :: "json \<Rightarrow> js_exn + json" where
  "parse_reading s =
     bindr (js_prop ''timestamp'' s) (\<lambda>ts.
     bindr (js_BigInt ts) (\<lambda>t. Inr (JObj (jm_set ''timestamp'' (JBig t) (js_fields s)))))"

definition deserializeFromJSON :: "json \<Rightarrow> js_exn + json" where
  "deserializeFromJSON data =
     bindr (js_prop ''timestamp'' data) (\<lambda>ts. bindr (js_BigInt ts) (\<lambda>t.
     bindr (js_prop ''expiresAt'' data) (\<lambda>ex. bindr (js_BigInt ex) (\<lambda>e.
     bindr (js_prop ''sourceReadings'' data) (\<lambda>sr.
     bindr (case sr of
              Some (JArr xs) \<Rightarrow> map_result parse_reading xs
            | Some JNull \<Rightarrow> Inl (TypeError ''Cannot read properties of null (reading 'map')'')
            | Some _ \<Rightarrow> Inl (TypeError ''data.sourceReadings.map is not a function'')
            | None \<Rightarrow> Inl (TypeError ''Cannot read properties of undefined (reading 'map')'')) (\<lambda>rs.
     Inr (JObj (jm_set ''sourceReadings'' (JArr rs)
           (jm_set ''expiresAt'' (JBig e) (jm_set ''timestamp'' (JBig t) (js_fields data)))))))))))"

lemma parse_reading_object: "parse_reading (bigint_replacer (reading_object r)) = Inr (reading_object r)"
  by (cases "sr_stratum r")
     (simp_all add: parse_reading_def reading_object_def jm_get_def jm_set_def jm_has_def need_def)

lemma json_codec:
  "deserializeFromJSON (serializeToJSON pot) =
     Inr (pot_object (\<lambda>s. JObj [(''issuerPubKey'', JStr (issuerPubKey s)),
            (''signature'', JStr (sig_signature s)), (''issuedAt'', JStr (show_int (issuedAt s)))]) pot)"
proof -
  have "map_result parse_reading (map (\<lambda>r. bigint_replacer (reading_object r)) rs) = Inr (map reading_object rs)"
    for rs by (induction rs) (simp_all add: parse_reading_object)
  then show ?thesis
    by (cases "issuerSignature pot")
       (simp_all add: deserializeFromJSON_def serializeToJSON_def pot_object_def signature_object_def
          jm_get_def jm_set_def jm_has_def need_def comp_def)
qed

text \<open>
  C20. The JSON form of a proof of time is read back as the same object, with one
  exception the code makes: the three times it knows are turned back into \<open>BigInt\<close>s, but a
  signature keeps its \<open>issuedAt\<close> as a decimal string.
\<close>

theorem json_round_trip:
  "deserializeFromJSON (serializeToJSON pot) =
     Inr (pot_object (\<lambda>s. JObj [(''issuerPubKey'', JStr (issuerPubKey s)),
            (''signature'', JStr (sig_signature s)), (''issuedAt'', JStr (show_int (issuedAt s)))]) pot)"
  by (rule json_codec)

lemma reading_object_inject: "reading_object r = reading_object r' \<longleftrightarrow> r = r'"
  by (cases r; cases r') (auto simp: reading_object_def split: option.splits)

lemma pot_object_inject:
  assumes f: "\<And>s s'. f s = f s' \<Longrightarrow> s = s'" and eq: "pot_object f pot = pot_object f pot'"
  shows "pot = pot'"
proof (rule proof_of_time.equality)
  have "map reading_object (sourceReadings pot) = map reading_object (sourceReadings pot')"
    using eq by (simp add: pot_object_def)
  then show "sourceReadings pot = sourceReadings pot'"
    by (rule map_injective) (simp add: inj_def reading_object_inject)
  show "issuerSignature pot = issuerSignature pot'"
    using eq by (cases "issuerSignature pot"; cases "issuerSignature pot'") (simp_all add: pot_object_def f)
qed (use eq in \<open>simp_all add: pot_object_def\<close>)

definition text_signature :: "pot_signature \<Rightarrow> json" where
  "text_signature s = JObj [(''issuerPubKey'', JStr (issuerPubKey s)),
     (''signature'', JStr (sig_signature s)), (''issuedAt'', JStr (show_int (issuedAt s)))]"

lemma text_signature_inject: "text_signature s = text_signature s' \<Longrightarrow> s = s'"
  by (cases s; cases s') (simp add: text_signature_def)

interpretation json_form: lossless_codec serializeToJSON deserializeFromJSON "\<lambda>_. True"
  "\<lambda>pot. Inr (pot_object text_signature pot)"
proof unfold_locales
  show "deserializeFromJSON (serializeToJSON x) = Inr (pot_object text_signature x)" for x
    by (simp add: json_codec text_signature_def [abs_def])
  show "inj_on (\<lambda>pot. Inr (pot_object text_signature pot) :: js_exn + json) {x. True}"
    by (rule inj_onI) (simp, rule pot_object_inject [OF text_signature_inject])
qed

section \<open>IEEE binary32\<close>

text \<open>
  \<open>writeFloatBE\<close> rounds to the nearest binary32 number, ties to even.  Every finite one is a
  multiple of \<open>2 ^ -149\<close>, so the value is scaled to that unit; the shift is the number of
  low bits that do not fit the 24-bit significand.  (The sign of zero is not modelled.)
\<close>

fun f32_shift :: "nat \<Rightarrow> nat" where
  "f32_shift n = (if n < 2 ^ 24 then 0 else Suc (f32_shift (n div 2)))"

declare f32_shift.simps [simp del]

definition round_half_even :: "rat \<Rightarrow> int" where
  "round_half_even x =
     (let f = \<lfloor>x\<rfloor>; d = x - of_int f in
      if d < 1 / 2 then f else if d > 1 / 2 then f + 1 else if even f then f else f + 1)"

definition f32_magnitude :: "rat \<Rightarrow> nat" where
  "f32_magnitude a =
     (let A = a * 2 ^ 149; s = f32_shift (nat \<lfloor>A\<rfloor>);
          b = s * 2 ^ 23 + nat (round_half_even (A / 2 ^ s))
      in if 255 * 2 ^ 23 \<le> b then 255 * 2 ^ 23 else b)"

definition f32_encode :: "rat \<Rightarrow> nat" where
  "f32_encode x = (if x < 0 then 2 ^ 31 + f32_magnitude (- x) else f32_magnitude x)"

text \<open>\<open>readFloatBE\<close>; \<open>None\<close> for the infinities and \<open>NaN\<close>.\<close>

definition f32_decode :: "nat \<Rightarrow> rat option" where
  "f32_decode bits =
     (let neg = (2 ^ 31 \<le> bits); b = bits mod 2 ^ 31; e = b div 2 ^ 23; m = b mod 2 ^ 23;
          v = (if e = 0 then of_nat m / 2 ^ 149 else of_nat ((2 ^ 23 + m) * 2 ^ (e - 1)) / 2 ^ 149)
      in if e = 255 then None else Some (if neg then - v else v))"

text \<open>The finite binary32 magnitudes: a significand below \<open>2 ^ 24\<close>, full unless subnormal.\<close>

definition f32_canonical :: "nat \<Rightarrow> nat \<Rightarrow> bool" where
  "f32_canonical q s \<longleftrightarrow> q < 2 ^ 24 \<and> s \<le> 253 \<and> (s = 0 \<or> 2 ^ 23 \<le> q)"

definition f32_exact :: "rat \<Rightarrow> bool" where
  "f32_exact x \<longleftrightarrow> (\<exists>q s. f32_canonical q s \<and> \<bar>x\<bar> = of_nat (q * 2 ^ s) / 2 ^ 149)"

lemma f32_shift_canonical: "q < 2 ^ 24 \<Longrightarrow> s = 0 \<or> 2 ^ 23 \<le> q \<Longrightarrow> f32_shift (q * 2 ^ s) = s"
proof (induction s)
  case 0
  then show ?case by (subst f32_shift.simps) simp
next
  case (Suc s)
  have "2 ^ 23 * 2 ^ Suc 0 \<le> q * 2 ^ Suc s"
    using Suc.prems by (intro mult_le_mono power_increasing) simp_all
  then have "\<not> q * 2 ^ Suc s < 2 ^ 24" by simp
  moreover have "q * 2 ^ Suc s div 2 = q * 2 ^ s" by simp
  ultimately show ?case using Suc by (subst f32_shift.simps) simp
qed

lemma round_half_even_of_nat [simp]: "round_half_even (of_nat n) = int n"
  by (simp add: round_half_even_def)

lemma f32_magnitude_canonical:
  assumes "f32_canonical q s"
  shows "f32_magnitude (of_nat (q * 2 ^ s) / 2 ^ 149) = s * 2 ^ 23 + q"
proof -
  have q: "q < 2 ^ 24" "s \<le> 253" "s = 0 \<or> 2 ^ 23 \<le> q" using assms by (auto simp: f32_canonical_def)
  have A: "of_nat (q * 2 ^ s) / 2 ^ 149 * 2 ^ 149 = (of_nat (q * 2 ^ s) :: rat)" by simp
  have "nat \<lfloor>of_nat (q * 2 ^ s) :: rat\<rfloor> = q * 2 ^ s" by (simp only: floor_of_nat nat_int)
  then have s: "f32_shift (nat \<lfloor>of_nat (q * 2 ^ s) :: rat\<rfloor>) = s"
    using f32_shift_canonical [OF q(1,3)] by (simp only:)
  have "of_nat (q * 2 ^ s) / 2 ^ s = (of_nat q :: rat)" by simp
  moreover have "s * 2 ^ 23 \<le> 253 * 2 ^ 23" using q(2) by simp
  then have "\<not> 255 * 2 ^ 23 \<le> s * 2 ^ 23 + q" using q(1) by simp
  ultimately show ?thesis
    unfolding f32_magnitude_def Let_def A s by (simp only: round_half_even_of_nat nat_int if_False)
qed

lemma f32_decode_canonical:
  assumes "f32_canonical q s"
  shows "f32_decode (s * 2 ^ 23 + q) = Some (of_nat (q * 2 ^ s) / 2 ^ 149)"
    and "f32_decode (2 ^ 31 + (s * 2 ^ 23 + q)) = Some (- (of_nat (q * 2 ^ s) / 2 ^ 149))"
proof -
  have q: "q < 2 ^ 24" "s \<le> 253" "s = 0 \<or> 2 ^ 23 \<le> q" using assms by (auto simp: f32_canonical_def)
  let ?b = "s * 2 ^ 23 + q"
  have "s * 2 ^ 23 \<le> 253 * 2 ^ 23" using q(2) by simp
  then have b: "?b < 2 ^ 31" using q(1) by simp
  have parts: "(?b div 2 ^ 23 = 0 \<and> ?b mod 2 ^ 23 = q \<and> s = 0) \<or>
     (?b div 2 ^ 23 = Suc s \<and> 2 ^ 23 + ?b mod 2 ^ 23 = q)"
  proof (cases "q < 2 ^ 23")
    case True
    with q(3) show ?thesis by simp
  next
    case False
    then obtain r where r: "q = 2 ^ 23 + r" using le_Suc_ex not_less by blast
    then have "r < 2 ^ 23" using q(1) by simp
    then show ?thesis unfolding r by (simp add: div_add1_eq [of "s * 2 ^ 23"] mod_add_eq)
  qed
  have e: "?b div 2 ^ 23 \<noteq> 255" using parts q(2) by auto
  have v: "(if ?b div 2 ^ 23 = 0 then of_nat (?b mod 2 ^ 23) / 2 ^ 149
            else of_nat ((2 ^ 23 + ?b mod 2 ^ 23) * 2 ^ (?b div 2 ^ 23 - 1)) / 2 ^ 149)
          = (of_nat (q * 2 ^ s) / 2 ^ 149 :: rat)"
    using parts by (elim disjE conjE) (simp_all only: if_True if_False simp_thms nat.distinct diff_Suc_1 power_0 mult_1_right)
  show "f32_decode ?b = Some (of_nat (q * 2 ^ s) / 2 ^ 149)"
    using b e v unfolding f32_decode_def Let_def
    by (simp only: mod_less if_False not_le [THEN iffD2, OF b])
  have m: "(2 ^ 31 + ?b) mod 2 ^ 31 = ?b" using b by (simp only: mod_add_self1 mod_less)
  show "f32_decode (2 ^ 31 + ?b) = Some (- (of_nat (q * 2 ^ s) / 2 ^ 149))"
    using e v unfolding f32_decode_def Let_def m by (simp only: le_add1 if_True if_False)
qed

lemma f32_bits_bound: "f32_encode x < 2 ^ 32"
  by (simp add: f32_encode_def f32_magnitude_def Let_def)

lemma f32_round_trip:
  assumes "f32_exact x"
  shows "f32_decode (f32_encode x) = Some x"
proof -
  obtain q s where c: "f32_canonical q s" and x: "\<bar>x\<bar> = of_nat (q * 2 ^ s) / 2 ^ 149"
    using assms by (auto simp only: f32_exact_def)
  show ?thesis
  proof (cases "x < 0")
    case True
    then have "- x = of_nat (q * 2 ^ s) / 2 ^ 149" using x by simp
    then show ?thesis
      unfolding f32_encode_def using True f32_magnitude_canonical [OF c] f32_decode_canonical(2) [OF c]
      by (metis minus_minus)
  next
    case False
    then have "x = of_nat (q * 2 ^ s) / 2 ^ 149" using x by simp
    then show ?thesis
      unfolding f32_encode_def using False f32_magnitude_canonical [OF c] f32_decode_canonical(1) [OF c]
      by metis
  qed
qed

text \<open>A number that is not a binary32 number is rounded to one, unless it is too large.\<close>

lemma f32_shift_fits: "n < 2 ^ 24 * 2 ^ f32_shift n"
proof (induction n rule: f32_shift.induct)
  case (1 n)
  show ?case
  proof (cases "n < 2 ^ 24")
    case True
    then show ?thesis by (subst f32_shift.simps) simp
  next
    case False
    then have "n div 2 < 2 ^ 24 * 2 ^ f32_shift (n div 2)" by (rule 1)
    moreover have "f32_shift n = Suc (f32_shift (n div 2))" using False by (subst f32_shift.simps) simp
    ultimately show ?thesis by simp
  qed
qed

lemma f32_shift_le: "n < 2 ^ 24 * 2 ^ k \<Longrightarrow> f32_shift n \<le> k"
proof (induction k arbitrary: n)
  case 0
  then show ?case by (subst f32_shift.simps) simp
next
  case (Suc k)
  then have "n div 2 < 2 ^ 24 * 2 ^ k" by simp
  then show ?case using Suc.IH [of "n div 2"] by (subst f32_shift.simps) simp
qed

lemma round_half_even_bounds: "\<lfloor>x\<rfloor> \<le> round_half_even x" "round_half_even x \<le> \<lfloor>x\<rfloor> + 1"
  by (simp_all add: round_half_even_def Let_def)

lemma f32_magnitude_finite:
  assumes "0 \<le> a" and "a < 2 ^ 127"
  shows "f32_magnitude a < 255 * 2 ^ 23"
proof -
  define n where "n = nat \<lfloor>a * 2 ^ 149\<rfloor>"
  define s where "s = f32_shift n"
  have "a * 2 ^ 149 < 2 ^ 127 * (2 ^ 149 :: rat)" using assms(2) by (intro mult_strict_right_mono) simp_all
  then have "a * 2 ^ 149 < of_int (2 ^ 276)" by (simp add: power_add [symmetric])
  then have "\<lfloor>a * 2 ^ 149\<rfloor> < 2 ^ 276" by (simp only: floor_less_iff)
  then have "n < 2 ^ 24 * 2 ^ 252" using assms(1) by (simp add: n_def nat_less_iff power_add [symmetric])
  then have s: "s \<le> 252" unfolding s_def by (rule f32_shift_le)
  have "n + 1 \<le> 2 ^ 24 * 2 ^ s" using f32_shift_fits [of n] by (simp add: s_def)
  then have "of_nat (n + 1) \<le> (of_nat (2 ^ 24 * 2 ^ s) :: rat)" by (simp only: of_nat_le_iff)
  moreover have "a * 2 ^ 149 < of_nat (n + 1)"
    using assms(1) floor_correct [of "a * 2 ^ 149"] by (simp add: n_def of_nat_nat)
  ultimately have "a * 2 ^ 149 < 2 ^ 24 * 2 ^ s" by simp
  then have "a * 2 ^ 149 / 2 ^ s < of_int (2 ^ 24)" by (simp add: pos_divide_less_eq)
  then have "\<lfloor>a * 2 ^ 149 / 2 ^ s\<rfloor> < 2 ^ 24" by (simp only: floor_less_iff)
  then have "round_half_even (a * 2 ^ 149 / 2 ^ s) \<le> 2 ^ 24"
    using round_half_even_bounds(2) [of "a * 2 ^ 149 / 2 ^ s"] by linarith
  then have "nat (round_half_even (a * 2 ^ 149 / 2 ^ s)) \<le> 2 ^ 24" by (simp add: nat_le_iff)
  moreover have "s * 2 ^ 23 \<le> 252 * 2 ^ 23" using s by simp
  ultimately have "s * 2 ^ 23 + nat (round_half_even (a * 2 ^ 149 / 2 ^ s)) < 255 * 2 ^ 23" by simp
  moreover have "f32_magnitude a = (let b = s * 2 ^ 23 + nat (round_half_even (a * 2 ^ 149 / 2 ^ s)) in
      if 255 * 2 ^ 23 \<le> b then 255 * 2 ^ 23 else b)"
    by (simp only: f32_magnitude_def Let_def n_def s_def)
  ultimately show ?thesis by (simp add: Let_def)
qed

lemma f32_magnitude_pos:
  assumes "1 \<le> a * 2 ^ 149"
  shows "0 < f32_magnitude a"
proof -
  define A where "A = a * 2 ^ 149"
  define s where "s = f32_shift (nat \<lfloor>A\<rfloor>)"
  have "1 \<le> \<lfloor>A\<rfloor>" using assms by (simp add: le_floor_iff A_def)
  then have "0 < nat (round_half_even A)" using round_half_even_bounds(1) [of A] by linarith
  then have "0 < s * 2 ^ 23 + nat (round_half_even (A / 2 ^ s))" by (cases s) simp_all
  moreover have "f32_magnitude a = (let b = s * 2 ^ 23 + nat (round_half_even (A / 2 ^ s)) in
      if 255 * 2 ^ 23 \<le> b then 255 * 2 ^ 23 else b)"
    by (simp only: f32_magnitude_def Let_def A_def s_def)
  ultimately show ?thesis by (simp add: Let_def)
qed

lemma f32_decode_finite:
  assumes "b < 255 * 2 ^ 23"
  shows "\<exists>y. f32_decode b = Some y \<and> (0 < b \<longrightarrow> 0 < y)" and "\<exists>y. f32_decode (2 ^ 31 + b) = Some y"
proof -
  have lt: "b < 2 ^ 31" using assms by simp
  have e: "b div 2 ^ 23 \<noteq> 255" using assms by (auto simp: div_eq_dividend_iff)
  have m: "(2 ^ 31 + b) mod 2 ^ 31 = b" using lt by (simp only: mod_add_self1 mod_less)
  have pos: "0 < b mod 2 ^ 23" if "0 < b" "b div 2 ^ 23 = 0"
    using that div_mult_mod_eq [of b "2 ^ 23"] by simp
  show "\<exists>y. f32_decode b = Some y \<and> (0 < b \<longrightarrow> 0 < y)"
    using e pos unfolding f32_decode_def Let_def
    by (simp only: mod_less [OF lt] if_False not_le [THEN iffD2, OF lt]) auto
  show "\<exists>y. f32_decode (2 ^ 31 + b) = Some y"
    using e unfolding f32_decode_def Let_def m by simp
qed

lemma f32_rounds: "\<bar>x\<bar> < 2 ^ 127 \<Longrightarrow> \<exists>y. f32_decode (f32_encode x) = Some y"
  using f32_decode_finite f32_magnitude_finite [of "\<bar>x\<bar>"] by (cases "x < 0") (fastforce simp: f32_encode_def)+

lemma f32_rounds_pos:
  assumes "1 \<le> x * 2 ^ 149" "x < 2 ^ 127"
  shows "\<exists>y. f32_decode (f32_encode x) = Some y \<and> 0 < y"
proof -
  have "0 < x" using assms(1) by (metis less_le_trans mult_nonpos_nonneg not_less zero_le_numeral zero_le_power zero_less_one)
  then show ?thesis
    using f32_decode_finite(1) [OF f32_magnitude_finite [of x]] f32_magnitude_pos [OF assms(1)] assms(2)
    by (auto simp: f32_encode_def)
qed

text \<open>Half milliseconds are binary32 numbers, for more than two hours.\<close>

lemma significand: "0 < k \<Longrightarrow> k < 2 ^ 24 \<Longrightarrow> \<exists>j \<le> 23. 2 ^ 23 \<le> k * 2 ^ j \<and> k * 2 ^ j < (2 ^ 24 :: nat)"
proof (induction "2 ^ 24 - k" arbitrary: k rule: less_induct)
  case less
  show ?case
  proof (cases "2 ^ 23 \<le> k")
    case True
    then show ?thesis using less.prems by (intro exI [of _ 0]) simp
  next
    case False
    have "\<exists>j \<le> 23. 2 ^ 23 \<le> 2 * k * 2 ^ j \<and> 2 * k * 2 ^ j < (2 ^ 24 :: nat)"
      by (rule less.hyps) (use less.prems False in simp_all)
    then obtain j where j: "2 ^ 23 \<le> 2 * k * 2 ^ j" "2 * k * 2 ^ j < (2 ^ 24 :: nat)" by blast
    have "Suc j \<le> 23"
    proof (rule ccontr)
      assume "\<not> Suc j \<le> 23"
      then have "(2 :: nat) ^ 23 \<le> 2 ^ j" by (intro power_increasing) simp_all
      then have "2 * 1 * 2 ^ 23 \<le> 2 * k * 2 ^ j" using less.prems(1) by (intro mult_le_mono) simp_all
      then show False using j(2) by simp
    qed
    then show ?thesis using j by (intro exI [of _ "Suc j"]) (simp add: ac_simps)
  qed
qed

lemma f32_exact_half_ms:
  assumes "k < 2 ^ 24"
  shows "f32_exact (of_nat k / 2)"
proof (cases "k = 0")
  case True
  then show ?thesis unfolding f32_exact_def f32_canonical_def by (intro exI [of _ 0]) simp
next
  case False
  then obtain j where j: "j \<le> 23" "2 ^ 23 \<le> k * 2 ^ j" "k * 2 ^ j < 2 ^ 24" using significand assms by blast
  have "(2 :: nat) ^ j * 2 ^ (148 - j) = 2 ^ 148" using j(1) by (simp only: power_add [symmetric]) simp
  then have e: "k * 2 ^ j * 2 ^ (148 - j) = k * 2 ^ 148" by (simp only: mult.assoc)
  have "\<bar>of_nat k / 2 :: rat\<bar> = of_nat (k * 2 ^ j * 2 ^ (148 - j)) / 2 ^ 149" unfolding e by simp
  moreover have "f32_canonical (k * 2 ^ j) (148 - j)" using j by (simp add: f32_canonical_def)
  ultimately show ?thesis unfolding f32_exact_def by blast
qed


section \<open>The compact binary form\<close>

definition out_of_range :: js_exn where
  "out_of_range = RangeError ''The value of \"value\" is out of range.''"

definition writeUInt :: "nat \<Rightarrow> int \<Rightarrow> js_exn + bytes" where
  "writeUInt w v = (if 0 \<le> v \<and> v < 256 ^ w then Inr (be_bytes w (nat v)) else Inl out_of_range)"

definition writeFloatBE :: "rat \<Rightarrow> bytes" where
  "writeFloatBE x = be_bytes 4 (f32_encode x)"

text \<open>
  One reading.  The buffer reserves \<open>source.length\<close> bytes for the name, but \<open>buf.write\<close>
  writes its UTF-8 form; what goes beyond the reserved bytes is overwritten by the fields
  that follow, so the name that remains is cut to its number of characters.
\<close>

definition write_reading :: "source_reading \<Rightarrow> js_exn + bytes" where
  "write_reading r =
     bindr (writeUInt 1 (int (length (sr_source r)))) (\<lambda>len.
     bindr (writeUInt 8 (sr_timestamp r)) (\<lambda>ts.
     Inr (len @ take (length (sr_source r)) (utf8_encode (sr_source r)) @ ts @ writeFloatBE (sr_uncertainty r))))"

definition serializeToBinary :: "proof_of_time \<Rightarrow> js_exn + bytes" where
  "serializeToBinary pot =
     (let nonceBytes = utf8_encode (pot_nonce pot) in
      bindr (writeUInt 8 (pot_timestamp pot)) (\<lambda>ts.
      bindr (writeUInt 1 (int (pot_sources pot))) (\<lambda>sources.
      bindr (writeUInt 1 (pot_stratum pot)) (\<lambda>stratum.
      bindr (writeUInt 1 (int (length (sourceReadings pot)))) (\<lambda>readingCount.
      bindr (writeUInt 1 (int (length nonceBytes))) (\<lambda>nonceLen.
      bindr (writeUInt 8 (expiresAt pot)) (\<lambda>ex.
      bindr (map_result write_reading (sourceReadings pot)) (\<lambda>readings.
      Inr (ts @ writeFloatBE (pot_uncertainty pot) @ sources @ stratum @ writeFloatBE (pot_confidence pot)
           @ readingCount @ nonceLen @ nonceBytes @ ex @ concat readings)))))))))"

text \<open>
  Reading back.  A read beyond the buffer throws; a text is clamped to the buffer.  The
  inner \<open>None\<close> is a value the model cannot hold: an infinity, a \<open>NaN\<close>, or a text with
  characters beyond the model's strings (such as the replacement character).
\<close>

definition read_be :: "nat \<Rightarrow> bytes \<Rightarrow> nat \<Rightarrow> js_exn + nat" where
  "read_be w buf off = need out_of_range (readBE w buf off)"

definition read_text :: "nat \<Rightarrow> nat \<Rightarrow> bytes \<Rightarrow> string option" where
  "read_text a b buf = utf8_decode (subarray a b buf)"

fun read_readings :: "nat \<Rightarrow> bytes \<Rightarrow> nat \<Rightarrow> js_exn + source_reading option list" where
  "read_readings 0 buf off = Inr []"
| "read_readings (Suc n) buf off =
     bindr (read_be 1 buf off) (\<lambda>nameLen.
     bindr (read_be 8 buf (off + 1 + nameLen)) (\<lambda>ts.
     bindr (read_be 4 buf (off + 1 + nameLen + 8)) (\<lambda>unc.
     bindr (read_readings n buf (off + 1 + nameLen + 8 + 4)) (\<lambda>rest.
     Inr ((case (read_text (off + 1) (off + 1 + nameLen) buf, f32_decode unc) of
             (Some source, Some u) \<Rightarrow>
               Some \<lparr>sr_source = source, sr_timestamp = int ts, sr_uncertainty = u, sr_stratum = None\<rparr>
           | _ \<Rightarrow> None) # rest)))))"

definition deserializeFromBinary :: "bytes \<Rightarrow> js_exn + proof_of_time option" where
  "deserializeFromBinary buf =
     bindr (read_be 8 buf 0) (\<lambda>timestamp.
     bindr (read_be 4 buf 8) (\<lambda>uncertainty.
     bindr (read_be 1 buf 12) (\<lambda>sources.
     bindr (read_be 1 buf 13) (\<lambda>stratum.
     bindr (read_be 4 buf 14) (\<lambda>confidence.
     bindr (read_be 1 buf 18) (\<lambda>sigCount.
     bindr (read_be 1 buf 19) (\<lambda>nonceLen.
     bindr (read_be 8 buf (20 + nonceLen)) (\<lambda>expires.
     bindr (read_readings sigCount buf (20 + nonceLen + 8)) (\<lambda>readings.
     Inr (case (f32_decode uncertainty, f32_decode confidence, read_text 20 (20 + nonceLen) buf,
                those readings) of
            (Some unc, Some conf, Some nonce, Some rs) \<Rightarrow>
              Some \<lparr>pot_timestamp = int timestamp, pot_uncertainty = unc, pot_sources = sources,
                    pot_stratum = int stratum, pot_confidence = conf, sourceReadings = rs,
                    pot_nonce = nonce, expiresAt = int expires, issuerSignature = None\<rparr>
          | _ \<Rightarrow> None))))))))))"

text \<open>What the layout can hold.\<close>

definition reading_fits :: "source_reading \<Rightarrow> bool" where
  "reading_fits r \<longleftrightarrow>
     ascii (sr_source r) \<and> length (sr_source r) < 256 \<and>
     0 \<le> sr_timestamp r \<and> sr_timestamp r < 2 ^ 64 \<and> f32_exact (sr_uncertainty r)"

definition pot_fields_fit :: "proof_of_time \<Rightarrow> bool" where
  "pot_fields_fit pot \<longleftrightarrow>
     0 \<le> pot_timestamp pot \<and> pot_timestamp pot < 2 ^ 64 \<and> 0 \<le> expiresAt pot \<and> expiresAt pot < 2 ^ 64 \<and>
     pot_sources pot < 256 \<and> 0 \<le> pot_stratum pot \<and> pot_stratum pot < 256 \<and>
     length (sourceReadings pot) < 256 \<and> length (utf8_encode (pot_nonce pot)) < 256 \<and>
     (\<forall>r \<in> set (sourceReadings pot). reading_fits r)"

definition pot_fits :: "proof_of_time \<Rightarrow> bool" where
  "pot_fits pot \<longleftrightarrow> pot_fields_fit pot \<and> f32_exact (pot_uncertainty pot) \<and> f32_exact (pot_confidence pot)"

lemma readBE_at: "length pre = off \<Longrightarrow> readBE w (pre @ be_bytes w v @ suf) off = Some (v mod 256 ^ w)"
  using readBE_skip [of pre off w "be_bytes w v @ suf" 0] by (simp add: readBE_here)

lemma read_be_at:
  "length pre = off \<Longrightarrow> v < 256 ^ w \<Longrightarrow> read_be w (pre @ be_bytes w v @ suf) off = Inr v"
  by (simp add: read_be_def readBE_at)

lemma read_text_at:
  "length pre = off \<Longrightarrow> read_text off (off + length (utf8_encode s)) (pre @ utf8_encode s @ suf) = Some s"
  by (simp add: read_text_def subarray_def)

definition reading_bytes :: "source_reading \<Rightarrow> bytes" where
  "reading_bytes r = be_bytes 1 (length (sr_source r)) @ utf8_encode (sr_source r)
     @ be_bytes 8 (nat (sr_timestamp r)) @ be_bytes 4 (f32_encode (sr_uncertainty r))"

lemma write_reading_fits: "reading_fits r \<Longrightarrow> write_reading r = Inr (reading_bytes r)"
  by (simp add: write_reading_def reading_fits_def writeUInt_def writeFloatBE_def reading_bytes_def
      length_utf8_ascii)

lemma read_readings_at:
  "\<forall>r \<in> set rs. reading_fits r \<Longrightarrow> length pre = off \<Longrightarrow>
   read_readings (length rs) (pre @ concat (map reading_bytes rs)) off =
     Inr (map (\<lambda>r. Some (r\<lparr>sr_stratum := None\<rparr>)) rs)"
proof (induction rs arbitrary: pre off)
  case (Cons r rs)
  let ?n = "length (sr_source r)" and ?u = "utf8_encode (sr_source r)"
  let ?rest = "concat (map reading_bytes rs)"
  let ?buf = "pre @ concat (map reading_bytes (r # rs))"
  have f: "ascii (sr_source r)" "?n < 256" "0 \<le> sr_timestamp r" "sr_timestamp r < 2 ^ 64"
      "f32_exact (sr_uncertainty r)" and off: "length pre = off"
    using Cons.prems by (simp_all add: reading_fits_def)
  have u: "length ?u = ?n" by (rule length_utf8_ascii [OF f(1)])
  have "read_be 1 (pre @ be_bytes 1 ?n @ ?u @ be_bytes 8 (nat (sr_timestamp r))
          @ be_bytes 4 (f32_encode (sr_uncertainty r)) @ ?rest) off = Inr ?n"
    using f off by (intro read_be_at) simp_all
  then have a: "read_be 1 ?buf off = Inr ?n" by (simp add: reading_bytes_def)
  have "read_be 8 ((pre @ be_bytes 1 ?n @ ?u) @ be_bytes 8 (nat (sr_timestamp r))
          @ be_bytes 4 (f32_encode (sr_uncertainty r)) @ ?rest) (off + 1 + ?n) = Inr (nat (sr_timestamp r))"
    using f off u by (intro read_be_at) simp_all
  then have b: "read_be 8 ?buf (off + 1 + ?n) = Inr (nat (sr_timestamp r))" by (simp add: reading_bytes_def)
  have "read_be 4 ((pre @ be_bytes 1 ?n @ ?u @ be_bytes 8 (nat (sr_timestamp r)))
          @ be_bytes 4 (f32_encode (sr_uncertainty r)) @ ?rest) (off + 1 + ?n + 8) = Inr (f32_encode (sr_uncertainty r))"
    using f off u f32_bits_bound [of "sr_uncertainty r"] by (intro read_be_at) simp_all
  then have c: "read_be 4 ?buf (off + 1 + ?n + 8) = Inr (f32_encode (sr_uncertainty r))"
    by (simp add: reading_bytes_def)
  have "read_text (off + 1) (off + 1 + length ?u) ((pre @ be_bytes 1 ?n) @ ?u
          @ be_bytes 8 (nat (sr_timestamp r)) @ be_bytes 4 (f32_encode (sr_uncertainty r)) @ ?rest) = Some (sr_source r)"
    using off by (intro read_text_at) simp
  then have d: "read_text (off + 1) (off + 1 + ?n) ?buf = Some (sr_source r)"
    by (simp add: reading_bytes_def u)
  have "read_readings (length rs) ((pre @ reading_bytes r) @ ?rest) (off + 1 + ?n + 8 + 4)
      = Inr (map (\<lambda>r. Some (r\<lparr>sr_stratum := None\<rparr>)) rs)"
    using Cons.prems u by (intro Cons.IH) (simp_all add: reading_bytes_def)
  then have rest: "read_readings (length rs) ?buf (off + 1 + ?n + 8 + 4)
      = Inr (map (\<lambda>r. Some (r\<lparr>sr_stratum := None\<rparr>)) rs)" by simp
  show ?case
    using f(3) unfolding length_Cons read_readings.simps a b c d rest bindr_simps f32_round_trip [OF f(5)]
    by simp
qed simp

lemma those_Some: "those (map (\<lambda>x. Some (f x)) xs) = Some (map f xs)"
  by (induction xs) simp_all

lemma binary_codec_rounded:
  assumes "pot_fields_fit pot" and unc: "f32_decode (f32_encode (pot_uncertainty pot)) = Some u"
    and conf: "f32_decode (f32_encode (pot_confidence pot)) = Some c"
  shows "\<exists>buf. serializeToBinary pot = Inr buf \<and>
     deserializeFromBinary buf =
       Inr (Some (pot\<lparr>pot_uncertainty := u, pot_confidence := c,
                      sourceReadings := map (\<lambda>r. r\<lparr>sr_stratum := None\<rparr>) (sourceReadings pot),
                      issuerSignature := None\<rparr>))"
proof -
  let ?nonce = "utf8_encode (pot_nonce pot)" and ?rs = "sourceReadings pot"
  let ?unc = "be_bytes 4 (f32_encode (pot_uncertainty pot))"
  let ?conf = "be_bytes 4 (f32_encode (pot_confidence pot))"
  let ?ts = "be_bytes 8 (nat (pot_timestamp pot))" and ?ex = "be_bytes 8 (nat (expiresAt pot))"
  let ?so = "be_bytes 1 (pot_sources pot)" and ?st = "be_bytes 1 (nat (pot_stratum pot))"
  let ?rc = "be_bytes 1 (length ?rs)" and ?nl = "be_bytes 1 (length ?nonce)"
  let ?tail = "concat (map reading_bytes ?rs)"
  let ?buf = "?ts @ ?unc @ ?so @ ?st @ ?conf @ ?rc @ ?nl @ ?nonce @ ?ex @ ?tail"
  note fits = assms(1) [unfolded pot_fields_fit_def]
  have readings: "map_result write_reading ?rs = Inr (map reading_bytes ?rs)"
    using fits by (intro map_result_all write_reading_fits) blast
  have ser: "serializeToBinary pot = Inr ?buf"
    using fits by (simp add: serializeToBinary_def writeUInt_def readings writeFloatBE_def Let_def)
  have b: "nat (pot_timestamp pot) < 256 ^ 8" "f32_encode (pot_uncertainty pot) < 256 ^ 4"
      "pot_sources pot < 256 ^ 1" "nat (pot_stratum pot) < 256 ^ 1" "f32_encode (pot_confidence pot) < 256 ^ 4"
      "length ?rs < 256 ^ 1" "length ?nonce < 256 ^ 1" "nat (expiresAt pot) < 256 ^ 8"
    using fits f32_bits_bound [of "pot_uncertainty pot"] f32_bits_bound [of "pot_confidence pot"]
    by (simp_all add: nat_less_iff)
  have r1: "read_be 8 ?buf 0 = Inr (nat (pot_timestamp pot))"
    using read_be_at [of "[]", OF refl b(1)] by simp
  have r2: "read_be 4 ?buf 8 = Inr (f32_encode (pot_uncertainty pot))"
    using read_be_at [of ?ts, OF refl b(2)] by simp
  have r3: "read_be 1 ?buf 12 = Inr (pot_sources pot)"
    using read_be_at [of "?ts @ ?unc", OF refl b(3)] by simp
  have r4: "read_be 1 ?buf 13 = Inr (nat (pot_stratum pot))"
    using read_be_at [of "?ts @ ?unc @ ?so", OF refl b(4)] by simp
  have r5: "read_be 4 ?buf 14 = Inr (f32_encode (pot_confidence pot))"
    using read_be_at [of "?ts @ ?unc @ ?so @ ?st", OF refl b(5)] by simp
  have r6: "read_be 1 ?buf 18 = Inr (length ?rs)"
    using read_be_at [of "?ts @ ?unc @ ?so @ ?st @ ?conf", OF refl b(6)] by simp
  have r7: "read_be 1 ?buf 19 = Inr (length ?nonce)"
    using read_be_at [of "?ts @ ?unc @ ?so @ ?st @ ?conf @ ?rc", OF refl b(7)] by simp
  have r8: "read_be 8 ?buf (20 + length ?nonce) = Inr (nat (expiresAt pot))"
    using read_be_at [of "?ts @ ?unc @ ?so @ ?st @ ?conf @ ?rc @ ?nl @ ?nonce", OF refl b(8)] by simp
  have r9: "read_text 20 (20 + length ?nonce) ?buf = Some (pot_nonce pot)"
    using read_text_at [of "?ts @ ?unc @ ?so @ ?st @ ?conf @ ?rc @ ?nl" 20] by simp
  have r10: "read_readings (length ?rs) ?buf (20 + length ?nonce + 8)
      = Inr (map (\<lambda>r. Some (r\<lparr>sr_stratum := None\<rparr>)) ?rs)"
    using read_readings_at [of ?rs "?ts @ ?unc @ ?so @ ?st @ ?conf @ ?rc @ ?nl @ ?nonce @ ?ex"] fits by simp
  have "deserializeFromBinary ?buf =
       Inr (Some (pot\<lparr>pot_uncertainty := u, pot_confidence := c,
         sourceReadings := map (\<lambda>r. r\<lparr>sr_stratum := None\<rparr>) ?rs, issuerSignature := None\<rparr>))"
    using fits unfolding deserializeFromBinary_def r1 r2 r3 r4 r5 r6 r7 r8 r9 r10 bindr_simps those_Some unc conf
    by simp
  with ser show ?thesis by blast
qed

lemma binary_codec:
  assumes "pot_fits pot"
  shows "\<exists>buf. serializeToBinary pot = Inr buf \<and>
     deserializeFromBinary buf =
       Inr (Some (pot\<lparr>sourceReadings := map (\<lambda>r. r\<lparr>sr_stratum := None\<rparr>) (sourceReadings pot),
                      issuerSignature := None\<rparr>))"
  using binary_codec_rounded [of pot "pot_uncertainty pot" "pot_confidence pot"] assms
  by (simp add: pot_fits_def f32_round_trip)

text \<open>What the binary form keeps of a proof.\<close>

definition binary_view :: "proof_of_time \<Rightarrow> proof_of_time" where
  "binary_view pot = pot\<lparr>sourceReadings := map (\<lambda>r. r\<lparr>sr_stratum := None\<rparr>) (sourceReadings pot),
     issuerSignature := None\<rparr>"

interpretation binary_form: codec serializeToBinary "\<lambda>w. bindr w deserializeFromBinary" pot_fits
  "\<lambda>pot. Inr (Some (binary_view pot))"
  by unfold_locales (auto simp: binary_view_def dest!: binary_codec)

lemma write_readings_view:
  "map_result write_reading (map (\<lambda>r. r\<lparr>sr_stratum := None\<rparr>) rs) = map_result write_reading rs"
  by (induction rs) (simp_all add: write_reading_def)

lemma serialize_view: "serializeToBinary (binary_view pot) = serializeToBinary pot"
  by (simp add: serializeToBinary_def binary_view_def write_readings_view)

text \<open>
  C22. The serial forms tell proofs apart.  Two proofs have the same JSON form only if they are the
  same proof, signature included; and two proofs that fit the binary layout have the same bytes
  exactly if they agree in everything but the strata of the single readings and the signature.  So
  a hash of either form is a commitment to those fields, and of the binary form to no others.
\<close>

theorem serial_forms_identify:
  "(serializeToJSON pot = serializeToJSON pot' \<longleftrightarrow> pot = pot') \<and>
   (pot_fits pot \<and> pot_fits pot' \<longrightarrow>
      (serializeToBinary pot = serializeToBinary pot' \<longleftrightarrow> binary_view pot = binary_view pot'))"
proof -
  have "serializeToJSON pot = serializeToJSON pot' \<longleftrightarrow> pot = pot'"
    by (rule json_form.encode_eq_iff) simp_all
  moreover have "binary_view pot = binary_view pot' \<Longrightarrow> serializeToBinary pot = serializeToBinary pot'"
    by (metis serialize_view)
  moreover have "binary_view pot = binary_view pot'"
    if "pot_fits pot" "pot_fits pot'" "serializeToBinary pot = serializeToBinary pot'"
    using binary_form.encode_view [OF that] by simp
  ultimately show ?thesis by blast
qed

text \<open>
  C21. The binary form is read back, for every proof whose numbers are binary32 numbers and
  whose names are ASCII: everything is recovered except the strata of the single readings
  and the signature, for which the layout has no room.
\<close>

theorem binary_round_trip:
  assumes "pot_fits pot"
  shows "\<exists>buf. serializeToBinary pot = Inr buf \<and>
     deserializeFromBinary buf =
       Inr (Some (pot\<lparr>sourceReadings := map (\<lambda>r. r\<lparr>sr_stratum := None\<rparr>) (sourceReadings pot),
                      issuerSignature := None\<rparr>))"
  by (rule binary_codec [OF assms])

definition sample_serial_pot :: proof_of_time where
  "sample_serial_pot = \<lparr>pot_timestamp = 1700000000000000000, pot_uncertainty = 1 / 2, pot_sources = 1,
     pot_stratum = 2, pot_confidence = 1,
     sourceReadings = [\<lparr>sr_source = ''nist'', sr_timestamp = 1700000000000000001, sr_uncertainty = 1 / 2,
                        sr_stratum = Some 2\<rparr>],
     pot_nonce = ''00ff'', expiresAt = 1700000060000, issuerSignature = None\<rparr>"

lemma f32_exact_half: "f32_exact (1 / 2)"
  unfolding f32_exact_def f32_canonical_def by (rule exI [of _ "2 ^ 23"], rule exI [of _ 125]) simp

lemma f32_exact_one: "f32_exact 1"
  unfolding f32_exact_def f32_canonical_def by (rule exI [of _ "2 ^ 23"], rule exI [of _ 126]) simp

lemma sample_serial_fits: "pot_fits sample_serial_pot"
  by (simp add: pot_fits_def pot_fields_fit_def sample_serial_pot_def reading_fits_def f32_exact_half f32_exact_one ascii_def
      utf8_encode_ascii)

lemma binary_round_trip_witness:
  "\<exists>buf. serializeToBinary sample_serial_pot = Inr buf \<and>
     deserializeFromBinary buf = Inr (Some (sample_serial_pot\<lparr>sourceReadings :=
       [\<lparr>sr_source = ''nist'', sr_timestamp = 1700000000000000001, sr_uncertainty = 1 / 2, sr_stratum = None\<rparr>]\<rparr>))"
proof -
  from binary_round_trip [OF sample_serial_fits] show ?thesis by (simp add: sample_serial_pot_def)
qed

lemma serial_forms_identify_witness:
  "serializeToJSON sample_serial_pot \<noteq> serializeToJSON (sample_serial_pot\<lparr>pot_stratum := 3\<rparr>) \<and>
   serializeToBinary sample_serial_pot \<noteq> serializeToBinary (sample_serial_pot\<lparr>pot_stratum := 3\<rparr>)"
proof -
  let ?p = "sample_serial_pot\<lparr>pot_stratum := 3\<rparr>"
  have "pot_fits ?p" using sample_serial_fits by (simp add: pot_fits_def pot_fields_fit_def sample_serial_pot_def)
  moreover have "sample_serial_pot \<noteq> ?p" and "binary_view sample_serial_pot \<noteq> binary_view ?p"
    by (simp_all add: sample_serial_pot_def binary_view_def)
  ultimately show ?thesis using serial_forms_identify [of sample_serial_pot ?p] sample_serial_fits by blast
qed

text \<open>A text that decodes is the encoding of its decoding, so a cut name never survives.\<close>

lemma utf8_encode_decode: "utf8_decode bs = Some s \<Longrightarrow> utf8_encode s = bs"
proof (induction bs arbitrary: s rule: utf8_decode.induct)
  case (2 b bs)
  show ?case
  proof (cases "unat b < 128")
    case True
    then obtain s' where s: "s = char_of (unat b) # s'" and d: "utf8_decode bs = Some s'"
      using 2(3) by auto
    have "of_char (char_of (unat b) :: char) = unat b" using True by (simp add: of_char_of)
    then show ?thesis using 2(1) [OF True d] True by (simp add: s Let_def)
  next
    case False
    then obtain b2 bs2 where bs: "bs = b2 # bs2" using 2(3) by (cases bs) auto
    with False 2(3) have c: "(unat b = 194 \<or> unat b = 195) \<and> 128 \<le> unat b2 \<and> unat b2 < 192"
      by (auto split: if_splits)
    then obtain s' where s: "s = char_of ((unat b - 192) * 64 + (unat b2 - 128)) # s'" and d: "utf8_decode bs2 = Some s'"
      using False 2(3) bs by auto
    define n where "n = (unat b - 192) * 64 + (unat b2 - 128)"
    have n: "128 \<le> n" "n < 256" using c by (auto simp: n_def)
    have r: "(of_char (char_of n :: char) :: nat) = n" using n by (simp add: of_char_of)
    have "192 + n div 64 = unat b" using c by (auto simp: n_def)
    then have w1: "word_of_nat (192 + n div 64) = b" by (simp only: word_of_nat_unat_byte)
    have "unat b2 - 128 < 64" using c by arith
    then have "n mod 64 = unat b2 - 128" by (simp add: n_def)
    then have "128 + n mod 64 = unat b2" using c by arith
    then have w2: "word_of_nat (128 + n mod 64) = b2" by (simp only: word_of_nat_unat_byte)
    show ?thesis
      using 2(2) [OF False bs c d] n(1) unfolding s n_def [symmetric] utf8_encode.simps Let_def bs r w1 w2
      by simp
  qed
qed simp

lemma length_utf8_non_ascii: "\<not> ascii s \<Longrightarrow> length s < length (utf8_encode s)"
proof (induction s)
  case (Cons c s)
  then show ?case
    using length_utf8_ge [of s] by (cases "(of_char c :: nat) < 128") (auto simp: ascii_def Let_def)
qed (simp add: ascii_def)

text \<open>
  The binary form loses every source name that is not ASCII: the reader gets some
  other text, because the layout counts characters where it should count bytes.  (The nonce
  is counted in bytes and survives.)
\<close>

theorem binary_name_survives_iff_ascii:
  "read_text 0 (length name) (take (length name) (utf8_encode name)) = Some name \<longleftrightarrow> ascii name"
proof
  assume "ascii name"
  then show "read_text 0 (length name) (take (length name) (utf8_encode name)) = Some name"
    by (simp add: read_text_def subarray_def length_utf8_ascii)
next
  assume "read_text 0 (length name) (take (length name) (utf8_encode name)) = Some name"
  then have "utf8_encode name = take (length name) (utf8_encode name)"
    by (intro utf8_encode_decode) (simp add: read_text_def subarray_def)
  then have "length (utf8_encode name) \<le> length name" by (metis length_take min.cobounded2 min.commute)
  then show "ascii name" using length_utf8_non_ascii [of name] by force
qed

end
