(* ===== verification/HttpClient.thy ===== *)
theory HttpClient
  imports TimeSynthesis Json
begin

text \<open>
  The HTTP-only client of \<open>src/http_client.ts\<close>: four HTTPS \<open>Date\<close> sources, the median, an
  HMAC over the canonical fields and a verifier with the capped replay cache.  HMAC-SHA256
  is the parameter \<open>hmac\<close>, from a secret and a message to 32 bytes.  Text between quotes is ASCII: the
  dash of the verifier's reasons becomes a hyphen.
\<close>

section \<open>Sources\<close>

record http_pot =
  hp_timestamp :: int
  hp_confidence :: rat
  hp_stratum :: int
  hp_sources :: int
  hp_sourceReadings :: "source_reading list"
  hp_nonce :: string
  hp_expiresAt :: int
  hp_hmac :: string

definition SOURCES :: "(string \<times> string) list" where
  "SOURCES = [(''nist'', ''https://time.nist.gov/''), (''apple'', ''https://time.apple.com/''),
              (''google'', ''https://time.google.com/''), (''cloudflare'', ''https://time.cloudflare.com/'')]"

datatype head_event = HeadTimeout | HeadResponse int "string option" | HeadError string

definition head_response ::
    "(string \<Rightarrow> int option) \<Rightarrow> string \<Rightarrow> int \<Rightarrow> int \<Rightarrow> string option \<Rightarrow> time_reading settle" where
  "head_response parse_date name t1 t4 header =
     (let absent = Rejected (JsError (''[httpOnly] No Date header from '' @ name)) in
      case header of
        None \<Rightarrow> absent
      | Some dateHeader \<Rightarrow>
          (if dateHeader = [] then absent
           else case parse_date dateHeader of
             None \<Rightarrow> Rejected (JsError (''[httpOnly] Invalid Date header from '' @ name @ '': '' @ dateHeader))
           | Some parsed \<Rightarrow>
               let serverNs = parsed * 1000000; rttNs = t4 - t1;
                   corrected = serverNs + tdiv rttNs 2; rttMs = of_int rttNs / 1000000
               in Fulfilled \<lparr>tr_timestamp = corrected, tr_uncertainty = rttMs / 2 + 500,
                             tr_stratum = 2, tr_source = name\<rparr>))"

fun head_event_settles ::
    "(string \<Rightarrow> int option) \<Rightarrow> string \<Rightarrow> nat \<Rightarrow> int \<Rightarrow> head_event \<Rightarrow> time_reading settle option" where
  "head_event_settles parse_date name timeoutMs t1 HeadTimeout =
     Some (Rejected (JsError (''[httpOnly] Timeout: '' @ name @ '' ('' @ show_int (int timeoutMs) @ ''ms)'')))"
| "head_event_settles parse_date name timeoutMs t1 (HeadResponse now header) =
     Some (head_response parse_date name t1 (now * 1000000) header)"
| "head_event_settles parse_date name timeoutMs t1 (HeadError m) =
     Some (Rejected (JsError (''[httpOnly] Request error for '' @ name @ '': '' @ m)))"

definition fetchHttpsDate ::
    "(string \<Rightarrow> int option) \<Rightarrow> nat \<Rightarrow> int \<times> head_event list \<Rightarrow> string \<Rightarrow> time_reading settle option" where
  "fetchHttpsDate parse_date timeoutMs env name =
     first_settle (head_event_settles parse_date name timeoutMs (fst env * 1000000)) (snd env)"

interpretation head: time_source "\<lambda>name. name" "fetchHttpsDate parse_date timeoutMs" for parse_date timeoutMs
proof unfold_locales
  fix env name r
  assume "fetchHttpsDate parse_date timeoutMs env name = Some (Fulfilled r)"
  then obtain ev where "head_event_settles parse_date name timeoutMs (fst env * 1000000) ev = Some (Fulfilled r)"
    unfolding fetchHttpsDate_def by (blast dest: first_settle_Some)
  then have "tr_source r = name \<and> tr_stratum r = 2"
    by (cases ev) (auto simp: head_response_def Let_def split: option.splits if_splits)
  then show "tr_source r = name" "1 \<le> tr_stratum r \<and> tr_stratum r \<le> 15" by auto
qed

section \<open>HMAC\<close>

definition SANDBOX_HMAC_SECRET :: string where
  "SANDBOX_HMAC_SECRET = ''openttt-sandbox:chainId=0:address=0x0000000000000000000000000000000000000000''"

definition canonical_msg :: "int \<Rightarrow> string \<Rightarrow> int \<Rightarrow> int \<Rightarrow> string" where
  "canonical_msg timestamp nonce expires sources =
     show_int timestamp @ '':'' @ nonce @ '':'' @ show_int expires @ '':'' @ show_int sources"

definition computeHmac ::
    "(string \<Rightarrow> string \<Rightarrow> bytes) \<Rightarrow> int \<Rightarrow> string \<Rightarrow> int \<Rightarrow> int \<Rightarrow> string \<Rightarrow> string" where
  "computeHmac hmac timestamp nonce expires sources secret =
     hex_encode (hmac secret (canonical_msg timestamp nonce expires sources))"

section \<open>The client\<close>

record http_client =
  hmacSecret :: string
  timeoutMs :: nat
  expirySeconds :: rat
  toleranceNs :: int
  hc_usedNonces :: "(string, int) jsmap"

definition HttpOnlyClient :: "string option \<Rightarrow> nat option \<Rightarrow> rat option \<Rightarrow> int option \<Rightarrow> http_client" where
  "HttpOnlyClient secret timeout expiry tolerance =
     \<lparr>hmacSecret = (case secret of None \<Rightarrow> SANDBOX_HMAC_SECRET | Some s \<Rightarrow> s),
      timeoutMs = (case timeout of None \<Rightarrow> 3000 | Some t \<Rightarrow> t),
      expirySeconds = (case expiry of None \<Rightarrow> 60 | Some e \<Rightarrow> e),
      toleranceNs = (case tolerance of None \<Rightarrow> 2000000000 | Some t \<Rightarrow> t),
      hc_usedNonces = []\<rparr>"

text \<open>\<open>results\<close> are the outcomes of the four fetches, \<open>rand\<close> the random bytes, \<open>now\<close> the clock.\<close>

definition generatePoT ::
    "(string \<Rightarrow> string \<Rightarrow> bytes) \<Rightarrow> time_reading settle list \<Rightarrow> bytes \<Rightarrow> int \<Rightarrow> http_client \<Rightarrow> js_exn + http_pot" where
  "generatePoT hmac results rand now c =
     (let readings = fulfilled_values results in
      if length readings = 0 then
        Inl (JsError ''[httpOnly] All HTTPS time sources failed. Check network connectivity.'')
      else
        let (finalTs, finalUnc, finalStratum) = select_time readings; nonce = hex_encode rand in
        bindr (js_BigInt (Some (JNum (expirySeconds c * 1000)))) (\<lambda>expiry.
        let expires = now + expiry in
        Inr \<lparr>hp_timestamp = finalTs,
             hp_confidence = of_nat (length readings) / of_nat (length SOURCES),
             hp_stratum = finalStratum, hp_sources = int (length readings),
             hp_sourceReadings = map reading_entry (sort_key tr_timestamp readings),
             hp_nonce = nonce, hp_expiresAt = expires,
             hp_hmac = computeHmac hmac finalTs nonce expires (int (length readings)) (hmacSecret c)\<rparr>))"

record http_verify_result =
  hv_valid :: bool
  hv_reason :: "string option"

text \<open>\<open>crypto.timingSafeEqual\<close> throws when the lengths differ.\<close>

definition timingSafeEqual :: "bytes \<Rightarrow> bytes \<Rightarrow> js_exn + bool" where
  "timingSafeEqual a b =
     (if length a \<noteq> length b then Inl (RangeError ''Input buffers must have the same byte length'')
      else Inr (a = b))"

fun first_divergent :: "int \<Rightarrow> int \<Rightarrow> source_reading list \<Rightarrow> (source_reading \<times> int) option" where
  "first_divergent tol ts [] = None"
| "first_divergent tol ts (r # rs) =
     (let diff = (if sr_timestamp r > ts then sr_timestamp r - ts else ts - sr_timestamp r)
      in if diff > tol then Some (r, diff) else first_divergent tol ts rs)"

definition verifyPoT ::
    "(string \<Rightarrow> string \<Rightarrow> bytes) \<Rightarrow> int \<Rightarrow> int \<Rightarrow> http_pot \<Rightarrow> http_client
     \<Rightarrow> (js_exn + http_verify_result) \<times> http_client" where
  "verifyPoT hmac t_exp t_now pot c =
     (if t_exp > hp_expiresAt pot then (Inr \<lparr>hv_valid = False, hv_reason = Some ''PoT expired''\<rparr>, c)
      else
        let expected = computeHmac hmac (hp_timestamp pot) (hp_nonce pot) (hp_expiresAt pot) (hp_sources pot) (hmacSecret c)
        in case timingSafeEqual (hex_decode expected) (hex_decode (hp_hmac pot)) of
             Inl e \<Rightarrow> (Inl e, c)
           | Inr same \<Rightarrow>
               (if \<not> same then
                  (Inr \<lparr>hv_valid = False, hv_reason = Some ''HMAC mismatch - PoT may have been tampered''\<rparr>, c)
                else
                  case nonce_cache_step MAX_NONCE_CACHE NONCE_TTL_MS t_now (hp_nonce pot) (hc_usedNonces c) of
                    (fresh, cache) \<Rightarrow>
                      (let c' = c\<lparr>hc_usedNonces := cache\<rparr> in
                       if \<not> fresh then
                         (Inr \<lparr>hv_valid = False, hv_reason = Some ''Duplicate nonce - replay detected''\<rparr>, c')
                       else case first_divergent (toleranceNs c) (hp_timestamp pot) (hp_sourceReadings pot) of
                         Some (r, diff) \<Rightarrow>
                           (Inr \<lparr>hv_valid = False,
                                 hv_reason = Some (''Source '' @ sr_source r @ '' diverges by '' @ show_int diff
                                   @ ''ns (tolerance: '' @ show_int (toleranceNs c) @ ''ns)'')\<rparr>, c')
                       | None \<Rightarrow> (Inr \<lparr>hv_valid = True, hv_reason = None\<rparr>, c'))))"

definition toProofOfTime :: "http_pot \<Rightarrow> proof_of_time" where
  "toProofOfTime pot =
     \<lparr>pot_timestamp = hp_timestamp pot,
      pot_uncertainty = (if 0 < length (hp_sourceReadings pot)
         then sum_list (map sr_uncertainty (hp_sourceReadings pot)) / of_nat (length (hp_sourceReadings pot))
         else 500),
      pot_sources = nat (hp_sources pot), pot_stratum = hp_stratum pot, pot_confidence = hp_confidence pot,
      sourceReadings = hp_sourceReadings pot, pot_nonce = hp_nonce pot, expiresAt = hp_expiresAt pot,
      issuerSignature = None\<rparr>"

section \<open>The canonical message\<close>

lemma append_at_first:
  "c \<notin> set as \<Longrightarrow> c \<notin> set bs \<Longrightarrow> as @ c # xs = bs @ c # ys \<longleftrightarrow> as = bs \<and> xs = ys"
proof (induction as arbitrary: bs)
  case Nil
  then show ?case by (cases bs) auto
next
  case (Cons a as)
  then show ?case by (cases bs) auto
qed

lemma append_at_last:
  assumes "c \<notin> set as" and "c \<notin> set bs"
  shows "xs @ c # as = ys @ c # bs \<longleftrightarrow> xs = ys \<and> as = bs"
proof -
  have "xs @ c # as = ys @ c # bs \<longleftrightarrow> rev (xs @ c # as) = rev (ys @ c # bs)"
    by (simp only: rev_is_rev_conv)
  also have "\<dots> \<longleftrightarrow> rev as @ c # rev xs = rev bs @ c # rev ys" by simp
  finally show ?thesis using append_at_first [of c "rev as" "rev bs" "rev xs" "rev ys"] assms by auto
qed

text \<open>
  The canonical message is unambiguous: it determines the timestamp, the nonce, the
  expiry and the number of sources, even though the nonce may itself contain colons.
\<close>

lemma canonical_fields:
  "canonical_msg ts n e s = canonical_msg ts' n' e' s' \<longleftrightarrow> ts = ts' \<and> n = n' \<and> e = e' \<and> s = s'"
proof -
  have "canonical_msg ts n e s = canonical_msg ts' n' e' s' \<longleftrightarrow>
        ts = ts' \<and> (n @ CHR '':'' # show_int e) @ CHR '':'' # show_int s = (n' @ CHR '':'' # show_int e') @ CHR '':'' # show_int s'"
    using append_at_first [OF show_int_not_colon show_int_not_colon]
    by (simp add: canonical_msg_def)
  also have "\<dots> \<longleftrightarrow> ts = ts' \<and> n @ CHR '':'' # show_int e = n' @ CHR '':'' # show_int e' \<and> s = s'"
    by (subst append_at_last) (auto simp: show_int_not_colon)
  also have "\<dots> \<longleftrightarrow> ts = ts' \<and> n = n' \<and> e = e' \<and> s = s'"
    by (subst append_at_last) (auto simp: show_int_not_colon)
  finally show ?thesis .
qed

section \<open>Verification\<close>

lemma first_divergent_None:
  "first_divergent tol ts rs = None \<longleftrightarrow> (\<forall>r \<in> set rs. \<bar>sr_timestamp r - ts\<bar> \<le> tol)"
  by (induction rs) (auto simp: Let_def)

definition accepts :: "(js_exn + http_verify_result) \<times> http_client \<Rightarrow> bool" where
  "accepts r \<longleftrightarrow> (\<exists>v. fst r = Inr v \<and> hv_valid v)"

lemma timingSafeEqual_True: "timingSafeEqual a b = Inr True \<longleftrightarrow> a = b"
  by (auto simp: timingSafeEqual_def)

lemma timingSafeEqual_False: "timingSafeEqual a b = Inr False \<longleftrightarrow> length a = length b \<and> a \<noteq> b"
  by (auto simp: timingSafeEqual_def)

lemma timingSafeEqual_Inl:
  "timingSafeEqual a b = Inl e \<longleftrightarrow> length a \<noteq> length b \<and> e = RangeError ''Input buffers must have the same byte length''"
  by (auto simp: timingSafeEqual_def)

lemma verify_accepts_iff:
  "accepts (verifyPoT hmac t_exp t_now pot c) \<longleftrightarrow>
     t_exp \<le> hp_expiresAt pot \<and>
     hex_decode (hp_hmac pot) =
       hmac (hmacSecret c) (canonical_msg (hp_timestamp pot) (hp_nonce pot) (hp_expiresAt pot) (hp_sources pot)) \<and>
     fst (nonce_cache_step MAX_NONCE_CACHE NONCE_TTL_MS t_now (hp_nonce pot) (hc_usedNonces c)) \<and>
     (\<forall>r \<in> set (hp_sourceReadings pot). \<bar>sr_timestamp r - hp_timestamp pot\<bar> \<le> toleranceNs c)"
  unfolding first_divergent_None [symmetric]
  by (auto simp: accepts_def verifyPoT_def computeHmac_def Let_def timingSafeEqual_def
      split: sum.splits prod.splits option.splits if_splits)

lemma verify_accepts_cache:
  "accepts (verifyPoT hmac t_exp t_now pot c) \<Longrightarrow>
   hc_usedNonces (snd (verifyPoT hmac t_exp t_now pot c)) =
     snd (nonce_cache_step MAX_NONCE_CACHE NONCE_TTL_MS t_now (hp_nonce pot) (hc_usedNonces c))"
  by (auto simp: accepts_def verifyPoT_def Let_def split: sum.splits prod.splits option.splits if_splits)

lemma verify_any_cache:
  "hc_usedNonces (snd (verifyPoT hmac t_exp t_now pot c)) = hc_usedNonces c \<or>
   hc_usedNonces (snd (verifyPoT hmac t_exp t_now pot c)) =
     snd (nonce_cache_step MAX_NONCE_CACHE NONCE_TTL_MS t_now (hp_nonce pot) (hc_usedNonces c))"
  by (auto simp: verifyPoT_def Let_def split: sum.splits prod.splits option.splits if_splits)


lemma nonce_step_fresh: "\<not> jm_has n m \<Longrightarrow> fst (nonce_cache_step cap ttl t n m)"
  by (auto simp: nonce_cache_step_def Let_def jm_has_def)

lemma generatePoT_Inr:
  assumes "generatePoT hmac results rand now c = Inr pot"
  shows "fulfilled_values results \<noteq> [] \<and>
     hp_timestamp pot = fst (select_time (fulfilled_values results)) \<and>
     hp_sources pot = int (length (fulfilled_values results)) \<and>
     hp_sourceReadings pot = map reading_entry (sort_key tr_timestamp (fulfilled_values results)) \<and>
     hp_hmac pot = computeHmac hmac (hp_timestamp pot) (hp_nonce pot) (hp_expiresAt pot) (hp_sources pot) (hmacSecret c)"
  using assms by (auto simp: generatePoT_def Let_def bindr_Inr split: if_splits prod.splits)

text \<open>
  C17. What the HTTP client generates, any client with the same secret accepts the first
  time it sees it before the expiry, exactly when every reading is within the verifier's
  tolerance of the synthesized time.  In particular generating does not use up the nonce.
\<close>

theorem http_generated_verifies:
  assumes "generatePoT hmac results rand now c = Inr pot"
    and "hmacSecret c' = hmacSecret c"
    and "\<not> jm_has (hp_nonce pot) (hc_usedNonces c')"
    and "t_exp \<le> hp_expiresAt pot"
  shows "accepts (verifyPoT hmac t_exp t_now pot c') \<longleftrightarrow>
    (\<forall>r \<in> set (fulfilled_values results).
       \<bar>tr_timestamp r - fst (select_time (fulfilled_values results))\<bar> \<le> toleranceNs c')"
proof -
  note g = generatePoT_Inr [OF assms(1)]
  have ts: "hp_timestamp pot = fst (select_time (fulfilled_values results))"
    and sr: "hp_sourceReadings pot = map reading_entry (sort_key tr_timestamp (fulfilled_values results))"
    and h: "hp_hmac pot = computeHmac hmac (hp_timestamp pot) (hp_nonce pot) (hp_expiresAt pot) (hp_sources pot) (hmacSecret c)"
    using g by blast+
  have "(\<forall>r \<in> set (hp_sourceReadings pot). \<bar>sr_timestamp r - hp_timestamp pot\<bar> \<le> toleranceNs c') \<longleftrightarrow>
    (\<forall>r \<in> set (fulfilled_values results).
       \<bar>tr_timestamp r - fst (select_time (fulfilled_values results))\<bar> \<le> toleranceNs c')"
    unfolding sr ts by (simp add: reading_entry_def)
  then show ?thesis
    unfolding verify_accepts_iff
    using assms(2-4) nonce_step_fresh [OF assms(3)] h by (simp add: computeHmac_def)
qed

definition toy_hmac :: "string \<Rightarrow> string \<Rightarrow> bytes" where
  "toy_hmac secret msg = take 32 (utf8_encode (secret @ msg) @ replicate 32 0)"

definition sample_client :: http_client where
  "sample_client = HttpOnlyClient None None None None"

lemma sample_client_fields [simp]:
  "hc_usedNonces sample_client = []" "hmacSecret sample_client = SANDBOX_HMAC_SECRET"
  "toleranceNs sample_client = 2000000000" "expirySeconds sample_client = 60"
  by (simp_all add: sample_client_def HttpOnlyClient_def)

lemma generate_http_sample:
  "\<exists>pot. generatePoT toy_hmac [Fulfilled (sample_reading ''nist'' 1000), Rejected (JsError ''x'')]
           (replicate 16 1) 77 sample_client = Inr pot \<and> hp_expiresAt pot = 60077"
  by (simp add: generatePoT_def Let_def select_time_def)

lemma http_generated_verifies_witness:
  "\<exists>pot. generatePoT toy_hmac [Fulfilled (sample_reading ''nist'' 1000), Rejected (JsError ''x'')]
           (replicate 16 1) 77 sample_client = Inr pot \<and>
         accepts (verifyPoT toy_hmac 60077 60078 pot sample_client)"
proof -
  obtain pot where g: "generatePoT toy_hmac [Fulfilled (sample_reading ''nist'' 1000), Rejected (JsError ''x'')]
           (replicate 16 1) 77 sample_client = Inr pot" and e: "hp_expiresAt pot = 60077"
    using generate_http_sample by blast
  have "accepts (verifyPoT toy_hmac 60077 60078 pot sample_client)"
    by (subst http_generated_verifies [OF g refl])
       (simp_all add: e jm_has_def select_time_def sample_reading_def)
  with g show ?thesis by blast
qed

text \<open>
  C18. The HMAC binds the canonical fields.  Take a proof that a client accepts, and change its
  timestamp, its nonce, its expiry or its number of sources, but not its HMAC.  Then the canonical
  message changes, and a client with the same secret accepts the changed proof only if the keyed
  hash gives these two messages, the old one and the new one, the same digest.
\<close>

theorem http_hmac_binds:
  fixes hmac :: "string \<Rightarrow> string \<Rightarrow> bytes" and pot pot' :: http_pot
  defines "msg \<equiv> \<lambda>p. canonical_msg (hp_timestamp p) (hp_nonce p) (hp_expiresAt p) (hp_sources p)"
  assumes ok: "accepts (verifyPoT hmac t1 t2 pot c)" and secret: "hmacSecret c' = hmacSecret c"
    and kept: "hp_hmac pot' = hp_hmac pot"
    and changed: "(hp_timestamp pot', hp_nonce pot', hp_expiresAt pot', hp_sources pot') \<noteq>
      (hp_timestamp pot, hp_nonce pot, hp_expiresAt pot, hp_sources pot)"
  shows "msg pot' \<noteq> msg pot \<and>
     (accepts (verifyPoT hmac t3 t4 pot' c') \<longrightarrow> hmac (hmacSecret c) (msg pot') = hmac (hmacSecret c) (msg pot))"
  using ok secret kept changed unfolding verify_accepts_iff msg_def canonical_fields by metis

text \<open>
  The other fields are not bound: a proof that is accepted stays acceptable when its
  readings are removed, which makes the divergence check pass vacuously, and when its
  confidence and stratum are replaced by any other values.
\<close>

theorem http_readings_unprotected:
  assumes "accepts (verifyPoT hmac t_exp t_now pot c)"
  shows "accepts (verifyPoT hmac t_exp t_now
           (pot\<lparr>hp_sourceReadings := [], hp_confidence := conf, hp_stratum := k\<rparr>) c)"
  using assms unfolding verify_accepts_iff by simp

definition sample_http_pot :: http_pot where
  "sample_http_pot = \<lparr>hp_timestamp = 1000, hp_confidence = 1, hp_stratum = 2, hp_sources = 1,
     hp_sourceReadings = [reading_entry (sample_reading ''nist'' 1000)], hp_nonce = ''ab'',
     hp_expiresAt = 60000, hp_hmac = computeHmac toy_hmac 1000 ''ab'' 60000 1 SANDBOX_HMAC_SECRET\<rparr>"

lemma sample_http_accepted: "accepts (verifyPoT toy_hmac 5 6 sample_http_pot sample_client)"
  unfolding verify_accepts_iff
  by (simp add: sample_http_pot_def computeHmac_def nonce_step_fresh jm_has_def reading_entry_def sample_reading_def)

text \<open>A keyed hash that tells all messages apart, and a proof with one more source written into it.\<close>

definition plain_hmac :: "string \<Rightarrow> string \<Rightarrow> bytes" where
  "plain_hmac secret msg = utf8_encode msg"

definition plain_http_pot :: http_pot where
  "plain_http_pot = sample_http_pot\<lparr>hp_hmac := computeHmac plain_hmac 1000 ''ab'' 60000 1 SANDBOX_HMAC_SECRET\<rparr>"

lemma plain_http_accepted: "accepts (verifyPoT plain_hmac 5 6 plain_http_pot sample_client)"
  unfolding verify_accepts_iff
  by (simp add: plain_http_pot_def sample_http_pot_def computeHmac_def nonce_step_fresh jm_has_def reading_entry_def
      sample_reading_def)

lemma http_hmac_binds_witness:
  "accepts (verifyPoT plain_hmac 5 6 plain_http_pot sample_client) \<and>
   \<not> accepts (verifyPoT plain_hmac 5 6 (plain_http_pot\<lparr>hp_sources := 2\<rparr>) sample_client)"
proof -
  let ?p = "plain_http_pot\<lparr>hp_sources := 2\<rparr>"
  have inj: "plain_hmac s m = plain_hmac s m' \<longleftrightarrow> m = m'" for s m m'
    unfolding plain_hmac_def by (metis option.inject utf8_decode_encode)
  have "(hp_timestamp ?p, hp_nonce ?p, hp_expiresAt ?p, hp_sources ?p) \<noteq>
      (hp_timestamp plain_http_pot, hp_nonce plain_http_pot, hp_expiresAt plain_http_pot, hp_sources plain_http_pot)"
    by (simp add: plain_http_pot_def sample_http_pot_def)
  from http_hmac_binds [where ?t3.0 = 5 and ?t4.0 = 6 and c' = sample_client, OF plain_http_accepted refl _ this]
  show ?thesis
    using plain_http_accepted unfolding inj by (auto simp del: http_pot.update_convs)
qed

lemma http_readings_unprotected_witness:
  "accepts (verifyPoT toy_hmac 5 6 (sample_http_pot\<lparr>hp_sourceReadings := [], hp_confidence := 7, hp_stratum := 1\<rparr>) sample_client)"
  by (rule http_readings_unprotected [OF sample_http_accepted])

text \<open>
  The verifier throws, instead of answering, exactly for an unexpired proof whose
  \<open>hmac\<close> text does not decode to as many bytes as the digest has.
\<close>

theorem http_verify_throws_iff:
  "(\<exists>e. fst (verifyPoT hmac t_exp t_now pot c) = Inl e) \<longleftrightarrow>
     t_exp \<le> hp_expiresAt pot \<and>
     length (hex_decode (hp_hmac pot)) \<noteq>
       length (hmac (hmacSecret c) (canonical_msg (hp_timestamp pot) (hp_nonce pot) (hp_expiresAt pot) (hp_sources pot)))"
  by (auto simp: verifyPoT_def Let_def timingSafeEqual_def computeHmac_def split: prod.splits option.splits)

definition http_verify_all ::
    "(string \<Rightarrow> string \<Rightarrow> bytes) \<Rightarrow> (int \<times> int \<times> http_pot) list \<Rightarrow> http_client \<Rightarrow> http_client" where
  "http_verify_all hmac calls c = fold (\<lambda>(te, tn, p) c. snd (verifyPoT hmac te tn p c)) calls c"

text \<open>
  The HTTP client accepts no nonce twice within five minutes, through up to 9999
  verifications in between.
\<close>

theorem http_no_replay:
  assumes "nonce_cache_ok MAX_NONCE_CACHE (hc_usedNonces c)"
    and "accepts (verifyPoT hmac t_exp t_now pot c)"
    and "hp_nonce pot' = hp_nonce pot"
    and "length calls \<le> 9999" and "\<forall>(te, tn, p) \<in> set calls. tn \<le> t_now + NONCE_TTL_MS"
    and "t_now' \<le> t_now + NONCE_TTL_MS"
  shows "\<not> accepts (verifyPoT hmac t_exp' t_now' pot'
            (http_verify_all hmac calls (snd (verifyPoT hmac t_exp t_now pot c))))"
proof -
  let ?check = "nonce_cache_step MAX_NONCE_CACHE NONCE_TTL_MS"
  have "\<not> fst (?check t_now' (hp_nonce pot)
            (hc_usedNonces (http_verify_all hmac calls (snd (verifyPoT hmac t_exp t_now pot c)))))"
    unfolding http_verify_all_def
  proof (rule capped.no_replay [where cache = hc_usedNonces and ?s0.0 = c and ?t0.0 = t_now])
    show "fst (?check t_now (hp_nonce pot) (hc_usedNonces c))"
      using assms(2) unfolding verify_accepts_iff by blast
    show "hc_usedNonces (snd (verifyPoT hmac t_exp t_now pot c)) = snd (?check t_now (hp_nonce pot) (hc_usedNonces c))"
      by (rule verify_accepts_cache [OF assms(2)])
    show "hc_usedNonces ((case call of (te, tn, p) \<Rightarrow> \<lambda>c. snd (verifyPoT hmac te tn p c)) s) = hc_usedNonces s \<or>
          (\<exists>t m. t \<le> t_now + NONCE_TTL_MS \<and>
             hc_usedNonces ((case call of (te, tn, p) \<Rightarrow> \<lambda>c. snd (verifyPoT hmac te tn p c)) s) = snd (?check t m (hc_usedNonces s)))"
      if "call \<in> set calls" for call s
    proof (cases call)
      case (fields te tn p)
      then have "tn \<le> t_now + NONCE_TTL_MS" using assms(5) that by auto
      then show ?thesis using verify_any_cache [of hmac te tn p s] fields by auto
    qed
  qed (use assms(1,4,6) in simp_all)
  then show ?thesis unfolding verify_accepts_iff assms(3) by blast
qed

lemma http_no_replay_witness:
  "\<not> accepts (verifyPoT toy_hmac 8 9 sample_http_pot
        (http_verify_all toy_hmac [(7, 8, sample_http_pot\<lparr>hp_nonce := ''cd''\<rparr>)]
           (snd (verifyPoT toy_hmac 5 6 sample_http_pot sample_client))))"
  by (rule http_no_replay [OF _ sample_http_accepted])
     (simp_all add: NONCE_TTL_MS_def nonce_cache_ok_def)

end
