(* ===== verification/AdaptiveSwitch.thy ===== *)
theory AdaptiveSwitch
  imports Json
begin

text \<open>
  The client-side mode switch of \<open>src/adaptive_switch.ts\<close>: a window of the last twenty
  sequence checks decides between the modes TURBO and FULL, with hysteresis.  Rates are
  rationals; the two thresholds are compared with quotients of at most twenty, for which
  double arithmetic decides the same way.
\<close>

section \<open>State and operations\<close>

datatype adaptive_mode = TURBO | FULL

record ttt_record =
  rec_time :: int
  txOrder :: "string list"
  grgPayload :: "bytes list"

record block =
  blk_timestamp :: int
  blk_txs :: "string list"
  blk_data :: bytes

fun TIER_TOLERANCE_MS :: "string \<Rightarrow> int option" where
  "TIER_TOLERANCE_MS t =
     (if t = ''T0_epoch'' then Some 2000 else if t = ''T1_block'' then Some 200
      else if t = ''T2_slot'' then Some 500 else if t = ''T3_micro'' then Some 10 else None)"

record adaptive_switch =
  as_history :: "bool list"
  currentMode :: adaptive_mode
  penaltyCooldown :: int
  consecutiveFailures :: int
  as_tolerance :: int

definition windowSize :: nat where "windowSize = 20"
definition minBlocks :: nat where "minBlocks = 20"
definition turboEntryThreshold :: rat where "turboEntryThreshold = 95 / 100"
definition turboMaintainThreshold :: rat where "turboMaintainThreshold = 85 / 100"

definition AdaptiveSwitch :: "int option \<Rightarrow> adaptive_switch" where
  "AdaptiveSwitch tol =
     \<lparr>as_history = [], currentMode = FULL, penaltyCooldown = 0, consecutiveFailures = 0,
      as_tolerance = (case tol of None \<Rightarrow> 100 | Some t \<Rightarrow> t)\<rparr>"

fun compareTransactionOrder :: "string list \<Rightarrow> string list \<Rightarrow> bool" where
  "compareTransactionOrder [] [] = True"
| "compareTransactionOrder (a # as) (b # bs) = (if a \<noteq> b then False else compareTransactionOrder as bs)"
| "compareTransactionOrder _ _ = False"

definition sequence_ok :: "block \<Rightarrow> ttt_record \<Rightarrow> string option \<Rightarrow> adaptive_switch \<Rightarrow> bool" where
  "sequence_ok b r tier s =
     (let orderMatch = compareTransactionOrder (blk_txs b) (txOrder r);
          tol = (case tier of
                   None \<Rightarrow> as_tolerance s
                 | Some t \<Rightarrow> if t = [] then as_tolerance s
                             else (case TIER_TOLERANCE_MS t of None \<Rightarrow> as_tolerance s | Some x \<Rightarrow> x));
          timeMatch = \<bar>blk_timestamp b - rec_time r\<bar> < tol
      in orderMatch \<and> timeMatch)"

definition push_window :: "bool list \<Rightarrow> bool \<Rightarrow> bool list" where
  "push_window history ok =
     (let pushed = history @ [ok] in if length pushed > windowSize then tl pushed else pushed)"

definition turbo_allowed :: "adaptive_mode \<Rightarrow> int \<Rightarrow> bool list \<Rightarrow> bool" where
  "turbo_allowed mode cooldown history =
     (let matchCount = length (filter (\<lambda>h. h) history);
          matchRate = (if length history > 0 then of_nat matchCount / of_nat (length history) else 0);
          effectiveThreshold = (if mode = TURBO then turboMaintainThreshold else turboEntryThreshold)
      in length history \<ge> minBlocks \<and> matchRate \<ge> effectiveThreshold \<and> cooldown = 0)"

definition verifyBlock ::
    "block \<Rightarrow> ttt_record \<Rightarrow> string option \<Rightarrow> adaptive_switch \<Rightarrow> adaptive_mode \<times> adaptive_switch" where
  "verifyBlock b r tier s =
     (let hist = push_window (as_history s) (sequence_ok b r tier s);
          cooldown = (if penaltyCooldown s > 0 then penaltyCooldown s - 1 else penaltyCooldown s)
      in if turbo_allowed (currentMode s) cooldown hist
         then (TURBO, s\<lparr>as_history := hist, penaltyCooldown := cooldown, currentMode := TURBO, consecutiveFailures := 0\<rparr>)
         else (FULL, s\<lparr>as_history := hist, penaltyCooldown := cooldown, currentMode := FULL\<rparr>))"

definition getFeeDiscount :: "adaptive_switch \<Rightarrow> rat" where
  "getFeeDiscount s = (if currentMode s = TURBO then 2 / 10 else 0)"

definition getCurrentMode :: "adaptive_switch \<Rightarrow> adaptive_mode" where
  "getCurrentMode s = currentMode s"

definition reset_switch :: "adaptive_switch \<Rightarrow> adaptive_switch" where
  "reset_switch s = s\<lparr>as_history := [], currentMode := FULL, penaltyCooldown := 0, consecutiveFailures := 0\<rparr>"

fun mode_text :: "adaptive_mode \<Rightarrow> string" where
  "mode_text TURBO = ''TURBO''"
| "mode_text FULL = ''FULL''"

definition serialize_switch :: "adaptive_switch \<Rightarrow> json" where
  "serialize_switch s =
     JObj [(''history'', JArr (map JBool (as_history s))), (''currentMode'', JStr (mode_text (currentMode s))),
           (''consecutiveFailures'', JNum (of_int (consecutiveFailures s))),
           (''penaltyCooldown'', JNum (of_int (penaltyCooldown s))),
           (''tolerance'', JNum (of_int (as_tolerance s)))]"

text \<open>
  Reading back.  The code assigns whatever the text holds; here a field that does not have
  the type of the class gives \<open>None\<close>.
\<close>

definition json_mode :: "json option \<Rightarrow> adaptive_mode option" where
  "json_mode v = (case v of Some (JStr m) \<Rightarrow>
       if m = ''TURBO'' then Some TURBO else if m = ''FULL'' then Some FULL else None | _ \<Rightarrow> None)"

definition json_int :: "json option \<Rightarrow> int option" where
  "json_int v = (case v of Some (JNum r) \<Rightarrow> if of_int \<lfloor>r\<rfloor> = r then Some \<lfloor>r\<rfloor> else None | _ \<Rightarrow> None)"

fun json_bool :: "json \<Rightarrow> bool option" where
  "json_bool (JBool b) = Some b"
| "json_bool _ = None"

definition deserialize_switch :: "json \<Rightarrow> adaptive_switch option" where
  "deserialize_switch data =
     (let fs = js_fields data;
          tol = (case jm_get ''tolerance'' fs of
                   None \<Rightarrow> Some 100 | Some JNull \<Rightarrow> Some 100 | v \<Rightarrow> json_int v);
          hist = (case jm_get ''history'' fs of Some (JArr xs) \<Rightarrow> those (map json_bool xs) | _ \<Rightarrow> None)
      in case (tol, hist, json_mode (jm_get ''currentMode'' fs),
               json_int (jm_get ''consecutiveFailures'' fs), json_int (jm_get ''penaltyCooldown'' fs)) of
           (Some t, Some h, Some m, Some cf, Some pc) \<Rightarrow>
             Some ((AdaptiveSwitch (Some t))\<lparr>as_history := h, currentMode := m,
                     consecutiveFailures := cf, penaltyCooldown := pc\<rparr>)
         | _ \<Rightarrow> None)"

section \<open>Order comparison and serialization\<close>

lemma compareTransactionOrder_eq: "compareTransactionOrder xs ys \<longleftrightarrow> xs = ys"
  by (induction xs ys rule: compareTransactionOrder.induct) auto

lemma those_bools: "those (map (json_bool \<circ> JBool) h) = Some h"
  by (induction h) simp_all

lemma json_int_of_int [simp]: "json_int (Some (JNum (of_int i))) = Some i"
  by (simp add: json_int_def)

lemma switch_serialize_round_trip: "deserialize_switch (serialize_switch s) = Some s"
  by (cases "currentMode s")
     (simp_all add: deserialize_switch_def serialize_switch_def jm_get_def AdaptiveSwitch_def Let_def
        those_bools json_mode_def)

interpretation switch_form: lossless_codec serialize_switch deserialize_switch "\<lambda>_. True" Some
  by unfold_locales (simp_all add: switch_serialize_round_trip inj_on_def)

section \<open>The mode over a run\<close>

type_synonym observation = "block \<times> ttt_record \<times> string option"

definition observe :: "observation \<Rightarrow> adaptive_switch \<Rightarrow> adaptive_switch" where
  "observe x s = (case x of (b, r, tier) \<Rightarrow> snd (verifyBlock b r tier s))"

definition observe_all :: "int option \<Rightarrow> observation list \<Rightarrow> adaptive_switch" where
  "observe_all tol xs = fold observe xs (AdaptiveSwitch tol)"

text \<open>What a check concludes: the same order, and times closer than the tolerance.\<close>

definition observation_ok :: "int option \<Rightarrow> observation \<Rightarrow> bool" where
  "observation_ok tol x =
     (case x of (b, r, tier) \<Rightarrow>
        blk_txs b = txOrder r \<and>
        \<bar>blk_timestamp b - rec_time r\<bar> <
          (case Option.bind tier TIER_TOLERANCE_MS of Some t \<Rightarrow> t
           | None \<Rightarrow> (case tol of None \<Rightarrow> 100 | Some t \<Rightarrow> t)))"

text \<open>The window is a bounded log of the outcomes.\<close>

interpretation window: bounded_log "\<lambda>h hs. push_window hs h" windowSize
  by unfold_locales (simp_all add: push_window_def windowSize_def)

lemma sequence_ok_observation:
  "as_tolerance s = (case tol of None \<Rightarrow> 100 | Some t \<Rightarrow> t) \<Longrightarrow>
   sequence_ok b r tier s = observation_ok tol (b, r, tier)"
  by (cases tier) (auto simp: sequence_ok_def observation_ok_def compareTransactionOrder_eq Let_def split: option.splits)

definition switch_inv :: "int option \<Rightarrow> observation list \<Rightarrow> adaptive_switch \<Rightarrow> bool" where
  "switch_inv tol xs s \<longleftrightarrow>
     as_history s = newest windowSize (map (observation_ok tol) xs) \<and> penaltyCooldown s = 0 \<and> consecutiveFailures s = 0 \<and>
     as_tolerance s = (case tol of None \<Rightarrow> 100 | Some t \<Rightarrow> t)"

lemma verifyBlock_fields:
  "as_history (snd (verifyBlock b r tier s)) = push_window (as_history s) (sequence_ok b r tier s)"
  "penaltyCooldown (snd (verifyBlock b r tier s)) = (if penaltyCooldown s > 0 then penaltyCooldown s - 1 else penaltyCooldown s)"
  "as_tolerance (snd (verifyBlock b r tier s)) = as_tolerance s"
  "consecutiveFailures s = 0 \<Longrightarrow> consecutiveFailures (snd (verifyBlock b r tier s)) = 0"
  "currentMode (snd (verifyBlock b r tier s)) = fst (verifyBlock b r tier s)"
  by (simp_all add: verifyBlock_def Let_def)

lemma switch_inv_observe: "switch_inv tol xs s \<Longrightarrow> switch_inv tol (xs @ [x]) (observe x s)"
  by (cases x) (simp add: switch_inv_def observe_def verifyBlock_fields sequence_ok_observation window.push_newest)

lemma switch_inv_all: "switch_inv tol xs (observe_all tol xs)"
proof (induction xs rule: rev_induct)
  case Nil
  show ?case by (simp add: switch_inv_def observe_all_def AdaptiveSwitch_def)
next
  case (snoc x xs)
  then show ?case using switch_inv_observe by (simp add: observe_all_def)
qed

lemma rate_threshold:
  "(of_nat m / 20 \<ge> turboEntryThreshold) = (19 \<le> m)"
  "(of_nat m / 20 \<ge> turboMaintainThreshold) = (17 \<le> m)"
proof -
  have "(of_nat m / 20 \<ge> (95 / 100 :: rat)) = (of_nat 19 \<le> (of_nat m :: rat))" by auto
  then show "(of_nat m / 20 \<ge> turboEntryThreshold) = (19 \<le> m)"
    unfolding turboEntryThreshold_def of_nat_le_iff .
  have "(of_nat m / 20 \<ge> (85 / 100 :: rat)) = (of_nat 17 \<le> (of_nat m :: rat))" by auto
  then show "(of_nat m / 20 \<ge> turboMaintainThreshold) = (17 \<le> m)"
    unfolding turboMaintainThreshold_def of_nat_le_iff .
qed

text \<open>
  C19. The mode after any run of blocks: TURBO exactly when at least twenty blocks were
  seen and, of the last twenty, nineteen passed the order and time check, or seventeen when
  the mode was already TURBO.  So one failing block never ends TURBO by itself.
\<close>

theorem switch_mode_characterised:
  "currentMode (observe_all tol (xs @ [x])) = TURBO \<longleftrightarrow>
     20 \<le> length (xs @ [x]) \<and>
     (if currentMode (observe_all tol xs) = TURBO then 17 else 19)
       \<le> length (filter (observation_ok tol) (drop (length (xs @ [x]) - 20) (xs @ [x])))"
proof -
  obtain b r tier where x: "x = (b, r, tier)" by (cases x)
  let ?s = "observe_all tol xs"
  let ?h = "newest windowSize (map (observation_ok tol) (xs @ [x]))"
  have inv: "switch_inv tol xs ?s" by (rule switch_inv_all)
  have "?h = map (observation_ok tol) (drop (length (xs @ [x]) - 20) (xs @ [x]))"
    by (simp add: newest_def windowSize_def drop_map)
  then have cnt: "length (filter (\<lambda>h. h) ?h) = length (filter (observation_ok tol) (drop (length (xs @ [x]) - 20) (xs @ [x])))"
    by (simp add: filter_map comp_def)
  have len: "length ?h \<ge> 20 \<longleftrightarrow> 20 \<le> length (xs @ [x])" and l20: "length ?h \<ge> 20 \<Longrightarrow> length ?h = 20"
    by (auto simp: newest_def windowSize_def)
  have "push_window (as_history ?s) (sequence_ok b r tier ?s) = ?h"
    using inv by (simp add: switch_inv_def x sequence_ok_observation window.push_newest)
  then have "fst (verifyBlock b r tier ?s) = TURBO \<longleftrightarrow> turbo_allowed (currentMode ?s) 0 ?h"
    using inv by (simp add: verifyBlock_def switch_inv_def Let_def)
  also have "\<dots> \<longleftrightarrow> length ?h \<ge> 20 \<and>
      of_nat (length (filter (\<lambda>h. h) ?h)) / of_nat (length ?h) \<ge>
        (if currentMode ?s = TURBO then turboMaintainThreshold else turboEntryThreshold)"
    unfolding turbo_allowed_def Let_def minBlocks_def by auto
  also have "\<dots> \<longleftrightarrow> length ?h \<ge> 20 \<and>
      (if currentMode ?s = TURBO then 17 else 19) \<le> length (filter (\<lambda>h. h) ?h)"
    using l20 rate_threshold [of "length (filter (\<lambda>h. h) ?h)"] by auto
  finally have "fst (verifyBlock b r tier ?s) = TURBO \<longleftrightarrow> length ?h \<ge> 20 \<and>
      (if currentMode ?s = TURBO then 17 else 19) \<le> length (filter (\<lambda>h. h) ?h)" .
  moreover have "observe_all tol (xs @ [x]) = snd (verifyBlock b r tier ?s)"
    by (simp add: observe_all_def observe_def x)
  ultimately show ?thesis
    unfolding cnt len by (simp add: verifyBlock_fields(5))
qed

text \<open>
  The penalty never happens: whatever the blocks, the cooldown and the count of
  failures stay zero, so a run of failures is forgotten as soon as the window has turned.
\<close>

theorem switch_no_penalty:
  "penaltyCooldown (observe_all tol xs) = 0 \<and> consecutiveFailures (observe_all tol xs) = 0"
  using switch_inv_all [of tol xs] by (simp add: switch_inv_def)

end
