(* ===== verification/PotFrame.thy ===== *)
theory PotFrame
  imports Errors Bytes
begin

text \<open>
  The 175-byte frame of \<open>src/pot_frame.ts\<close> and the TLS exporter binding of
  \<open>src/tls_binding.ts\<close>.  A TLS socket is what the code uses of it: whether it is encrypted,
  its exporter (RFC 5705), which throws when the socket is not connected, and its session.
\<close>

section \<open>Frames\<close>

definition POT_RECORD_SIZE :: nat where "POT_RECORD_SIZE = 143"
definition POT_WITHOUT_SIG_SIZE :: nat where "POT_WITHOUT_SIG_SIZE = 79"
definition BINDING_KEY_SIZE :: nat where "BINDING_KEY_SIZE = 32"
definition POT_FRAME_SIZE :: nat where "POT_FRAME_SIZE = 175"

record pot_frame =
  bindingKey :: bytes
  potRecord :: bytes
  fr_version :: nat
  fr_tier :: nat
  fr_reserved :: nat
  fr_timestamp :: int
  fr_confidence :: nat
  fr_nonce :: bytes
  grgCommit :: bytes
  ed25519Sig :: bytes

definition show_nat :: "nat \<Rightarrow> string" where "show_nat n = show_int (int n)"

definition encodePotFrame :: "bytes \<Rightarrow> bytes \<Rightarrow> js_exn + bytes" where
  "encodePotFrame key rec =
     (if length key \<noteq> BINDING_KEY_SIZE then
        Inl (PotFrameError (''binding_key must be '' @ show_nat BINDING_KEY_SIZE @ '' bytes, got '' @ show_nat (length key)))
      else if length rec \<noteq> POT_RECORD_SIZE then
        Inl (PotFrameError (''pot_record must be '' @ show_nat POT_RECORD_SIZE @ '' bytes, got '' @ show_nat (length rec)))
      else Inr (key @ rec))"

definition decodePotFrame :: "bytes \<Rightarrow> js_exn + pot_frame" where
  "decodePotFrame frame =
     (if length frame \<noteq> POT_FRAME_SIZE then
        Inl (PotFrameError (''PoT frame must be '' @ show_nat POT_FRAME_SIZE @ '' bytes, got '' @ show_nat (length frame)))
      else
        let key = subarray 0 BINDING_KEY_SIZE frame;
            rec = subarray BINDING_KEY_SIZE POT_FRAME_SIZE frame;
            versionTier = rec ! 0
        in Inr \<lparr>bindingKey = key, potRecord = rec,
                fr_version = unat (and (drop_bit 4 versionTier) 0x0F),
                fr_tier = unat (and versionTier 0x0F),
                fr_reserved = unat (rec ! 2),
                fr_timestamp = int (be_val (subarray 3 11 rec)),
                fr_confidence = be_val (subarray 11 15 rec),
                fr_nonce = subarray 15 47 rec,
                grgCommit = subarray 47 79 rec,
                ed25519Sig = subarray 79 143 rec\<rparr>)"

definition potRecordWithoutSig :: "bytes \<Rightarrow> js_exn + bytes" where
  "potRecordWithoutSig rec =
     (if length rec \<noteq> POT_RECORD_SIZE then
        Inl (PotFrameError (''pot_record must be '' @ show_nat POT_RECORD_SIZE @ '' bytes''))
      else Inr (subarray 0 POT_WITHOUT_SIG_SIZE rec))"

definition validatePotFrameStructure :: "(nat \<Rightarrow> string) \<Rightarrow> bytes \<Rightarrow> js_exn + unit" where
  "validatePotFrameStructure hex16 frame =
     (if length frame \<noteq> POT_FRAME_SIZE then
        Inl (PotFrameError (''Expected '' @ show_nat POT_FRAME_SIZE @ '' bytes, got '' @ show_nat (length frame)))
      else bindr (decodePotFrame frame) (\<lambda>parsed.
        if fr_version parsed \<noteq> 1 then
          Inl (PotFrameError (''Unknown PoT version: '' @ show_nat (fr_version parsed) @ ''. Expected 1.''))
        else if fr_tier parsed > 3 then
          Inl (PotFrameError (''Invalid tier: '' @ show_nat (fr_tier parsed) @ ''. Valid range 0-3.''))
        else if fr_reserved parsed \<noteq> 0 then
          Inl (PotFrameError (''Reserved field must be 0x00, got 0x'' @ hex16 (fr_reserved parsed)))
        else Inr ()))"

section \<open>The layout\<close>

lemma low_nibble: "unat (and b 0x0F :: byte) = unat b mod 16"
proof -
  have "and b 0x0F = take_bit 4 b" using take_bit_eq_mask [of 4 b] by (simp add: mask_eq_exp_minus_1)
  then have "unat (and b 0x0F) = take_bit 4 (unat b)" by (simp only: unsigned_take_bit_eq)
  then show ?thesis by (simp add: take_bit_eq_mod)
qed

lemma high_nibble: "unat (and (drop_bit 4 b) 0x0F :: byte) = unat b div 16"
proof -
  have "unat (drop_bit 4 b) = unat b div 16"
    by (simp only: unat_drop_bit_eq) (simp add: drop_bit_eq_div)
  moreover have "unat b div 16 < 16" using unat_byte_less [of b] by linarith
  ultimately show ?thesis unfolding low_nibble by simp
qed

lemma split_at: "k \<le> length xs \<Longrightarrow> xs = subarray 0 k xs @ subarray k (length xs) xs"
  by (simp add: subarray_def)

lemma subarray_split:
  assumes "a \<le> b" "b \<le> c"
  shows "subarray a c xs = subarray a b xs @ subarray b c xs"
proof -
  have "c - a = (b - a) + (c - b)" and "(b - a) + a = b" using assms by simp_all
  then show ?thesis unfolding subarray_def by (simp only: take_add drop_drop)
qed

lemma subarray_three: "3 \<le> length xs \<Longrightarrow> subarray 0 3 xs = [xs ! 0, xs ! 1, xs ! 2]"
  by (auto simp: subarray_def numeral_3_eq_3 numeral_2_eq_2 Suc_le_length_iff)

lemma decode_frame_eq:
  "length frame = 175 \<Longrightarrow> \<exists>f. decodePotFrame frame = Inr f"
  by (simp add: decodePotFrame_def POT_FRAME_SIZE_def Let_def)

lemma decoded_layout:
  assumes "decodePotFrame frame = Inr f"
  shows "(\<exists>sourceCount. potRecord f =
            [word_of_nat (16 * fr_version f + fr_tier f), sourceCount, word_of_nat (fr_reserved f)]
            @ be_bytes 8 (nat (fr_timestamp f)) @ be_bytes 4 (fr_confidence f)
            @ fr_nonce f @ grgCommit f @ ed25519Sig f) \<and>
         fr_version f < 16 \<and> fr_tier f < 16 \<and> length (fr_nonce f) = 32 \<and>
         length (grgCommit f) = 32 \<and> length (ed25519Sig f) = 64 \<and>
         encodePotFrame (bindingKey f) (potRecord f) = Inr frame"
proof -
  let ?rec = "subarray 32 175 frame"
  have len: "length frame = 175" and f: "f = \<lparr>bindingKey = subarray 0 32 frame, potRecord = ?rec,
        fr_version = unat (and (drop_bit 4 (?rec ! 0)) 0x0F), fr_tier = unat (and (?rec ! 0) 0x0F),
        fr_reserved = unat (?rec ! 2), fr_timestamp = int (be_val (subarray 3 11 ?rec)),
        fr_confidence = be_val (subarray 11 15 ?rec), fr_nonce = subarray 15 47 ?rec,
        grgCommit = subarray 47 79 ?rec, ed25519Sig = subarray 79 143 ?rec\<rparr>"
    using assms by (auto simp: decodePotFrame_def Let_def POT_FRAME_SIZE_def BINDING_KEY_SIZE_def split: if_splits)
  have rlen: "length ?rec = 143" using len by simp
  have byte0: "word_of_nat (16 * fr_version f + fr_tier f) = ?rec ! 0"
  proof -
    have "16 * fr_version f + fr_tier f = unat (?rec ! 0)"
      unfolding f pot_frame.select_convs
      by (simp only: high_nibble) (simp only: low_nibble mult_div_mod_eq)
    then show ?thesis by (simp only: word_of_nat_unat_byte)
  qed
  have ts: "be_bytes 8 (nat (fr_timestamp f)) = subarray 3 11 ?rec"
    unfolding f pot_frame.select_convs nat_int by (rule be_bytes_be_val) (simp add: len)
  have cf: "be_bytes 4 (fr_confidence f) = subarray 11 15 ?rec"
    unfolding f pot_frame.select_convs by (rule be_bytes_be_val) (simp add: len)
  have "?rec = subarray 0 3 ?rec @ subarray 3 11 ?rec @ subarray 11 15 ?rec @ subarray 15 47 ?rec
         @ subarray 47 79 ?rec @ subarray 79 143 ?rec"
    using rlen by (simp flip: subarray_split)
  also have "subarray 0 3 ?rec = [?rec ! 0, ?rec ! 1, ?rec ! 2]"
    by (rule subarray_three) (simp add: len)
  finally have "?rec = [?rec ! 0, ?rec ! 1, ?rec ! 2] @ subarray 3 11 ?rec @ subarray 11 15 ?rec @ subarray 15 47 ?rec
         @ subarray 47 79 ?rec @ subarray 79 143 ?rec" .
  then have lay: "\<exists>sc. potRecord f = [word_of_nat (16 * fr_version f + fr_tier f), sc, word_of_nat (fr_reserved f)]
            @ be_bytes 8 (nat (fr_timestamp f)) @ be_bytes 4 (fr_confidence f)
            @ fr_nonce f @ grgCommit f @ ed25519Sig f"
    unfolding byte0 ts cf by (intro exI [of _ "?rec ! 1"]) (simp only: f pot_frame.select_convs word_of_nat_unat_byte)
  have "fr_version f < 16" "fr_tier f < 16"
    unfolding f pot_frame.select_convs low_nibble by simp_all
  moreover have "encodePotFrame (bindingKey f) (potRecord f) = Inr frame"
    using len split_at [of 32 frame]
    by (simp add: f encodePotFrame_def BINDING_KEY_SIZE_def POT_RECORD_SIZE_def)
  ultimately show ?thesis using lay by (simp add: f len)
qed

text \<open>
  C28. The layout of a frame.  Decoding succeeds exactly on 175 bytes, and the fields are
  what the bytes hold: the binding key, version and tier in one byte, a byte that is
  skipped, the reserved byte, then the 64-bit time and the 32-bit confidence in network
  order, nonce, commitment and signature.  Encoding key and record gives the frame back.
\<close>

theorem decode_frame_layout:
  "case decodePotFrame frame of
     Inl e \<Rightarrow> length frame \<noteq> 175
   | Inr f \<Rightarrow> length frame = 175 \<and>
       (\<exists>sourceCount. potRecord f =
          [word_of_nat (16 * fr_version f + fr_tier f), sourceCount, word_of_nat (fr_reserved f)]
          @ be_bytes 8 (nat (fr_timestamp f)) @ be_bytes 4 (fr_confidence f)
          @ fr_nonce f @ grgCommit f @ ed25519Sig f) \<and>
       fr_version f < 16 \<and> fr_tier f < 16 \<and> length (fr_nonce f) = 32 \<and>
       length (grgCommit f) = 32 \<and> length (ed25519Sig f) = 64 \<and>
       encodePotFrame (bindingKey f) (potRecord f) = Inr frame"
proof (cases "length frame = 175")
  case False
  then show ?thesis by (simp add: decodePotFrame_def POT_FRAME_SIZE_def)
next
  case True
  then obtain f where "decodePotFrame frame = Inr f" using decode_frame_eq by blast
  then show ?thesis using decoded_layout True by simp
qed

section \<open>TLS binding\<close>

definition TTTPS_EXPORTER_LABEL :: string where "TTTPS_EXPORTER_LABEL = ''EXPORTER-tttps-pot-binding''"
definition TTTPS_BINDING_KEY_LENGTH :: nat where "TTTPS_BINDING_KEY_LENGTH = 32"

record tls_socket =
  encrypted :: bool
  exportKeyingMaterial :: "nat \<Rightarrow> string \<Rightarrow> bytes \<Rightarrow> js_exn + bytes"
  getSession :: "bytes option"

record binding_key_result =
  bk_bindingKey :: bytes
  bk_sessionId :: string

definition computeBindingKey :: "tls_socket \<Rightarrow> bytes \<Rightarrow> js_exn + binding_key_result" where
  "computeBindingKey socket potWithoutSig =
     (if \<not> encrypted socket then Inl (TLSBindingError ''Socket is not a TLS socket'')
      else bindr (exportKeyingMaterial socket TTTPS_BINDING_KEY_LENGTH TTTPS_EXPORTER_LABEL potWithoutSig) (\<lambda>key.
             Inr \<lparr>bk_bindingKey = key,
                  bk_sessionId = (case getSession socket of None \<Rightarrow> ''unknown'' | Some s \<Rightarrow> take 16 (hex_encode s))\<rparr>))"

definition binding_equal :: "bytes \<Rightarrow> bytes \<Rightarrow> bool" where
  "binding_equal a b = (if length a \<noteq> length b then False else a = b)"

definition verifyBindingKey :: "tls_socket \<Rightarrow> bytes \<Rightarrow> bytes \<Rightarrow> js_exn + bool" where
  "verifyBindingKey socket potWithoutSig receivedBindingKey =
     (if length receivedBindingKey \<noteq> TTTPS_BINDING_KEY_LENGTH then Inr False
      else bindr (computeBindingKey socket potWithoutSig) (\<lambda>r.
             Inr (binding_equal (bk_bindingKey r) receivedBindingKey)))"

lemma verifyBindingKey_True:
  "verifyBindingKey socket ctx key = Inr True \<longleftrightarrow>
     encrypted socket \<and> length key = 32 \<and> exportKeyingMaterial socket 32 TTTPS_EXPORTER_LABEL ctx = Inr key"
  by (auto simp: verifyBindingKey_def computeBindingKey_def binding_equal_def TTTPS_BINDING_KEY_LENGTH_def bindr_def
      split: sum.splits)

lemma verifyBindingKey_Inl:
  "verifyBindingKey socket ctx key = Inl e \<longleftrightarrow> length key = 32 \<and>
     (if encrypted socket then exportKeyingMaterial socket 32 TTTPS_EXPORTER_LABEL ctx = Inl e
      else e = TLSBindingError ''Socket is not a TLS socket'')"
  by (auto simp: verifyBindingKey_def computeBindingKey_def TTTPS_BINDING_KEY_LENGTH_def bindr_def split: sum.splits)

end
