(* ===== verification/PotVerifier.thy ===== *)
theory PotVerifier
  imports PotFrame ReplayGuard TimeTypes
begin

text \<open>
  Frame verification (\<open>src/pot_verifier.ts\<close>) over an abstract nonce cache, the in-memory
  cache with a time to live, and the Ed25519 signer of \<open>src/pot_signer.ts\<close>.  Signing,
  verification and the key encodings are parameters.  One verification with the in-memory cache reads
  the clock once here, where the code reads it for the age and again in each operation of the cache.
\<close>

section \<open>The verifier\<close>

definition TTTPS_TIER_TOLERANCE_MS :: "nat \<Rightarrow> int option" where
  "TTTPS_TIER_TOLERANCE_MS tier =
     (if tier = 0 then Some 60000 else if tier = 1 then Some 2000
      else if tier = 2 then Some 12000 else if tier = 3 then Some 100 else None)"

definition tier_tolerance :: "nat \<Rightarrow> int" where
  "tier_tolerance tier =
     (case TTTPS_TIER_TOLERANCE_MS tier of Some t \<Rightarrow> t | None \<Rightarrow> the (TTTPS_TIER_TOLERANCE_MS 1))"

datatype verify_error =
    UNKNOWN_VERSION | BINDING_KEY_MISMATCH | HMAC_CONTEXT_FAILURE | SIGNATURE_INVALID
  | SUBMISSION_OUTSIDE_TOLERANCE | NONCE_REPLAY | FRAME_MALFORMED

record verify_result =
  vr_valid :: bool
  vr_error :: "verify_error option"
  vr_frame :: "pot_frame option"
  vr_latencyMs :: "int option"

definition rejected :: "verify_error \<Rightarrow> pot_frame option \<Rightarrow> int option \<Rightarrow> verify_result" where
  "rejected e f l = \<lparr>vr_valid = False, vr_error = Some e, vr_frame = f, vr_latencyMs = l\<rparr>"

text \<open>
  \<open>has\<close> and \<open>add\<close> are the two operations of the configured cache; \<open>sig_ok key data sig\<close> is
  \<open>crypto.verify\<close> on the issuer's DER key, false where it throws.
\<close>

definition verify_frame ::
    "(bytes \<Rightarrow> bytes \<Rightarrow> bytes \<Rightarrow> bool) \<Rightarrow> (string \<Rightarrow> 'c \<Rightarrow> bool \<times> 'c) \<Rightarrow> (string \<Rightarrow> 'c \<Rightarrow> 'c)
     \<Rightarrow> bytes \<Rightarrow> tls_socket \<Rightarrow> bytes \<Rightarrow> int \<Rightarrow> 'c \<Rightarrow> (js_exn + verify_result) \<times> 'c" where
  "verify_frame sig_ok has add issuer socket frame nowMs cache =
     (if length frame \<noteq> POT_FRAME_SIZE then (Inr (rejected FRAME_MALFORMED None None), cache)
      else case decodePotFrame frame of
        Inl e \<Rightarrow> (Inr (rejected FRAME_MALFORMED None None), cache)
      | Inr parsed \<Rightarrow>
          (if fr_version parsed \<noteq> 1 then (Inr (rejected UNKNOWN_VERSION None None), cache)
           else case potRecordWithoutSig (potRecord parsed) of
             Inl e \<Rightarrow> (Inl e, cache)
           | Inr potWithoutSig \<Rightarrow>
               (case verifyBindingKey socket potWithoutSig (bindingKey parsed) of
                  Inl e \<Rightarrow> (Inl e, cache)
                | Inr bindingValid \<Rightarrow>
                    (if \<not> bindingValid then (Inr (rejected BINDING_KEY_MISMATCH (Some parsed) None), cache)
                     else if \<not> sig_ok issuer (subarray 0 79 (potRecord parsed)) (ed25519Sig parsed) then
                       (Inr (rejected SIGNATURE_INVALID (Some parsed) None), cache)
                     else
                       let potTimestampMs = tdiv (fr_timestamp parsed) 1000000;
                           latencyMs = nowMs - potTimestampMs in
                       if latencyMs > tier_tolerance (fr_tier parsed) then
                         (Inr (rejected SUBMISSION_OUTSIDE_TOLERANCE (Some parsed) (Some latencyMs)), cache)
                       else case has (hex_encode (fr_nonce parsed)) cache of
                         (seen, cache') \<Rightarrow>
                           (if seen then (Inr (rejected NONCE_REPLAY (Some parsed) None), cache')
                            else (Inr \<lparr>vr_valid = True, vr_error = None, vr_frame = Some parsed,
                                       vr_latencyMs = Some latencyMs\<rparr>,
                                  add (hex_encode (fr_nonce parsed)) cache'))))))"

text \<open>
  The constructor keeps the issuer's key as bytes; the private check of a signature is false where
  the library throws.
\<close>

datatype issuer_key = KeyBytes bytes | KeyHex string

fun issuerPublicKey :: "issuer_key \<Rightarrow> bytes" where
  "issuerPublicKey (KeyBytes b) = b"
| "issuerPublicKey (KeyHex h) = hex_decode h"

definition verifyEd25519 :: "(bytes \<Rightarrow> bytes \<Rightarrow> bytes \<Rightarrow> js_exn + bool) \<Rightarrow> bytes \<Rightarrow> bytes \<Rightarrow> bytes \<Rightarrow> bool" where
  "verifyEd25519 crypto_verify key data signature =
     (case crypto_verify key data signature of Inl e \<Rightarrow> False | Inr ok \<Rightarrow> ok)"

definition PotVerifier_verify ::
    "(bytes \<Rightarrow> bytes \<Rightarrow> bytes \<Rightarrow> js_exn + bool) \<Rightarrow> (string \<Rightarrow> 'c \<Rightarrow> bool \<times> 'c) \<Rightarrow> (string \<Rightarrow> 'c \<Rightarrow> 'c)
     \<Rightarrow> issuer_key \<Rightarrow> tls_socket \<Rightarrow> bytes \<Rightarrow> int \<Rightarrow> 'c \<Rightarrow> (js_exn + verify_result) \<times> 'c" where
  "PotVerifier_verify crypto_verify has add config =
     verify_frame (verifyEd25519 crypto_verify) has add (issuerPublicKey config)"

section \<open>The in-memory cache\<close>

record memory_cache =
  mc_cache :: "(string, int) jsmap"
  mc_ttlMs :: int

definition MemoryNonceCache :: "int option \<Rightarrow> memory_cache" where
  "MemoryNonceCache ttl = \<lparr>mc_cache = [], mc_ttlMs = (case ttl of None \<Rightarrow> 120000 | Some t \<Rightarrow> t)\<rparr>"

definition memory_has :: "int \<Rightarrow> string \<Rightarrow> memory_cache \<Rightarrow> bool \<times> memory_cache" where
  "memory_has now nonce m =
     (case jm_get nonce (mc_cache m) of
        None \<Rightarrow> (False, m)
      | Some expiry \<Rightarrow> (if now > expiry then (False, m\<lparr>mc_cache := jm_delete nonce (mc_cache m)\<rparr>) else (True, m)))"

definition memory_sweep :: "int \<Rightarrow> memory_cache \<Rightarrow> memory_cache" where
  "memory_sweep now m = m\<lparr>mc_cache := filter (\<lambda>e. \<not> now > snd e) (mc_cache m)\<rparr>"

definition memory_add :: "int \<Rightarrow> string \<Rightarrow> memory_cache \<Rightarrow> memory_cache" where
  "memory_add now nonce m =
     (let m' = (if length (mc_cache m) > 10000 then memory_sweep now m else m)
      in m'\<lparr>mc_cache := jm_set nonce (now + mc_ttlMs m') (mc_cache m')\<rparr>)"

definition memory_check :: "int \<Rightarrow> string \<Rightarrow> memory_cache \<Rightarrow> bool \<times> memory_cache" where
  "memory_check now nonce m =
     (let (seen, m') = memory_has now nonce m in if seen then (False, m') else (True, memory_add now nonce m'))"

definition memory_ok :: "int \<Rightarrow> memory_cache \<Rightarrow> bool" where
  "memory_ok ttl m \<longleftrightarrow> jm_ok (mc_cache m) \<and> mc_ttlMs m = ttl"

definition memory_live :: "nat \<Rightarrow> int \<Rightarrow> string \<Rightarrow> memory_cache \<Rightarrow> bool" where
  "memory_live k d n m \<longleftrightarrow> (\<exists>expiry. jm_get n (mc_cache m) = Some expiry \<and> d \<le> expiry)"

lemma memory_has_ok: "memory_ok ttl m \<Longrightarrow> memory_ok ttl (snd (memory_has t n m))"
  by (auto simp: memory_ok_def memory_has_def split: option.splits)

lemma memory_add_ok: "memory_ok ttl m \<Longrightarrow> memory_ok ttl (memory_add t n m)"
  by (simp add: memory_ok_def memory_add_def memory_sweep_def Let_def)

lemma memory_add_get:
  "memory_ok ttl m \<Longrightarrow> jm_get x (mc_cache (memory_add t n m)) =
     (if x = n then Some (t + ttl)
      else case jm_get x (mc_cache m) of
        None \<Rightarrow> None
      | Some expiry \<Rightarrow> (if length (mc_cache m) > 10000 \<and> t > expiry then None else Some expiry))"
  by (auto simp: memory_add_def memory_sweep_def Let_def memory_ok_def jm_get_filter split: option.splits)

lemma memory_has_get:
  "jm_get x (mc_cache (snd (memory_has t n m))) =
     (case jm_get x (mc_cache m) of
        None \<Rightarrow> None | Some expiry \<Rightarrow> (if x = n \<and> t > expiry then None else Some expiry))"
  by (auto simp: memory_has_def split: option.splits)

lemma memory_has_True:
  "fst (memory_has t n m) \<longleftrightarrow> (\<exists>expiry. jm_get n (mc_cache m) = Some expiry \<and> t \<le> expiry)"
  by (auto simp: memory_has_def split: option.splits)

interpretation memory: replay_guard memory_check "memory_ok ttl" memory_live ttl budget for ttl budget
proof unfold_locales
  fix c t m
  assume "memory_ok ttl c"
  then show "memory_ok ttl (snd (memory_check t m c))"
    using memory_has_ok [of ttl c t m] memory_add_ok by (simp add: memory_check_def case_prod_beta)
next
  fix c t n
  assume ok: "memory_ok ttl c" and "fst (memory_check t n c)"
  then have "snd (memory_check t n c) = memory_add t n (snd (memory_has t n c))"
    by (simp add: memory_check_def case_prod_beta split: if_splits)
  then show "memory_live budget (t + ttl) n (snd (memory_check t n c))"
    using memory_add_get [OF memory_has_ok [OF ok]] by (simp add: memory_live_def)
next
  fix c k d n t m
  assume ok: "memory_ok ttl c" and "memory_live (Suc k) d n c" and t: "t \<le> d"
  then obtain expiry where e: "jm_get n (mc_cache c) = Some expiry" "d \<le> expiry" by (auto simp: memory_live_def)
  have h: "jm_get n (mc_cache (snd (memory_has t m c))) = Some expiry"
    using e t by (simp add: memory_has_get)
  have "m \<noteq> n" if "\<not> fst (memory_has t m c)"
    using that e t unfolding memory_has_True by auto
  then have "jm_get n (mc_cache (memory_add t m (snd (memory_has t m c)))) = Some expiry" if "\<not> fst (memory_has t m c)"
    using that h e t memory_add_get [OF memory_has_ok [OF ok]] by simp
  then show "memory_live k d n (snd (memory_check t m c))"
    using h e(2) by (simp add: memory_check_def case_prod_beta memory_live_def)
next
  fix k d n c
  show "memory_live (Suc k) d n c \<Longrightarrow> memory_live k d n c" by (simp add: memory_live_def)
next
  fix c k d n t
  assume "memory_live k d n c" and "t \<le> d"
  then have "fst (memory_has t n c)" by (auto simp: memory_live_def memory_has_True)
  then show "\<not> fst (memory_check t n c)" by (simp add: memory_check_def case_prod_beta)
qed

section \<open>What acceptance means\<close>

definition frame_accepted :: "(js_exn + verify_result) \<times> 'c \<Rightarrow> bool" where
  "frame_accepted r \<longleftrightarrow> (\<exists>v. fst r = Inr v \<and> vr_valid v)"

definition frame_ms :: "pot_frame \<Rightarrow> int" where
  "frame_ms f = fr_timestamp f div 1000000"

definition frame_checks ::
    "(bytes \<Rightarrow> bytes \<Rightarrow> bytes \<Rightarrow> bool) \<Rightarrow> bytes \<Rightarrow> tls_socket \<Rightarrow> bytes \<Rightarrow> pot_frame \<Rightarrow> bool" where
  "frame_checks sig_ok issuer socket frame f \<longleftrightarrow>
     decodePotFrame frame = Inr f \<and> fr_version f = 1 \<and> encrypted socket \<and>
     exportKeyingMaterial socket 32 TTTPS_EXPORTER_LABEL (take 79 (potRecord f)) = Inr (bindingKey f) \<and>
     sig_ok issuer (take 79 (potRecord f)) (ed25519Sig f)"

lemma decoded_lengths:
  "decodePotFrame frame = Inr f \<Longrightarrow>
     length frame = 175 \<and> length (potRecord f) = 143 \<and> length (bindingKey f) = 32 \<and> 0 \<le> fr_timestamp f"
  by (auto simp: decodePotFrame_def Let_def POT_FRAME_SIZE_def BINDING_KEY_SIZE_def split: if_splits)

lemma subarray_take: "subarray 0 k xs = take k xs"
  by (simp add: subarray_def)

lemma verify_frame_eq:
  assumes "decodePotFrame frame = Inr f"
  shows "frame_accepted (verify_frame sig_ok has add issuer socket frame nowMs c) \<longleftrightarrow>
     frame_checks sig_ok issuer socket frame f \<and>
     nowMs - frame_ms f \<le> tier_tolerance (fr_tier f) \<and> \<not> fst (has (hex_encode (fr_nonce f)) c)"
    and "frame_accepted (verify_frame sig_ok has add issuer socket frame nowMs c) \<Longrightarrow>
     snd (verify_frame sig_ok has add issuer socket frame nowMs c)
       = add (hex_encode (fr_nonce f)) (snd (has (hex_encode (fr_nonce f)) c))"
proof -
  note l = decoded_lengths [OF assms]
  have w: "potRecordWithoutSig (potRecord f) = Inr (take 79 (potRecord f))"
    using l by (simp add: potRecordWithoutSig_def POT_RECORD_SIZE_def POT_WITHOUT_SIG_SIZE_def subarray_take)
  have ms: "tdiv (fr_timestamp f) 1000000 = frame_ms f"
    using l by (simp add: frame_ms_def tdiv_nonneg)
  have b: "verifyBindingKey socket (take 79 (potRecord f)) (bindingKey f) = Inr True \<longleftrightarrow>
      encrypted socket \<and> exportKeyingMaterial socket 32 TTTPS_EXPORTER_LABEL (take 79 (potRecord f)) = Inr (bindingKey f)"
    using l by (auto simp: verifyBindingKey_True)
  show "frame_accepted (verify_frame sig_ok has add issuer socket frame nowMs c) \<longleftrightarrow>
     frame_checks sig_ok issuer socket frame f \<and>
     nowMs - frame_ms f \<le> tier_tolerance (fr_tier f) \<and> \<not> fst (has (hex_encode (fr_nonce f)) c)"
  proof (cases "verifyBindingKey socket (take 79 (potRecord f)) (bindingKey f)")
    case (Inl e)
    then show ?thesis
      using b l assms by (auto simp: verify_frame_def frame_accepted_def rejected_def frame_checks_def w POT_FRAME_SIZE_def)
  next
    case (Inr v)
    then show ?thesis
      using b l assms
      by (cases v) (auto simp: verify_frame_def frame_accepted_def rejected_def frame_checks_def w ms subarray_take
          POT_FRAME_SIZE_def Let_def not_less split: prod.splits)
  qed
  show "frame_accepted (verify_frame sig_ok has add issuer socket frame nowMs c) \<Longrightarrow>
     snd (verify_frame sig_ok has add issuer socket frame nowMs c)
       = add (hex_encode (fr_nonce f)) (snd (has (hex_encode (fr_nonce f)) c))"
    using assms by (auto simp: verify_frame_def frame_accepted_def rejected_def Let_def
        split: if_splits sum.splits prod.splits)
qed

lemma accepted_decodes:
  "frame_accepted (verify_frame sig_ok has add issuer socket frame nowMs c) \<Longrightarrow> \<exists>f. decodePotFrame frame = Inr f"
  by (auto simp: verify_frame_def frame_accepted_def rejected_def split: if_splits sum.splits)


text \<open>
  C12. The verifier accepts a frame exactly when: it has 175 bytes and version 1; its
  binding key is the one this TLS session exports for its first 79 bytes; the issuer's
  signature over those bytes verifies; it is not older than its tier allows; and the cache
  has not seen its nonce.
\<close>

theorem frame_accepted_iff:
  "frame_accepted (verify_frame sig_ok has add issuer socket frame nowMs c) \<longleftrightarrow>
     (\<exists>f. decodePotFrame frame = Inr f \<and> fr_version f = 1 \<and> encrypted socket \<and>
          exportKeyingMaterial socket 32 TTTPS_EXPORTER_LABEL (take 79 (potRecord f)) = Inr (bindingKey f) \<and>
          sig_ok issuer (take 79 (potRecord f)) (ed25519Sig f) \<and>
          nowMs - fr_timestamp f div 1000000 \<le> tier_tolerance (fr_tier f) \<and>
          \<not> fst (has (hex_encode (fr_nonce f)) c))"
proof (cases "decodePotFrame frame")
  case (Inl e)
  then show ?thesis using accepted_decodes [of sig_ok has add issuer socket frame nowMs c] by auto
next
  case (Inr f)
  then show ?thesis
    using verify_frame_eq(1) [OF Inr, of sig_ok has add issuer socket nowMs c]
    by (auto simp: frame_checks_def frame_ms_def)
qed

text \<open>
  C13. A frame does not travel between sessions.  If a frame was accepted on one socket,
  then on any other encrypted socket that exports a different key for it, it is reported as
  a binding mismatch: before the signature, the age or the nonce are looked at, and without
  a change to the cache.
\<close>

theorem frame_bound_to_session:
  assumes "frame_accepted (verify_frame sig_ok has add issuer socket frame nowMs c)"
    and "encrypted socket'"
    and "exportKeyingMaterial socket' 32 TTTPS_EXPORTER_LABEL (take 79 (drop 32 frame)) = Inr key"
    and "exportKeyingMaterial socket 32 TTTPS_EXPORTER_LABEL (take 79 (drop 32 frame)) \<noteq> Inr key"
  shows "\<exists>v. verify_frame sig_ok' has' add' issuer' socket' frame nowMs' c' = (Inr v, c') \<and>
             vr_error v = Some BINDING_KEY_MISMATCH \<and> \<not> vr_valid v"
proof -
  obtain f where d: "decodePotFrame frame = Inr f" using accepted_decodes [OF assms(1)] by blast
  have ck: "frame_checks sig_ok issuer socket frame f"
    using verify_frame_eq(1) [OF d, THEN iffD1, OF assms(1)] by (rule conjunct1)
  note l = decoded_lengths [OF d]
  have rec: "potRecord f = drop 32 frame"
    using d l by (auto simp: decodePotFrame_def Let_def subarray_def BINDING_KEY_SIZE_def POT_FRAME_SIZE_def split: if_splits)
  have w: "potRecordWithoutSig (potRecord f) = Inr (take 79 (potRecord f))"
    using l by (simp add: potRecordWithoutSig_def POT_RECORD_SIZE_def POT_WITHOUT_SIG_SIZE_def subarray_take)
  have "exportKeyingMaterial socket 32 TTTPS_EXPORTER_LABEL (take 79 (potRecord f)) = Inr (bindingKey f)"
    using ck by (simp add: frame_checks_def)
  then have "verifyBindingKey socket' (take 79 (potRecord f)) (bindingKey f) = Inr False"
    using assms(2-4) l unfolding rec
    by (auto simp: verifyBindingKey_def computeBindingKey_def binding_equal_def TTTPS_BINDING_KEY_LENGTH_def)
  then show ?thesis
    using d l w ck by (simp add: verify_frame_def POT_FRAME_SIZE_def frame_checks_def rejected_def)
qed

definition memory_verify ::
    "(bytes \<Rightarrow> bytes \<Rightarrow> bytes \<Rightarrow> bool) \<Rightarrow> bytes \<Rightarrow> tls_socket \<Rightarrow> bytes \<Rightarrow> int \<Rightarrow> memory_cache
     \<Rightarrow> (js_exn + verify_result) \<times> memory_cache" where
  "memory_verify sig_ok issuer socket frame now c =
     verify_frame sig_ok (memory_has now) (memory_add now) issuer socket frame now c"

lemma verify_frame_cache:
  "snd (verify_frame sig_ok has add issuer socket frame now c) = c \<or>
   (\<exists>n. fst (has n c) \<and> snd (verify_frame sig_ok has add issuer socket frame now c) = snd (has n c)) \<or>
   (\<exists>n. \<not> fst (has n c) \<and> snd (verify_frame sig_ok has add issuer socket frame now c) = add n (snd (has n c)))"
proof (cases "decodePotFrame frame")
  case (Inl e)
  then show ?thesis by (simp add: verify_frame_def)
next
  case (Inr f)
  let ?n = "hex_encode (fr_nonce f)" and ?r = "snd (verify_frame sig_ok has add issuer socket frame now c)"
  have "?r = c \<or> (fst (has ?n c) \<and> ?r = snd (has ?n c)) \<or> (\<not> fst (has ?n c) \<and> ?r = add ?n (snd (has ?n c)))"
    using Inr by (cases "has ?n c") (auto simp: verify_frame_def Let_def split: sum.splits)
  then show ?thesis by blast
qed

lemma memory_has_same: "fst (memory_has t n m) \<Longrightarrow> snd (memory_has t n m) = m"
  by (auto simp: memory_has_def split: option.splits)

lemma memory_verify_cache:
  "snd (memory_verify sig_ok issuer socket frame now c) = c \<or>
   (\<exists>n. snd (memory_verify sig_ok issuer socket frame now c) = snd (memory_check now n c))"
proof -
  have "snd (memory_check now n c) = memory_add now n (snd (memory_has now n c))" if "\<not> fst (memory_has now n c)" for n
    using that by (simp add: memory_check_def case_prod_beta)
  then show ?thesis
    using verify_frame_cache [of sig_ok "memory_has now" "memory_add now" issuer socket frame now c]
    unfolding memory_verify_def by (metis memory_has_same)
qed

lemma memory_accept:
  assumes "decodePotFrame frame = Inr f"
    and "frame_accepted (memory_verify sig_ok issuer socket frame now c)"
  shows "fst (memory_check now (hex_encode (fr_nonce f)) c)"
    and "snd (memory_verify sig_ok issuer socket frame now c) = snd (memory_check now (hex_encode (fr_nonce f)) c)"
proof -
  note a = assms(2) [unfolded memory_verify_def]
  have n: "\<not> fst (memory_has now (hex_encode (fr_nonce f)) c)"
    using verify_frame_eq(1) [OF assms(1), THEN iffD1, OF a] by simp
  then show "fst (memory_check now (hex_encode (fr_nonce f)) c)"
    by (simp add: memory_check_def case_prod_beta)
  show "snd (memory_verify sig_ok issuer socket frame now c) = snd (memory_check now (hex_encode (fr_nonce f)) c)"
    using verify_frame_eq(2) [OF assms(1) a] n by (simp add: memory_verify_def memory_check_def case_prod_beta)
qed

lemma memory_accepted_iff:
  assumes "decodePotFrame frame = Inr f"
  shows "frame_accepted (memory_verify sig_ok issuer socket frame now c) \<longleftrightarrow>
     frame_checks sig_ok issuer socket frame f \<and>
     now - fr_timestamp f div 1000000 \<le> tier_tolerance (fr_tier f) \<and>
     \<not> fst (memory_has now (hex_encode (fr_nonce f)) c)"
  using verify_frame_eq(1) [OF assms, of sig_ok "memory_has now" "memory_add now" issuer socket now c]
  by (simp add: memory_verify_def frame_ms_def)

definition memory_verify_all ::
    "(bytes \<Rightarrow> bytes \<Rightarrow> bytes \<Rightarrow> bool) \<Rightarrow> bytes \<Rightarrow> (tls_socket \<times> bytes \<times> int) list \<Rightarrow> memory_cache \<Rightarrow> memory_cache" where
  "memory_verify_all sig_ok issuer calls c =
     fold (\<lambda>(socket, frame, now) c. snd (memory_verify sig_ok issuer socket frame now c)) calls c"

lemma tolerance_bound: "tier_tolerance tier \<le> 60000"
  by (simp add: tier_tolerance_def TTTPS_TIER_TOLERANCE_MS_def)

text \<open>
  C9. With the in-memory cache, a frame that is not dated into the future is accepted at
  most once: not within the two minutes its nonce is kept, and not afterwards, when it is
  too old for every tier.  Any number of other frames may be verified in between, on any
  sockets, as long as the clock does not run ahead of the second attempt.
\<close>

theorem frame_no_replay:
  assumes "memory_ok 120000 c"
    and "decodePotFrame frame = Inr f" and "fr_timestamp f div 1000000 \<le> now + 60000"
    and "frame_accepted (memory_verify sig_ok issuer socket frame now c)"
    and "\<forall>(s, fr, t) \<in> set calls. t \<le> now'"
  shows "\<not> frame_accepted (memory_verify sig_ok issuer socket' frame now'
            (memory_verify_all sig_ok issuer calls (snd (memory_verify sig_ok issuer socket frame now c))))"
proof (cases "now' \<le> now + 120000")
  case True
  let ?n = "hex_encode (fr_nonce f)"
  let ?c = "memory_verify_all sig_ok issuer calls (snd (memory_verify sig_ok issuer socket frame now c))"
  have "\<not> fst (memory_check now' ?n ?c)"
    unfolding memory_verify_all_def
  proof (rule memory.no_replay [where cache = "\<lambda>c. c" and ?s0.0 = c and ?t0.0 = now and budget = "length calls" and ttl = 120000])
    show "fst (memory_check now ?n c)" "snd (memory_verify sig_ok issuer socket frame now c) = snd (memory_check now ?n c)"
      using memory_accept [OF assms(2,4)] by blast+
    show "(case call of (socket, frame, now) \<Rightarrow> \<lambda>c. snd (memory_verify sig_ok issuer socket frame now c)) s = s \<or>
          (\<exists>t m. t \<le> now + 120000 \<and>
             (case call of (socket, frame, now) \<Rightarrow> \<lambda>c. snd (memory_verify sig_ok issuer socket frame now c)) s = snd (memory_check t m s))"
      if "call \<in> set calls" for call s
    proof (cases call)
      case (fields so fr tm)
      then have "tm \<le> now + 120000" using assms(5) that True by auto
      then show ?thesis using memory_verify_cache [of sig_ok issuer so fr tm s] fields by auto
    qed
  qed (use assms(1) True in simp_all)
  then have "fst (memory_has now' ?n ?c)" by (simp add: memory_check_def case_prod_beta split: if_splits)
  then show ?thesis unfolding memory_accepted_iff [OF assms(2)] by blast
next
  case False
  then have "\<not> now' - fr_timestamp f div 1000000 \<le> tier_tolerance (fr_tier f)"
    using assms(3) tolerance_bound [of "fr_tier f"] by linarith
  then show ?thesis unfolding memory_accepted_iff [OF assms(2)] by blast
qed

text \<open>
  C38. A frame dated into the future is accepted again.  With the in-memory cache at its default
  lifetime, and nothing verified in between, a frame that was accepted is accepted on the same
  session a second time exactly when more than two minutes have passed and it is still not too old
  for its tier: its age is only bounded from above, so the time it states may lie as far ahead as
  its issuer likes, and the cache has then forgotten its nonce.
\<close>

theorem future_frame_replayed:
  assumes "memory_ok 120000 c" and "decodePotFrame frame = Inr f"
    and "frame_accepted (memory_verify sig_ok issuer socket frame now c)"
  shows "frame_accepted (memory_verify sig_ok issuer socket frame now' (snd (memory_verify sig_ok issuer socket frame now c)))
     \<longleftrightarrow> now + 120000 < now' \<and> now' - fr_timestamp f div 1000000 \<le> tier_tolerance (fr_tier f)"
proof -
  let ?n = "hex_encode (fr_nonce f)"
  let ?c = "snd (memory_verify sig_ok issuer socket frame now c)"
  have ck: "frame_checks sig_ok issuer socket frame f" and n: "\<not> fst (memory_has now ?n c)"
    using assms(3) unfolding memory_accepted_iff [OF assms(2)] by blast+
  have "?c = memory_add now ?n (snd (memory_has now ?n c))"
    unfolding memory_accept(2) [OF assms(2,3)] using n by (simp add: memory_check_def case_prod_beta)
  then have "jm_get ?n (mc_cache ?c) = Some (now + 120000)"
    using memory_add_get [OF memory_has_ok [OF assms(1)]] by simp
  then have "fst (memory_has now' ?n ?c) \<longleftrightarrow> now' \<le> now + 120000"
    by (simp add: memory_has_True)
  then show ?thesis
    unfolding memory_accepted_iff [OF assms(2), of sig_ok issuer socket now'] using ck by auto
qed

definition sample_socket :: "nat \<Rightarrow> tls_socket" where
  "sample_socket k = \<lparr>encrypted = True, exportKeyingMaterial = (\<lambda>len label ctx. Inr (replicate len (word_of_nat k))),
                     getSession = None\<rparr>"

definition sample_head :: bytes where "sample_head = [0x10, 5, 0]"

definition sample_record :: bytes where
  "sample_record = sample_head @ be_bytes 8 900000000000 @ be_bytes 4 950000 @ replicate 128 7"

definition sample_frame :: bytes where "sample_frame = replicate 32 9 @ sample_record"

definition sample_parsed :: pot_frame where
  "sample_parsed = \<lparr>bindingKey = replicate 32 9, potRecord = sample_record,
     fr_version = 1, fr_tier = 0, fr_reserved = 0, fr_timestamp = 900000000000, fr_confidence = 950000,
     fr_nonce = replicate 32 7, grgCommit = replicate 32 7, ed25519Sig = replicate 64 7\<rparr>"

lemma sample_lengths [simp]: "length sample_head = 3" "length sample_record = 143"
  by (simp_all add: sample_head_def sample_record_def)

lemma sample_fields:
  "subarray 3 11 sample_record = be_bytes 8 900000000000" "subarray 11 15 sample_record = be_bytes 4 950000"
  "subarray 15 47 sample_record = replicate 32 7" "subarray 47 79 sample_record = replicate 32 7"
  "subarray 79 143 sample_record = replicate 64 7"
  by (simp_all add: sample_record_def) (simp_all add: subarray_def drop_replicate take_replicate min_def)

lemma sample_bytes: "sample_record ! 0 = 0x10" "sample_record ! 2 = 0"
  by (simp_all add: sample_record_def sample_head_def)

lemma sample_decodes: "decodePotFrame sample_frame = Inr sample_parsed"
proof -
  have len: "length sample_frame = 175" by (simp add: sample_frame_def)
  have parts: "subarray 0 32 sample_frame = replicate 32 9" "subarray 32 175 sample_frame = sample_record"
    by (simp_all add: sample_frame_def)
  have ts: "be_val (be_bytes 8 900000000000) = 900000000000" "be_val (be_bytes 4 950000) = 950000" by (simp_all add: be_val_be_bytes)
  show ?thesis
    unfolding decodePotFrame_def POT_FRAME_SIZE_def BINDING_KEY_SIZE_def Let_def len parts sample_fields
      sample_bytes high_nibble low_nibble ts sample_parsed_def
    by simp
qed

lemma sample_memory_ok: "memory_ok 120000 (MemoryNonceCache None)"
  by (simp add: memory_ok_def MemoryNonceCache_def)

lemma sample_accepted:
  "frame_accepted (memory_verify (\<lambda>k m s. s = replicate 64 7) [] (sample_socket 9) sample_frame 800000
     (MemoryNonceCache None))"
  unfolding memory_accepted_iff [OF sample_decodes]
  by (simp add: frame_checks_def sample_decodes)
     (simp add: sample_parsed_def sample_socket_def tier_tolerance_def TTTPS_TIER_TOLERANCE_MS_def
        MemoryNonceCache_def memory_has_def)

lemma frame_bound_to_session_witness:
  "\<exists>v. verify_frame (\<lambda>k m s. True) (memory_has 5) (memory_add 5) [] (sample_socket 8) sample_frame 5
         (MemoryNonceCache None) = (Inr v, MemoryNonceCache None) \<and>
       vr_error v = Some BINDING_KEY_MISMATCH \<and> \<not> vr_valid v"
  by (rule frame_bound_to_session [OF sample_accepted [unfolded memory_verify_def], where key = "replicate 32 8"])
     (simp_all add: sample_socket_def)

lemma frame_no_replay_witness:
  "\<not> frame_accepted (memory_verify (\<lambda>k m s. s = replicate 64 7) [] (sample_socket 9) sample_frame 930000
        (memory_verify_all (\<lambda>k m s. s = replicate 64 7) [] [(sample_socket 3, [], 920001)]
           (snd (memory_verify (\<lambda>k m s. s = replicate 64 7) [] (sample_socket 9) sample_frame 850000
             (MemoryNonceCache None)))))"
proof (rule frame_no_replay [OF sample_memory_ok sample_decodes])
  show "frame_accepted (memory_verify (\<lambda>k m s. s = replicate 64 7) [] (sample_socket 9) sample_frame 850000
          (MemoryNonceCache None))"
    unfolding memory_accepted_iff [OF sample_decodes]
    by (simp add: frame_checks_def sample_decodes)
       (simp add: sample_parsed_def sample_socket_def tier_tolerance_def TTTPS_TIER_TOLERANCE_MS_def
          MemoryNonceCache_def memory_has_def)
qed (simp_all add: sample_parsed_def)

lemma future_frame_replayed_witness:
  "frame_accepted (memory_verify (\<lambda>k m s. s = replicate 64 7) [] (sample_socket 9) sample_frame 920001
     (snd (memory_verify (\<lambda>k m s. s = replicate 64 7) [] (sample_socket 9) sample_frame 800000
        (MemoryNonceCache None))))"
  by (subst future_frame_replayed [OF sample_memory_ok sample_decodes sample_accepted])
     (simp add: sample_parsed_def tier_tolerance_def TTTPS_TIER_TOLERANCE_MS_def)

end
