(* ===== verification/PotSigner.thy ===== *)
theory PotSigner
  imports TimeTypes JsMap Json
begin

text \<open>
  The Ed25519 issuer of \<open>src/pot_signer.ts\<close>.  What Node's \<open>crypto\<close> provides is a record of
  functions: importing a PKCS8 key, the two exports, signing, and verifying under an SPKI
  key (false where importing or verifying throws, which the code catches).  The file system
  is a map from paths to contents.
\<close>

section \<open>Model\<close>

record 'k ed25519 =
  import_pkcs8 :: "bytes \<Rightarrow> js_exn + 'k"
  export_pkcs8 :: "'k \<Rightarrow> bytes"
  export_spki :: "'k \<Rightarrow> bytes"
  ed_sign :: "'k \<Rightarrow> bytes \<Rightarrow> bytes"
  ed_verify :: "bytes \<Rightarrow> bytes \<Rightarrow> bytes \<Rightarrow> bool"

record 'k pot_signer =
  privateKey :: 'k
  pubKeyHex :: string

text \<open>\<open>fresh\<close> is the key a generation would give; an absent or empty text asks for one.\<close>

definition PotSigner :: "'k ed25519 \<Rightarrow> 'k \<Rightarrow> string option \<Rightarrow> js_exn + 'k pot_signer" where
  "PotSigner C fresh privateKeyHex =
     (case privateKeyHex of
        Some h \<Rightarrow>
          (if h = [] then Inr \<lparr>privateKey = fresh, pubKeyHex = hex_encode (export_spki C fresh)\<rparr>
           else bindr (import_pkcs8 C (hex_decode h)) (\<lambda>k.
                  Inr \<lparr>privateKey = k, pubKeyHex = hex_encode (export_spki C k)\<rparr>))
      | None \<Rightarrow> Inr \<lparr>privateKey = fresh, pubKeyHex = hex_encode (export_spki C fresh)\<rparr>)"

definition getPubKeyHex :: "'k pot_signer \<Rightarrow> string" where
  "getPubKeyHex s = pubKeyHex s"

definition getPrivateKeyHex :: "'k ed25519 \<Rightarrow> 'k pot_signer \<Rightarrow> string" where
  "getPrivateKeyHex C s = hex_encode (export_pkcs8 C (privateKey s))"

definition hash_bytes :: "string \<Rightarrow> bytes" where
  "hash_bytes potHash = hex_decode (if take 2 potHash = ''0x'' then drop 2 potHash else potHash)"

definition signPot :: "'k ed25519 \<Rightarrow> int \<Rightarrow> string \<Rightarrow> 'k pot_signer \<Rightarrow> pot_signature" where
  "signPot C nowMs potHash s =
     \<lparr>issuerPubKey = pubKeyHex s,
      sig_signature = hex_encode (ed_sign C (privateKey s) (hash_bytes potHash)),
      issuedAt = nowMs div 1000\<rparr>"

definition verifyPotSignature :: "'k ed25519 \<Rightarrow> string \<Rightarrow> pot_signature \<Rightarrow> string option \<Rightarrow> bool" where
  "verifyPotSignature C potHash potSig expectedPubKey =
     (if (case expectedPubKey of Some e \<Rightarrow> e \<noteq> [] \<and> issuerPubKey potSig \<noteq> e | None \<Rightarrow> False) then False
      else ed_verify C (hex_decode (issuerPubKey potSig)) (hash_bytes potHash) (hex_decode (sig_signature potSig)))"

type_synonym files = "(string, string) jsmap"

definition saveToFile :: "'k ed25519 \<Rightarrow> string \<Rightarrow> 'k pot_signer \<Rightarrow> files \<Rightarrow> files" where
  "saveToFile C path s fs = jm_set path (getPrivateKeyHex C s) fs"

definition fromFile :: "'k ed25519 \<Rightarrow> 'k \<Rightarrow> string \<Rightarrow> files \<Rightarrow> js_exn + 'k pot_signer" where
  "fromFile C fresh path fs =
     bindr (need (JsError (''ENOENT: no such file or directory, open '' @ path)) (jm_get path fs)) (\<lambda>txt.
     PotSigner C fresh (Some (js_trim txt)))"

definition createOrLoad :: "'k ed25519 \<Rightarrow> 'k \<Rightarrow> string \<Rightarrow> files \<Rightarrow> (js_exn + 'k pot_signer) \<times> files" where
  "createOrLoad C fresh path fs =
     (if jm_has path fs then (fromFile C fresh path fs, fs)
      else case PotSigner C fresh None of
             Inl e \<Rightarrow> (Inl e, fs)
           | Inr s \<Rightarrow> (Inr s, saveToFile C path s fs))"

section \<open>Properties\<close>

text \<open>What Node documents of its keys: an exported key imports, and its signatures verify.\<close>

definition ed25519_laws :: "'k ed25519 \<Rightarrow> bool" where
  "ed25519_laws C \<longleftrightarrow>
     (\<forall>k. import_pkcs8 C (export_pkcs8 C k) = Inr k \<and> export_pkcs8 C k \<noteq> []) \<and>
     (\<forall>k m. ed_verify C (export_spki C k) m (ed_sign C k m))"

definition signer_ok :: "'k ed25519 \<Rightarrow> 'k pot_signer \<Rightarrow> bool" where
  "signer_ok C s \<longleftrightarrow> pubKeyHex s = hex_encode (export_spki C (privateKey s))"

lemma PotSigner_ok: "PotSigner C fresh h = Inr s \<Longrightarrow> signer_ok C s"
  by (auto simp: PotSigner_def signer_ok_def bindr_Inr split: option.splits if_splits)

lemma hex_not_space: "c \<in> set (hex_encode bs) \<Longrightarrow> \<not> js_space c"
proof (induction bs)
  case (Cons b bs)
  have d: "\<not> js_space (hex_digit n)" if "n < 16" for n
    using that by (auto simp: js_space_def hex_digit_def of_char_of)
  have "unat b div 16 < 16" using unat_byte_less [of b] by linarith
  then show ?case using Cons d [of "unat b div 16"] d [of "unat b mod 16"] by auto
qed simp

lemma trim_hex [simp]: "js_trim (hex_encode bs) = hex_encode bs"
proof -
  have "dropWhile js_space (hex_encode bs) = hex_encode bs"
    by (rule dropWhile_id) (metis hd_in_set hex_not_space)
  moreover have "dropWhile js_space (rev (hex_encode bs)) = rev (hex_encode bs)"
    by (rule dropWhile_id) (metis hd_in_set set_rev hex_not_space)
  ultimately show ?thesis by (simp add: js_trim_def)
qed

lemma hex_encode_Nil: "hex_encode bs = [] \<longleftrightarrow> bs = []"
  by (cases bs) simp_all

text \<open>
  C29. An issuer survives a restart: created once at a path and loaded again, with whatever
  key a generation would give the second time, it has the same key; the file is not written
  again; and a signature of the first instance verifies, also against the expected public
  key of the second, for every hash text.
\<close>

theorem signer_persists:
  assumes "ed25519_laws C" and "\<not> jm_has path fs"
    and "createOrLoad C fresh path fs = (Inr s, fs')"
  shows "createOrLoad C fresh' path fs' = (Inr s, fs') \<and>
         verifyPotSignature C potHash (signPot C nowMs potHash s) (Some (getPubKeyHex s))"
proof -
  have s: "s = \<lparr>privateKey = fresh, pubKeyHex = hex_encode (export_spki C fresh)\<rparr>"
    and fs': "fs' = jm_set path (hex_encode (export_pkcs8 C fresh)) fs"
    using assms(2,3) by (auto simp: createOrLoad_def PotSigner_def saveToFile_def getPrivateKeyHex_def)
  have "import_pkcs8 C (export_pkcs8 C fresh) = Inr fresh" "export_pkcs8 C fresh \<noteq> []"
    using assms(1) by (simp_all add: ed25519_laws_def)
  then have "createOrLoad C fresh' path fs' = (Inr s, fs')"
    by (simp add: createOrLoad_def fs' s jm_has_get fromFile_def PotSigner_def hex_encode_Nil)
  moreover have "verifyPotSignature C potHash (signPot C nowMs potHash s) (Some (getPubKeyHex s))"
    using assms(1) by (simp add: verifyPotSignature_def signPot_def getPubKeyHex_def s ed25519_laws_def)
  ultimately show ?thesis by blast
qed

definition toy_ed25519 :: "nat ed25519" where
  "toy_ed25519 = \<lparr>import_pkcs8 = (\<lambda>bs. Inr (length bs - 1)), export_pkcs8 = (\<lambda>k. replicate (Suc k) 1),
     export_spki = (\<lambda>k. replicate k 2), ed_sign = (\<lambda>k m. replicate k 2 @ m),
     ed_verify = (\<lambda>pk m s. s = pk @ m)\<rparr>"

lemma signer_persists_witness:
  "\<exists>s fs'. createOrLoad toy_ed25519 5 ''key'' [] = (Inr s, fs') \<and>
           createOrLoad toy_ed25519 9 ''key'' fs' = (Inr s, fs')"
proof -
  have "ed25519_laws toy_ed25519"
    by (simp add: ed25519_laws_def toy_ed25519_def)
  moreover obtain s fs' where c: "createOrLoad toy_ed25519 5 ''key'' [] = (Inr s, fs')"
    by (simp add: createOrLoad_def PotSigner_def jm_has_def)
  ultimately show ?thesis
    using signer_persists [of toy_ed25519 "''key''" "[]" 5 s fs' 9] by (simp add: jm_has_def)
qed

lemma hex_decode_append_invalid:
  "even (length h) \<Longrightarrow> \<forall>c \<in> set h. hex_val c \<noteq> None \<Longrightarrow> hex_val x = None \<Longrightarrow> hex_decode (h @ x # t) = hex_decode h"
proof (induction h rule: hex_decode.induct)
  case (1 a b cs)
  then show ?case by (auto split: option.splits)
next
  case "2_1"
  then show ?case by (cases t) simp_all
qed simp

text \<open>
  A signature covers only the hexadecimal prefix of the hash text: a hash followed by
  anything that starts with a character that is not a digit carries the same signatures,
  because the decoding stops there without an error.
\<close>

theorem signature_ignores_tail:
  assumes "even (length h)" and "\<forall>c \<in> set h. hex_val c \<noteq> None" and "hex_val x = None"
    and "take 2 (h @ x # t) \<noteq> ''0x''"
  shows "verifyPotSignature C (h @ x # t) potSig pk = verifyPotSignature C h potSig pk"
proof -
  have "take 2 h \<noteq> ''0x''"
    using assms(2) by (cases h; cases "tl h") (auto simp: hex_val_def Let_def)
  then have "hash_bytes (h @ x # t) = hash_bytes h"
    using assms(4) hex_decode_append_invalid [OF assms(1-3)] by (simp add: hash_bytes_def)
  then show ?thesis by (simp add: verifyPotSignature_def)
qed

lemma signature_ignores_tail_witness:
  "\<forall>potSig. verifyPotSignature toy_ed25519 ''ab01/forged'' potSig None =
             verifyPotSignature toy_ed25519 ''ab01'' potSig None"
proof
  fix potSig
  show "verifyPotSignature toy_ed25519 ''ab01/forged'' potSig None = verifyPotSignature toy_ed25519 ''ab01'' potSig None"
    using signature_ignores_tail [of "''ab01''" "CHR ''/''" "''forged''" toy_ed25519 potSig None]
    by (simp add: hex_val_def Let_def)
qed

end
