(* ===== verification/PoolRegistry.thy ===== *)
theory PoolRegistry
  imports ReplayGuard Json
begin

text \<open>
  The pool registry of \<open>src/pool_registry.ts\<close>: registered pools with their counters, and a
  bounded map from token identifiers to pools.  \<open>ethers.isAddress\<close>, the ABI coder and
  Keccak-256 are parameters, bundled in one record; \<open>show_num\<close> is a number's text.
\<close>

section \<open>Model\<close>

record ethers_lib =
  isAddress :: "string \<Rightarrow> bool"
  abi_token :: "int \<Rightarrow> string \<Rightarrow> int \<Rightarrow> int \<Rightarrow> js_exn + bytes"
  keccak :: "bytes \<Rightarrow> string"
  show_num :: "rat \<Rightarrow> string"

record pool_stats =
  ps_chainId :: int
  ps_minted :: int
  ps_burned :: int

record pool_registry =
  pools :: "(string, pool_stats) jsmap"
  tokenToPool :: "(string, string) jsmap"

definition MAX_POOLS :: nat where "MAX_POOLS = 10000"
definition MAX_TOKEN_MAPPINGS :: nat where "MAX_TOKEN_MAPPINGS = 100000"

definition PoolRegistry :: pool_registry where
  "PoolRegistry = \<lparr>pools = [], tokenToPool = []\<rparr>"

definition bad_address :: "ethers_lib \<Rightarrow> string \<Rightarrow> bool" where
  "bad_address E a \<longleftrightarrow> a = [] \<or> \<not> isAddress E (toLowerCase a)"

definition invalid_pool :: "string \<Rightarrow> js_exn" where
  "invalid_pool a = JsError (''[PoolRegistry] Invalid pool address: '' @ a)"

definition registerPool :: "ethers_lib \<Rightarrow> int \<Rightarrow> string \<Rightarrow> pool_registry \<Rightarrow> js_exn option \<times> pool_registry" where
  "registerPool E chainId poolAddress r =
     (if bad_address E poolAddress then (Some (invalid_pool poolAddress), r)
      else
        let key = toLowerCase poolAddress in
        if \<not> jm_has key (pools r) then
          (if length (pools r) \<ge> MAX_POOLS then
             (Some (JsError (''[PoolRegistry] Registry full (max '' @ show_int (int MAX_POOLS) @ '' pools). Cannot register more.'')), r)
           else (None, r\<lparr>pools := jm_set key \<lparr>ps_chainId = chainId, ps_minted = 0, ps_burned = 0\<rparr> (pools r)\<rparr>))
        else (None, r))"

definition getTokenId ::
    "ethers_lib \<Rightarrow> int \<Rightarrow> string \<Rightarrow> int \<Rightarrow> rat \<Rightarrow> pool_registry \<Rightarrow> (js_exn + string) \<times> pool_registry" where
  "getTokenId E chainId poolAddress timestamp slotIndex r =
     (if bad_address E poolAddress then (Inl (invalid_pool poolAddress), r)
      else if slotIndex < 0 \<or> slotIndex > 0xFFFFFFFF \<or> of_int \<lfloor>slotIndex\<rfloor> \<noteq> slotIndex then
        (Inl (JsError (''[PoolRegistry] slotIndex must be integer in [0, 4294967295], got: '' @ show_num E slotIndex)), r)
      else if timestamp > 18446744073709551615 then
        (Inl (JsError (''[PoolRegistry] Timestamp overflow: '' @ show_int timestamp @ '' exceeds uint64 max'')), r)
      else
        let normalizedAddress = toLowerCase poolAddress in
        case abi_token E chainId normalizedAddress timestamp \<lfloor>slotIndex\<rfloor> of
          Inl e \<Rightarrow> (Inl e, r)
        | Inr enc \<Rightarrow>
            let tokenId = keccak E enc in
            (Inr tokenId, r\<lparr>tokenToPool := jm_put_fifo MAX_TOKEN_MAPPINGS tokenId normalizedAddress (tokenToPool r)\<rparr>))"

definition isValidForPool :: "ethers_lib \<Rightarrow> string \<Rightarrow> string \<Rightarrow> pool_registry \<Rightarrow> bool" where
  "isValidForPool E tokenId poolAddress r =
     (if bad_address E poolAddress then False
      else jm_get tokenId (tokenToPool r) = Some (toLowerCase poolAddress))"

definition getPoolStats :: "ethers_lib \<Rightarrow> string \<Rightarrow> pool_registry \<Rightarrow> (int \<times> int) option" where
  "getPoolStats E poolAddress r =
     (if bad_address E poolAddress then None
      else map_option (\<lambda>s. (ps_minted s, ps_burned s)) (jm_get (toLowerCase poolAddress) (pools r)))"

definition recordMint :: "ethers_lib \<Rightarrow> string \<Rightarrow> int \<Rightarrow> pool_registry \<Rightarrow> pool_registry" where
  "recordMint E poolAddress amount r =
     (if bad_address E poolAddress then r
      else case jm_get (toLowerCase poolAddress) (pools r) of
             None \<Rightarrow> r
           | Some s \<Rightarrow> r\<lparr>pools := jm_set (toLowerCase poolAddress) (s\<lparr>ps_minted := ps_minted s + amount\<rparr>) (pools r)\<rparr>)"

definition recordBurn :: "ethers_lib \<Rightarrow> string \<Rightarrow> int \<Rightarrow> pool_registry \<Rightarrow> pool_registry" where
  "recordBurn E poolAddress amount r =
     (if bad_address E poolAddress then r
      else case jm_get (toLowerCase poolAddress) (pools r) of
             None \<Rightarrow> r
           | Some s \<Rightarrow> r\<lparr>pools := jm_set (toLowerCase poolAddress) (s\<lparr>ps_burned := ps_burned s + amount\<rparr>) (pools r)\<rparr>)"

definition listPools :: "pool_registry \<Rightarrow> string list" where
  "listPools r = map fst (pools r)"

definition pool_entry :: "string \<times> pool_stats \<Rightarrow> json" where
  "pool_entry e = (case e of (address, s) \<Rightarrow>
     JObj [(''address'', JStr address), (''chainId'', JNum (of_int (ps_chainId s))),
           (''minted'', JStr (show_int (ps_minted s))), (''burned'', JStr (show_int (ps_burned s)))])"

definition mapping_entry :: "string \<times> string \<Rightarrow> json" where
  "mapping_entry e = (case e of (tokenId, poolAddr) \<Rightarrow>
     JObj [(''tokenId'', JStr tokenId), (''poolAddress'', JStr poolAddr)])"

definition serialize_registry :: "pool_registry \<Rightarrow> json" where
  "serialize_registry r =
     JObj [(''pools'', JArr (map pool_entry (pools r))),
           (''tokenMappings'', JArr (map mapping_entry (tokenToPool r)))]"

text \<open>
  Reading back.  The inner option is \<open>None\<close> where an entry would put a value of another
  type into the map, which the code does not check.
\<close>

definition parse_pool :: "json \<Rightarrow> js_exn + (string \<times> pool_stats) option" where
  "parse_pool p =
     bindr (js_prop ''address'' p) (\<lambda>a. bindr (js_prop ''chainId'' p) (\<lambda>c.
     bindr (js_prop ''minted'' p) (\<lambda>m. bindr (js_BigInt m) (\<lambda>minted.
     bindr (js_prop ''burned'' p) (\<lambda>b. bindr (js_BigInt b) (\<lambda>burned.
     Inr (case (a, c) of
            (Some (JStr address), Some (JNum cid)) \<Rightarrow>
              Some (address, \<lparr>ps_chainId = \<lfloor>cid\<rfloor>, ps_minted = minted, ps_burned = burned\<rparr>)
          | _ \<Rightarrow> None)))))))"

definition parse_mapping :: "json \<Rightarrow> js_exn + (string \<times> string) option" where
  "parse_mapping t =
     bindr (js_prop ''tokenId'' t) (\<lambda>i. bindr (js_prop ''poolAddress'' t) (\<lambda>a.
     Inr (case (i, a) of (Some (JStr tid), Some (JStr addr)) \<Rightarrow> Some (tid, addr) | _ \<Rightarrow> None)))"

fun js_iterate :: "json option \<Rightarrow> js_exn + json list" where
  "js_iterate (Some (JArr xs)) = Inr xs"
| "js_iterate (Some (JStr s)) = Inr (map (\<lambda>c. JStr [c]) s)"
| "js_iterate _ = Inl (TypeError ''value is not iterable'')"

definition deserialize_registry :: "json \<Rightarrow> js_exn + pool_registry option" where
  "deserialize_registry data =
     bindr (js_prop ''pools'' data) (\<lambda>ps. bindr (js_iterate ps) (\<lambda>pl.
     bindr (map_result parse_pool pl) (\<lambda>entries.
     bindr (js_prop ''tokenMappings'' data) (\<lambda>tm.
     bindr (if js_truthy tm then bindr (js_iterate tm) (map_result parse_mapping) else Inr []) (\<lambda>maps.
     Inr (case (those entries, those maps) of
            (Some es, Some ms) \<Rightarrow>
              Some \<lparr>pools = fold (\<lambda>(k, v). jm_set k v) es [], tokenToPool = fold (\<lambda>(k, v). jm_set k v) ms []\<rparr>
          | _ \<Rightarrow> None))))))"

section \<open>Operations as a run\<close>

datatype registry_op =
    OpRegister int string
  | OpToken int string int rat
  | OpMint string int
  | OpBurn string int

fun registry_step :: "ethers_lib \<Rightarrow> registry_op \<Rightarrow> pool_registry \<Rightarrow> pool_registry" where
  "registry_step E (OpRegister c a) r = snd (registerPool E c a r)"
| "registry_step E (OpToken c a t s) r = snd (getTokenId E c a t s r)"
| "registry_step E (OpMint a x) r = recordMint E a x r"
| "registry_step E (OpBurn a x) r = recordBurn E a x r"

definition registry_ok :: "ethers_lib \<Rightarrow> pool_registry \<Rightarrow> bool" where
  "registry_ok E r \<longleftrightarrow>
     jm_ok (pools r) \<and> length (pools r) \<le> MAX_POOLS \<and>
     jm_ok (tokenToPool r) \<and> length (tokenToPool r) \<le> MAX_TOKEN_MAPPINGS"

lemma length_jm_update: "jm_get k m \<noteq> None \<Longrightarrow> length (jm_set k v m) = length m"
  by (simp add: length_jm_set jm_has_get)

lemma registry_step_ok:
  assumes "registry_ok E r"
  shows "registry_ok E (registry_step E op r)"
proof (cases op)
  case (OpRegister c a)
  then show ?thesis using assms
    by (auto simp: registry_ok_def registerPool_def Let_def length_jm_set)
next
  case (OpToken c a t s)
  then show ?thesis using assms length_jm_put [of "tokenToPool r" MAX_TOKEN_MAPPINGS]
    by (auto simp: registry_ok_def getTokenId_def Let_def MAX_TOKEN_MAPPINGS_def split: sum.splits)
next
  case (OpMint a x)
  then show ?thesis using assms
    by (auto simp: registry_ok_def recordMint_def length_jm_update split: option.splits)
next
  case (OpBurn a x)
  then show ?thesis using assms
    by (auto simp: registry_ok_def recordBurn_def length_jm_update split: option.splits)
qed

interpretation registry: kept "registry_step E" "registry_ok E" for E
  by unfold_locales (rule registry_step_ok)

lemma registry_start_ok: "registry_ok E PoolRegistry"
  by (simp add: registry_ok_def PoolRegistry_def)

text \<open>
  The registry stays bounded: at most 10000 pools and 100000 token mappings, each key
  once, after any sequence of operations, failing ones included.
\<close>

theorem registry_bounded:
  "length (pools (fold (registry_step E) ops PoolRegistry)) \<le> 10000 \<and>
   length (tokenToPool (fold (registry_step E) ops PoolRegistry)) \<le> 100000 \<and>
   distinct (map fst (pools (fold (registry_step E) ops PoolRegistry))) \<and>
   distinct (map fst (tokenToPool (fold (registry_step E) ops PoolRegistry)))"
  using registry.run [OF registry_start_ok, of E ops]
  by (simp add: registry_ok_def jm_ok_def MAX_POOLS_def MAX_TOKEN_MAPPINGS_def)

section \<open>Counters\<close>

fun minted_by :: "ethers_lib \<Rightarrow> string \<Rightarrow> registry_op \<Rightarrow> int" where
  "minted_by E key (OpMint a x) = (if \<not> bad_address E a \<and> toLowerCase a = key then x else 0)"
| "minted_by E key _ = 0"

fun burned_by :: "ethers_lib \<Rightarrow> string \<Rightarrow> registry_op \<Rightarrow> int" where
  "burned_by E key (OpBurn a x) = (if \<not> bad_address E a \<and> toLowerCase a = key then x else 0)"
| "burned_by E key _ = 0"

lemma registry_step_stats:
  assumes "jm_get key (pools r) = Some s"
  shows "jm_get key (pools (registry_step E op r)) =
           Some (s\<lparr>ps_minted := ps_minted s + minted_by E key op, ps_burned := ps_burned s + burned_by E key op\<rparr>)"
  using assms
  by (cases op)
     (auto simp: registerPool_def getTokenId_def recordMint_def recordBurn_def Let_def jm_has_get split: option.splits sum.splits)

lemma registry_run_stats:
  "jm_get key (pools r) = Some s \<Longrightarrow>
   jm_get key (pools (fold (registry_step E) ops r)) =
     Some (s\<lparr>ps_minted := ps_minted s + sum_list (map (minted_by E key) ops),
             ps_burned := ps_burned s + sum_list (map (burned_by E key) ops)\<rparr>)"
proof (induction ops arbitrary: r s)
  case (Cons op ops)
  from Cons.IH [OF registry_step_stats [OF Cons.prems, of E op]]
  show ?case by (simp add: add.assoc)
qed simp

text \<open>
  C30. The counters are exact.  From the registration of a pool on, whatever happens, its
  statistics are the sums of the amounts recorded for it, under any capitalisation of its
  address; registering it again changes nothing.
\<close>

theorem pool_stats_exact:
  assumes "\<not> bad_address E a" and "\<not> jm_has (toLowerCase a) (pools r)" and "length (pools r) < 10000"
  shows "fst (registerPool E c a r) = None \<and>
         getPoolStats E a (fold (registry_step E) ops (snd (registerPool E c a r))) =
           Some (sum_list (map (minted_by E (toLowerCase a)) ops), sum_list (map (burned_by E (toLowerCase a)) ops))"
proof -
  let ?s = "\<lparr>ps_chainId = c, ps_minted = 0, ps_burned = 0\<rparr>"
  have reg: "registerPool E c a r = (None, r\<lparr>pools := jm_set (toLowerCase a) ?s (pools r)\<rparr>)"
    using assms by (simp add: registerPool_def Let_def MAX_POOLS_def)
  have "jm_get (toLowerCase a) (pools (snd (registerPool E c a r))) = Some ?s"
    by (simp add: reg)
  from registry_run_stats [OF this, of E ops] show ?thesis
    using assms(1) by (simp add: getPoolStats_def reg)
qed

definition toy_ethers :: ethers_lib where
  "toy_ethers = \<lparr>isAddress = (\<lambda>a. length a = 4), abi_token = (\<lambda>c a t s. Inr (map (\<lambda>x. word_of_nat (of_char x)) (a @ show_int t))),
     keccak = hex_encode, show_num = (\<lambda>r. show_int \<lfloor>r\<rfloor>)\<rparr>"

lemma pool_stats_exact_witness:
  "getPoolStats toy_ethers ''0xAB'' (fold (registry_step toy_ethers)
      [OpMint ''0xab'' 5, OpToken 1 ''0xab'' 3 0, OpBurn ''0XAB'' 2, OpMint ''0xcd'' 9, OpMint ''0xAb'' 6]
      (snd (registerPool toy_ethers 1 ''0xab'' PoolRegistry))) = Some (11, 2)"
proof -
  have l: "toLowerCase ''0xAB'' = ''0xab''" "toLowerCase ''0xab'' = ''0xab''" "toLowerCase ''0XAB'' = ''0xab''"
      "toLowerCase ''0xAb'' = ''0xab''" "toLowerCase ''0xcd'' = ''0xcd''"
    by code_simp+
  have v: "\<not> bad_address toy_ethers a" if "length a = 4" for a
    using that by (auto simp: bad_address_def toy_ethers_def toLowerCase_def)
  let ?ops = "[OpMint ''0xab'' 5, OpToken 1 ''0xab'' 3 0, OpBurn ''0XAB'' 2, OpMint ''0xcd'' 9, OpMint ''0xAb'' 6]"
  have "getPoolStats toy_ethers ''0xab'' (fold (registry_step toy_ethers) ?ops (snd (registerPool toy_ethers 1 ''0xab'' PoolRegistry)))
     = Some (sum_list (map (minted_by toy_ethers (toLowerCase ''0xab'')) ?ops), sum_list (map (burned_by toy_ethers (toLowerCase ''0xab'')) ?ops))"
    using pool_stats_exact [of toy_ethers "''0xab''" PoolRegistry 1 ?ops] v
    by (simp add: PoolRegistry_def jm_has_def)
  then show ?thesis using v by (simp add: getPoolStats_def l)
qed


section \<open>Tokens\<close>

fun token_of :: "ethers_lib \<Rightarrow> registry_op \<Rightarrow> string option" where
  "token_of E (OpToken c a t s) =
     (case abi_token E c (toLowerCase a) t \<lfloor>s\<rfloor> of Inl e \<Rightarrow> None | Inr enc \<Rightarrow> Some (keccak E enc))"
| "token_of E _ = None"

definition token_live :: "nat \<Rightarrow> string \<Rightarrow> string \<Rightarrow> pool_registry \<Rightarrow> bool" where
  "token_live k tid pool r \<longleftrightarrow>
     (\<exists>pre post. tokenToPool r = pre @ (tid, pool) # post \<and> length post + k < MAX_TOKEN_MAPPINGS)"

lemma token_live_step:
  assumes "registry_ok E r" and "token_live (Suc k) tid pool r" and "token_of E op \<noteq> Some tid"
  shows "token_live k tid pool (registry_step E op r)"
proof -
  obtain pre post where m: "tokenToPool r = pre @ (tid, pool) # post"
    and l: "length post + Suc k < MAX_TOKEN_MAPPINGS"
    using assms(2) by (auto simp: token_live_def)
  have same: "token_live k tid pool r'" if "tokenToPool r' = tokenToPool r" for r'
    unfolding token_live_def using that m l by (intro exI [of _ pre] exI [of _ post]) simp
  show ?thesis
  proof (cases op)
    case (OpToken c a t s)
    show ?thesis
    proof (cases "fst (getTokenId E c a t s r)")
      case (Inl e)
      then have "tokenToPool (snd (getTokenId E c a t s r)) = tokenToPool r"
        by (auto simp: getTokenId_def Let_def split: sum.splits if_splits)
      then show ?thesis using OpToken same by simp
    next
      case (Inr tid')
      then have p: "tokenToPool (snd (getTokenId E c a t s r))
            = jm_put_fifo MAX_TOKEN_MAPPINGS tid' (toLowerCase a) (tokenToPool r)"
        and "token_of E op = Some tid'"
        using OpToken by (auto simp: getTokenId_def Let_def split: sum.splits if_splits)
      then have "tid' \<noteq> tid" using assms(3) by auto
      moreover have "jm_ok (tokenToPool r)" using assms(1) by (simp add: registry_ok_def)
      ultimately obtain pre' post' where "jm_put_fifo MAX_TOKEN_MAPPINGS tid' (toLowerCase a) (tokenToPool r)
            = pre' @ (tid, pool) # post'" and "length post' \<le> Suc (length post)"
        using nonce_live_put [OF _ m, of MAX_TOKEN_MAPPINGS tid' "toLowerCase a"] l by auto
      then show ?thesis
        unfolding token_live_def OpToken registry_step.simps p using l
        by (intro exI [of _ pre'] exI [of _ post']) simp
    qed
  next
    case (OpRegister c a)
    then show ?thesis by (auto intro!: same simp: registerPool_def Let_def)
  next
    case (OpMint a x)
    then show ?thesis by (auto intro!: same simp: recordMint_def split: option.splits)
  next
    case (OpBurn a x)
    then show ?thesis by (auto intro!: same simp: recordBurn_def split: option.splits)
  qed
qed

lemma token_live_run:
  "registry_ok E r \<Longrightarrow> token_live (length ops + k) tid pool r \<Longrightarrow> \<forall>op \<in> set ops. token_of E op \<noteq> Some tid \<Longrightarrow>
   token_live k tid pool (fold (registry_step E) ops r)"
proof (induction ops arbitrary: r)
  case (Cons op ops)
  have "token_live (length ops + k) tid pool (registry_step E op r)"
    using Cons.prems by (intro token_live_step) simp_all
  then show ?case using Cons.IH [OF registry_step_ok [OF Cons.prems(1)]] Cons.prems(3) by simp
qed simp

lemma token_live_get: "jm_ok (tokenToPool r) \<Longrightarrow> token_live k tid pool r \<Longrightarrow> jm_get tid (tokenToPool r) = Some pool"
  by (auto simp: token_live_def jm_get_def jm_ok_def)

text \<open>
  Pools are isolated.  A new token is valid for the pool it was made for, under any
  capitalisation of its address, and for no other pool; and it stays so through the next
  99999 operations, unless one of them yields the same token again.
\<close>

theorem token_valid_for_its_pool:
  assumes "registry_ok E r" and "getTokenId E c a ts slot r = (Inr tid, r')" and "\<not> jm_has tid (tokenToPool r)"
    and "length ops < 100000" and "\<forall>op \<in> set ops. token_of E op \<noteq> Some tid"
  shows "isValidForPool E tid b (fold (registry_step E) ops r') \<longleftrightarrow>
           \<not> bad_address E b \<and> toLowerCase b = toLowerCase a"
proof -
  have r': "tokenToPool r' = jm_put_fifo MAX_TOKEN_MAPPINGS tid (toLowerCase a) (tokenToPool r)"
    using assms(2) by (auto simp: getTokenId_def Let_def split: sum.splits if_splits)
  have ok: "registry_ok E r'"
    using registry_step_ok [OF assms(1), of "OpToken c a ts slot"] assms(2) by simp
  have "\<not> jm_has tid (if MAX_TOKEN_MAPPINGS \<le> length (tokenToPool r) then jm_evict_oldest (tokenToPool r) else tokenToPool r)"
    using assms(3) by (auto dest: jm_has_evict)
  then obtain pre where "tokenToPool r' = pre @ (tid, toLowerCase a) # []"
    unfolding r' by (auto simp: jm_put_fifo_def jm_set_fresh simp del: split_paired_Ex)
  then have "token_live (length ops + 0) tid (toLowerCase a) r'"
    unfolding token_live_def using assms(4)
    by (intro exI [of _ pre] exI [of _ "[]"]) (simp add: MAX_TOKEN_MAPPINGS_def)
  then have "token_live 0 tid (toLowerCase a) (fold (registry_step E) ops r')"
    using ok assms(5) by (intro token_live_run)
  moreover have "jm_ok (tokenToPool (fold (registry_step E) ops r'))"
    using registry.run [OF ok] by (simp add: registry_ok_def)
  ultimately have "jm_get tid (tokenToPool (fold (registry_step E) ops r')) = Some (toLowerCase a)"
    by (blast intro: token_live_get)
  then show ?thesis by (auto simp: isValidForPool_def)
qed

lemma token_valid_for_its_pool_witness:
  "\<exists>tid r'. getTokenId toy_ethers 1 ''0xab'' 3 0 PoolRegistry = (Inr tid, r') \<and>
            isValidForPool toy_ethers tid ''0xAB'' (fold (registry_step toy_ethers) [OpMint ''0xcd'' 4] r') \<and>
            \<not> isValidForPool toy_ethers tid ''0xcd'' (fold (registry_step toy_ethers) [OpMint ''0xcd'' 4] r')"
proof -
  have l: "toLowerCase ''0xAB'' = ''0xab''" "toLowerCase ''0xab'' = ''0xab''" "toLowerCase ''0xcd'' = ''0xcd''"
    by code_simp+
  have v: "\<not> bad_address toy_ethers a" if "length a = 4" for a
    using that by (auto simp: bad_address_def toy_ethers_def toLowerCase_def)
  obtain tid r' where g: "getTokenId toy_ethers 1 ''0xab'' 3 0 PoolRegistry = (Inr tid, r')"
    using v by (simp add: getTokenId_def Let_def toy_ethers_def)
  have h: "isValidForPool toy_ethers tid b (fold (registry_step toy_ethers) [OpMint ''0xcd'' 4] r') \<longleftrightarrow>
      \<not> bad_address toy_ethers b \<and> toLowerCase b = toLowerCase ''0xab''" for b
    by (rule token_valid_for_its_pool [OF registry_start_ok g]) (simp_all add: PoolRegistry_def jm_has_def)
  show ?thesis using g h [of "''0xAB''"] h [of "''0xcd''"] v by (intro exI [of _ tid] exI [of _ r']) (simp add: l)
qed

section \<open>Persistence\<close>

lemma those_map_Some: "those (map Some xs) = Some xs"
  by (induction xs) simp_all

lemma parse_pool_entry: "parse_pool (pool_entry e) = Inr (Some e)"
  by (cases e) (simp add: parse_pool_def pool_entry_def jm_get_def need_def)

lemma parse_mapping_entry: "parse_mapping (mapping_entry e) = Inr (Some e)"
  by (cases e) (simp add: parse_mapping_def mapping_entry_def jm_get_def)

lemma registry_codec:
  assumes "jm_ok (pools r)" and "jm_ok (tokenToPool r)"
  shows "deserialize_registry (serialize_registry r) = Inr (Some r)"
proof -
  have p: "map_result parse_pool (map pool_entry m) = Inr (map Some m)" for m
    by (induction m) (simp_all add: parse_pool_entry)
  have t: "map_result parse_mapping (map mapping_entry m) = Inr (map Some m)" for m
    by (induction m) (simp_all add: parse_mapping_entry)
  have f: "fold (\<lambda>(k, v). jm_set k v) m [] = m" if "jm_ok m" for m :: "('a, 'b) jsmap"
    using fold_jm_set_fresh [of "[]" m] that by (simp add: jm_ok_def)
  show ?thesis
    using f [OF assms(1)] f [OF assms(2)]
    by (simp add: deserialize_registry_def serialize_registry_def jm_get_def p t those_map_Some)
qed

interpretation registry_form: lossless_codec serialize_registry deserialize_registry "registry_ok E" "\<lambda>r. Inr (Some r)" for E
  by unfold_locales (simp_all add: registry_codec registry_ok_def inj_on_def)

text \<open>
  A registry survives a restart: reading back what was written gives the same pools,
  counters and tokens, in the same order, so that also the next evictions are the same.
\<close>

theorem registry_round_trip:
  assumes "jm_ok (pools r)" and "jm_ok (tokenToPool r)"
  shows "deserialize_registry (serialize_registry r) = Inr (Some r)"
  by (rule registry_codec [OF assms])

lemma registry_round_trip_witness:
  "deserialize_registry (serialize_registry
     \<lparr>pools = [(''0xab'', \<lparr>ps_chainId = 1, ps_minted = 5, ps_burned = - 2\<rparr>)], tokenToPool = [(''t1'', ''0xab'')]\<rparr>)
   = Inr (Some \<lparr>pools = [(''0xab'', \<lparr>ps_chainId = 1, ps_minted = 5, ps_burned = - 2\<rparr>)], tokenToPool = [(''t1'', ''0xab'')]\<rparr>)"
  by (rule registry_round_trip) (simp_all add: jm_ok_def)

end
