(* ===== verification/EvmConnector.thy ===== *)
theory EvmConnector
  imports Errors AdaptiveSwitch
begin

text \<open>
  The chain connector of \<open>src/evm_connector.ts\<close>: connecting with fallbacks, reconnecting,
  attached contracts, event listeners and transactions.  Providers, wallets and contracts
  belong to \<open>ethers\<close>; their answers are arguments.  A provider is known by its URL, and the
  outcome of an attempt depends on its number and URL.
\<close>

section \<open>Errors of the chain\<close>

text \<open>What the code looks at in a foreign error: the texts at four places, if they are there.\<close>

record rpc_error =
  er_reason :: "string option"
  er_data_message :: "string option"
  er_message :: "string option"
  er_text :: string

datatype evm_error = TTTErr ttt_error | RpcErr rpc_error

fun extractRevertReason :: "evm_error \<Rightarrow> string" where
  "extractRevertReason (TTTErr e) = te_message e"
| "extractRevertReason (RpcErr e) =
     (case er_reason e of Some r \<Rightarrow> r
      | None \<Rightarrow> (case er_data_message e of Some m \<Rightarrow> m
        | None \<Rightarrow> (case er_message e of Some m \<Rightarrow> m | None \<Rightarrow> er_text e)))"

definition net_err :: "error_key \<Rightarrow> string \<Rightarrow> string \<Rightarrow> string \<Rightarrow> evm_error" where
  "net_err k m r f = TTTErr (TTTBaseError TTTNetworkError (ERROR_CODES k) m r (Some f))"

definition con_err :: "error_key \<Rightarrow> string \<Rightarrow> string \<Rightarrow> string \<Rightarrow> evm_error" where
  "con_err k m r f = TTTErr (TTTBaseError TTTContractError (ERROR_CODES k) m r (Some f))"

definition rethrown :: "evm_error \<Rightarrow> bool" where
  "rethrown e \<longleftrightarrow> (case e of TTTErr t \<Rightarrow> te_class t \<in> {TTTContractError, TTTNetworkError} | RpcErr _ \<Rightarrow> False)"

section \<open>State\<close>

datatype credential = KeyText string | SignerObject string bool

datatype chain_signer = WalletOn string string | ConnectedSigner string string | PlainSigner string

record contract =
  c_address :: string
  c_signer :: chain_signer
  c_instance :: nat

record evm =
  provider :: "string option"
  chainSigner :: "chain_signer option"
  tttContract :: "contract option"
  protocolFeeContract :: "contract option"
  eventListeners :: "(nat \<times> string) list"
  primaryRpcUrl :: string
  fallbackRpcUrls :: "string list"
  signerOrKey :: "credential option"
  maxReconnectAttempts :: int
  connected :: bool
  handlers :: "(nat \<times> string) list"
  instances :: nat

text \<open>
  \<open>handlers\<close> are the handlers registered with the contracts, and \<open>instances\<close> numbers the
  \<open>Contract\<close> objects made so far: both live in \<open>ethers\<close>.
\<close>

definition EVMConnector :: "string list option \<Rightarrow> int option \<Rightarrow> evm" where
  "EVMConnector fallbacks attempts =
     \<lparr>provider = None, chainSigner = None, tttContract = None, protocolFeeContract = None, eventListeners = [],
      primaryRpcUrl = [], fallbackRpcUrls = (case fallbacks of None \<Rightarrow> [] | Some f \<Rightarrow> f), signerOrKey = None,
      maxReconnectAttempts = (case attempts of None \<Rightarrow> 3 | Some n \<Rightarrow> n), connected = False,
      handlers = [], instances = 0\<rparr>"

record rpc_env =
  wallet_error :: "string \<Rightarrow> evm_error option"
  getNetwork :: "nat \<Rightarrow> string \<Rightarrow> evm_error + int"

definition make_signer :: "rpc_env \<Rightarrow> credential \<Rightarrow> string \<Rightarrow> evm_error + chain_signer" where
  "make_signer env cred url =
     (case cred of
        KeyText k \<Rightarrow> (case wallet_error env k of Some e \<Rightarrow> Inl e | None \<Rightarrow> Inr (WalletOn k url))
      | SignerObject n hasConnect \<Rightarrow> Inr (if hasConnect then ConnectedSigner n url else PlainSigner n))"

text \<open>One attempt at a URL: provider, signer, network.\<close>

definition try_url :: "rpc_env \<Rightarrow> nat \<Rightarrow> credential \<Rightarrow> string \<Rightarrow> evm \<Rightarrow> evm_error option \<times> evm" where
  "try_url env i cred url s =
     (let s1 = s\<lparr>provider := Some url\<rparr> in
      case make_signer env cred url of
        Inl e \<Rightarrow> (Some e, s1)
      | Inr g \<Rightarrow>
          let s2 = s1\<lparr>chainSigner := Some g\<rparr> in
          (case getNetwork env i url of
             Inl e \<Rightarrow> (Some e, s2)
           | Inr chainId \<Rightarrow> (None, s2\<lparr>connected := True\<rparr>)))"

fun try_fallbacks :: "rpc_env \<Rightarrow> nat \<Rightarrow> credential \<Rightarrow> string list \<Rightarrow> evm \<Rightarrow> bool \<times> evm" where
  "try_fallbacks env i cred [] s = (False, s)"
| "try_fallbacks env i cred (u # us) s =
     (case try_url env i cred u s of
        (None, s') \<Rightarrow> (True, s')
      | (Some e, s') \<Rightarrow> try_fallbacks env (Suc i) cred us s')"

definition bad_key_format :: "credential \<Rightarrow> bool" where
  "bad_key_format cred \<longleftrightarrow> (case cred of KeyText k \<Rightarrow> take 2 k \<noteq> ''0x'' \<or> length k \<noteq> 66 | SignerObject _ _ \<Rightarrow> False)"

definition connect :: "rpc_env \<Rightarrow> string \<Rightarrow> credential \<Rightarrow> evm \<Rightarrow> evm_error option \<times> evm" where
  "connect env rpcUrl cred s =
     (if rpcUrl = [] then
        (Some (net_err NETWORK_INVALID_RPC ''[EVM] Invalid RPC URL'' ''The provided RPC URL is empty or not a string''
           ''Pass a valid RPC URL (e.g., https://mainnet.base.org)''), s)
      else
        let s0 = s\<lparr>primaryRpcUrl := rpcUrl, signerOrKey := Some cred\<rparr> in
        if bad_key_format cred then
          (Some (con_err CONTRACT_INVALID_KEY_FORMAT ''[EVM] Invalid Private Key format''
             ''Private key must be 0x + 64 hex characters'' ''Provide a valid 32-byte hex private key.''),
           s0\<lparr>provider := Some rpcUrl\<rparr>)
        else case try_url env 0 cred rpcUrl s0 of
          (None, s1) \<Rightarrow> (None, s1)
        | (Some e, s1) \<Rightarrow>
            (if rethrown e then (Some e, s1)
             else case try_fallbacks env 1 cred (fallbackRpcUrls s1) s1 of
               (True, s2) \<Rightarrow> (None, s2)
             | (False, s2) \<Rightarrow>
                 (Some (net_err NETWORK_CONNECTION_FAILED ''[EVM] Connection failed''
                    (case e of TTTErr t \<Rightarrow> te_message t
                     | RpcErr r \<Rightarrow> (case er_message r of Some m \<Rightarrow> m | None \<Rightarrow> er_text r))
                    ''Verify your RPC URL and network connectivity.''), s2)))"

definition unsubscribeAll :: "evm \<Rightarrow> evm" where
  "unsubscribeAll s = s\<lparr>handlers := fold remove1 (eventListeners s) (handlers s), eventListeners := []\<rparr>"

definition disconnect :: "evm \<Rightarrow> evm" where
  "disconnect s =
     (unsubscribeAll s)\<lparr>provider := None, chainSigner := None, tttContract := None,
        protocolFeeContract := None, connected := False\<rparr>"

definition reconnect_urls :: "evm \<Rightarrow> string list" where
  "reconnect_urls s = filter (\<lambda>u. u \<noteq> []) (primaryRpcUrl s # fallbackRpcUrls s)"

definition falsy_credential :: "credential option \<Rightarrow> bool" where
  "falsy_credential c \<longleftrightarrow> c = None \<or> c = Some (KeyText [])"

definition reconnect :: "rpc_env \<Rightarrow> evm \<Rightarrow> evm_error option \<times> evm" where
  "reconnect env s =
     (if falsy_credential (signerOrKey s) then
        (Some (net_err NETWORK_CANNOT_RECONNECT ''[EVM] Cannot reconnect'' ''No previous connection credentials stored''
           ''Call connect() first.''), s)
      else
        let s1 = disconnect s; urls = reconnect_urls s1;
            n = nat (min (maxReconnectAttempts s1) (int (length urls))) in
        case try_fallbacks env 0 (the (signerOrKey s1)) (take n urls) s1 of
          (True, s2) \<Rightarrow> (None, s2)
        | (False, s2) \<Rightarrow>
            (Some (net_err NETWORK_RECONNECTION_EXHAUSTED ''[EVM] Reconnection failed''
               (''All '' @ show_int (maxReconnectAttempts s2) @ '' attempts exhausted'')
               ''Check RPC provider status and network connectivity.''), s2\<lparr>connected := False\<rparr>))"

definition isConnected :: "evm \<Rightarrow> bool" where
  "isConnected s \<longleftrightarrow> connected s \<and> provider s \<noteq> None"

section \<open>Contracts and events\<close>

definition check_attach :: "(string \<Rightarrow> bool) \<Rightarrow> string \<Rightarrow> evm \<Rightarrow> evm_error + chain_signer" where
  "check_attach isAddress address s =
     (case chainSigner s of
        None \<Rightarrow> Inl (con_err CONTRACT_SIGNER_NOT_CONNECTED ''Not connected to signer''
                  ''EVMConnector.connect() must be called first'' ''Initialize connection before attaching contracts.'')
      | Some g \<Rightarrow>
          (if address = [] \<or> \<not> isAddress address then
             Inl (con_err CONTRACT_INVALID_ADDRESS ''[EVM] Invalid contract address''
               (''Address '' @ [CHR 0x27] @ address @ [CHR 0x27] @ '' is not a valid EVM address'')
               ''Check your config and provide a valid checksummed address.'')
           else Inr g))"

definition attachContract :: "(string \<Rightarrow> bool) \<Rightarrow> string \<Rightarrow> evm \<Rightarrow> evm_error option \<times> evm" where
  "attachContract isAddress address s =
     (case check_attach isAddress address s of
        Inl e \<Rightarrow> (Some e, s)
      | Inr g \<Rightarrow> (None, s\<lparr>tttContract := Some \<lparr>c_address = address, c_signer = g, c_instance = instances s\<rparr>,
                          instances := Suc (instances s)\<rparr>))"

definition attachProtocolFeeContract :: "(string \<Rightarrow> bool) \<Rightarrow> string \<Rightarrow> evm \<Rightarrow> evm_error option \<times> evm" where
  "attachProtocolFeeContract isAddress address s =
     (case check_attach isAddress address s of
        Inl e \<Rightarrow> (Some e, s)
      | Inr g \<Rightarrow> (None, s\<lparr>protocolFeeContract := Some \<lparr>c_address = address, c_signer = g, c_instance = instances s\<rparr>,
                          instances := Suc (instances s)\<rparr>))"

definition listen :: "contract \<Rightarrow> string \<Rightarrow> evm \<Rightarrow> evm" where
  "listen c ev s = s\<lparr>handlers := handlers s @ [(c_instance c, ev)],
                     eventListeners := eventListeners s @ [(c_instance c, ev)]\<rparr>"

text \<open>Which of the three callbacks are given is what matters of the argument.\<close>

definition subscribeToEvents :: "bool \<Rightarrow> bool \<Rightarrow> bool \<Rightarrow> evm \<Rightarrow> evm" where
  "subscribeToEvents onMinted onBurned onFeeCollected s =
     (let s1 = (if length (eventListeners s) > 0 then unsubscribeAll s else s);
          s2 = (case tttContract s1 of
                  None \<Rightarrow> s1
                | Some c \<Rightarrow>
                    let a = (if onMinted then listen c ''TTTMinted'' s1 else s1)
                    in if onBurned then listen c ''TTTBurned'' a else a)
      in case protocolFeeContract s2 of
           Some c \<Rightarrow> if onFeeCollected then listen c ''FeeCollected'' s2 else s2
         | None \<Rightarrow> s2)"

section \<open>Transactions\<close>

datatype gas_outcome = GasEstimate int | GasFails evm_error | GasTimesOut

record tx_env =
  estimateGas :: gas_outcome
  send_tx :: "int option \<Rightarrow> evm_error + string"
  wait_tx :: "evm_error + string option"

text \<open>\<open>Promise.race\<close> of the estimate and the timer of five seconds.\<close>

definition withTimeout :: "gas_outcome \<Rightarrow> evm_error + int" where
  "withTimeout g =
     (case g of
        GasEstimate n \<Rightarrow> Inr n
      | GasFails e \<Rightarrow> Inl e
      | GasTimesOut \<Rightarrow> Inl (net_err NETWORK_CONNECTION_FAILED ''[EVM] Operation timed out''
          ''RPC did not respond within 5000ms'' ''Check your RPC provider status or increase timeout.''))"

definition gas_limit :: "int \<Rightarrow> int" where
  "gas_limit estimate = tdiv (estimate * 120) 100"

definition await_receipt :: "evm_error \<Rightarrow> tx_env \<Rightarrow> evm_error + string" where
  "await_receipt dropped tx = bindr (wait_tx tx) (\<lambda>r. need dropped r)"

definition not_attached :: "string \<Rightarrow> evm_error" where
  "not_attached fix = con_err CONTRACT_NOT_ATTACHED ''Contract not attached'' ''TTT contract instance is null'' fix"

definition submitTTTRecord :: "tx_env \<Rightarrow> evm \<Rightarrow> evm_error + string" where
  "submitTTTRecord tx s =
     (if tttContract s = None then Inl (not_attached ''Call attachContract() with valid TTT address before burning.'')
      else case bindr (withTimeout (estimateGas tx)) (\<lambda>g.
                bindr (send_tx tx (Some (gas_limit g))) (\<lambda>hash.
                await_receipt (net_err NETWORK_TX_DROPPED ''[EVM] Transaction failed''
                  ''Transaction was dropped from mempool or null receipt'' ''Check block explorer for tx status.'') tx)) of
             Inr receipt \<Rightarrow> Inr receipt
           | Inl e \<Rightarrow> Inl (if rethrown e then e
                           else con_err CONTRACT_BURN_FAILED ''[EVM] Burn failed'' (extractRevertReason e)
                             ''Verify your TTT balance and tier parameters.''))"

definition mintTTT :: "(string \<Rightarrow> bool) \<Rightarrow> string \<Rightarrow> tx_env \<Rightarrow> evm \<Rightarrow> evm_error + string" where
  "mintTTT isAddress to tx s =
     (if tttContract s = None then Inl (not_attached ''Call attachContract() before minting.'')
      else if to = [] \<or> \<not> isAddress to then
        Inl (con_err CONTRACT_INVALID_ADDRESS ''[EVM] Invalid recipient address''
          (''Address '' @ [CHR 0x27] @ to @ [CHR 0x27] @ '' is not a valid EVM address'')
          ''Provide a valid destination address.'')
      else case bindr (withTimeout (estimateGas tx)) (\<lambda>g.
                bindr (send_tx tx (Some (gas_limit g))) (\<lambda>hash.
                await_receipt (net_err NETWORK_TX_DROPPED ''[EVM] Mint TX dropped''
                  ''Transaction was dropped from mempool'' ''Check operator account for nonce collisions.'') tx)) of
             Inr receipt \<Rightarrow> Inr receipt
           | Inl e \<Rightarrow> Inl (con_err CONTRACT_MINT_FAILED ''[EVM] Mint failed'' (extractRevertReason e)
                             ''Ensure operator has minter role and sufficient gas.''))"

definition burnTTT :: "tx_env \<Rightarrow> evm \<Rightarrow> evm_error + string" where
  "burnTTT tx s =
     (if tttContract s = None then Inl (not_attached ''Call attachContract() before burning.'')
      else case bindr (send_tx tx None) (\<lambda>hash.
                await_receipt (net_err NETWORK_TX_DROPPED ''[EVM] Burn TX dropped''
                  ''Transaction was dropped from mempool'' ''Verify account balance.'') tx) of
             Inr receipt \<Rightarrow> Inr receipt
           | Inl e \<Rightarrow> Inl (con_err CONTRACT_BURN_FAILED ''[EVM] Burn failed'' (extractRevertReason e)
                             ''Check TTT balance.''))"

definition getTTTBalance :: "evm_error + int \<Rightarrow> evm \<Rightarrow> evm_error + int" where
  "getTTTBalance balanceOf s =
     (if tttContract s = None then Inl (not_attached ''Call attachContract() before querying balance.'')
      else case balanceOf of
             Inr b \<Rightarrow> Inr b
           | Inl e \<Rightarrow> Inl (con_err CONTRACT_BALANCE_QUERY_FAILED ''[EVM] Balance query failed'' (extractRevertReason e)
                             ''Check RPC connection and contract address.''))"

definition swap_tokens :: "(string \<Rightarrow> bool) \<Rightarrow> string \<Rightarrow> tx_env \<Rightarrow> evm \<Rightarrow> evm_error + string" where
  "swap_tokens isAddress routerAddress tx s =
     (if chainSigner s = None then
        Inl (con_err CONTRACT_SIGNER_NOT_CONNECTED ''Not connected to signer'' ''Signer is null'' ''Initialize connection.'')
      else if routerAddress = [] \<or> \<not> isAddress routerAddress then
        Inl (con_err CONTRACT_INVALID_ADDRESS ''[EVM] Invalid router address''
          (''Address '' @ [CHR 0x27] @ routerAddress @ [CHR 0x27] @ '' is invalid'') ''Provide valid V4 SwapRouter address.'')
      else case bindr (withTimeout (estimateGas tx)) (\<lambda>g.
                bindr (send_tx tx (Some (gas_limit g))) (\<lambda>hash.
                await_receipt (net_err NETWORK_TX_DROPPED ''[EVM] Swap TX dropped'' ''Transaction dropped''
                  ''Check gas price.'') tx)) of
             Inr receipt \<Rightarrow> Inr receipt
           | Inl e \<Rightarrow> Inl (if rethrown e then e
                           else con_err CONTRACT_SWAP_FAILED ''[EVM] Swap failed'' (extractRevertReason e)
                             ''Verify slippage and token balances.''))"

record chain_block =
  cb_timestamp :: int
  cb_transactions :: "string list"

record block_verification =
  bv_valid :: bool
  bv_blockNumber :: int
  bv_timestamp :: int
  bv_txCount :: nat
  bv_latency :: int

definition no_provider :: evm_error where
  "no_provider = net_err NETWORK_PROVIDER_NOT_CONNECTED ''Provider not connected'' ''RPC provider is null'' ''Call connect() first.''"

definition evm_verifyBlock ::
    "evm_error + chain_block option \<Rightarrow> int \<Rightarrow> int \<Rightarrow> evm \<Rightarrow> evm_error + block_verification" where
  "evm_verifyBlock getBlock nowMs blockNum s =
     (if provider s = None then Inl no_provider
      else bindr getBlock (\<lambda>b.
        case b of
          None \<Rightarrow> Inl (net_err NETWORK_BLOCK_NOT_FOUND ''Block not found''
                    (''RPC returned null for block '' @ show_int blockNum) ''Verify if block number exists on chain.'')
        | Some blk \<Rightarrow> Inr \<lparr>bv_valid = True, bv_blockNumber = blockNum, bv_timestamp = cb_timestamp blk,
                           bv_txCount = length (cb_transactions blk),
                           bv_latency = nowMs div 1000 - cb_timestamp blk\<rparr>))"

definition getPendingTransactions :: "evm_error + chain_block option \<Rightarrow> evm \<Rightarrow> evm_error + string list" where
  "getPendingTransactions pending s =
     (if provider s = None then Inl no_provider
      else bindr pending (\<lambda>b. Inr (case b of None \<Rightarrow> [] | Some blk \<Rightarrow> cb_transactions blk)))"

definition getProvider :: "evm \<Rightarrow> evm_error + string" where
  "getProvider s = need no_provider (provider s)"

definition getSigner :: "evm \<Rightarrow> evm_error + chain_signer" where
  "getSigner s = need (con_err CONTRACT_SIGNER_NOT_CONNECTED ''Signer not connected'' ''Signer is null'' ''Call connect() first.'')
     (chainSigner s)"


section \<open>Connecting\<close>

definition attempt_ok :: "rpc_env \<Rightarrow> nat \<Rightarrow> credential \<Rightarrow> string \<Rightarrow> bool" where
  "attempt_ok env i cred url \<longleftrightarrow>
     (\<exists>g. make_signer env cred url = Inr g) \<and> (\<exists>n. getNetwork env i url = Inr n)"

lemma try_url_None: "fst (try_url env i cred url s) = None \<longleftrightarrow> attempt_ok env i cred url"
  by (auto simp: try_url_def attempt_ok_def Let_def split: sum.splits)

lemma try_url_frame:
  "provider (snd (try_url env i cred url s)) = Some url"
  "connected (snd (try_url env i cred url s)) = (attempt_ok env i cred url \<or> connected s)"
  "tttContract (snd (try_url env i cred url s)) = tttContract s"
  "protocolFeeContract (snd (try_url env i cred url s)) = protocolFeeContract s"
  "eventListeners (snd (try_url env i cred url s)) = eventListeners s"
  "handlers (snd (try_url env i cred url s)) = handlers s"
  "fallbackRpcUrls (snd (try_url env i cred url s)) = fallbackRpcUrls s"
  by (auto simp: try_url_def attempt_ok_def Let_def split: sum.splits)

lemma try_fallbacks_step:
  "try_fallbacks env i cred (u # us) s =
     (if attempt_ok env i cred u then (True, snd (try_url env i cred u s))
      else try_fallbacks env (Suc i) cred us (snd (try_url env i cred u s)))"
  using try_url_None [of env i cred u s]
  by (cases "try_url env i cred u s") (auto split: option.splits)

lemma ex_less_Suc_shift: "(\<exists>j < Suc n. P j) \<longleftrightarrow> P 0 \<or> (\<exists>j < n. P (Suc j))"
  by (auto simp: less_Suc_eq_0_disj)

lemma try_fallbacks_iff:
  "fst (try_fallbacks env i cred us s) \<longleftrightarrow> (\<exists>j < length us. attempt_ok env (i + j) cred (us ! j))"
proof (induction us arbitrary: i s)
  case (Cons u us)
  then show ?case by (simp add: try_fallbacks_step ex_less_Suc_shift del: try_fallbacks.simps)
qed simp

lemma try_fallbacks_frame:
  "tttContract (snd (try_fallbacks env i cred us s)) = tttContract s"
  "protocolFeeContract (snd (try_fallbacks env i cred us s)) = protocolFeeContract s"
  "eventListeners (snd (try_fallbacks env i cred us s)) = eventListeners s"
  "handlers (snd (try_fallbacks env i cred us s)) = handlers s"
  "connected (snd (try_fallbacks env i cred us s)) = (fst (try_fallbacks env i cred us s) \<or> connected s)"
  "fst (try_fallbacks env i cred us s) \<or> provider s \<noteq> None \<Longrightarrow> provider (snd (try_fallbacks env i cred us s)) \<noteq> None"
  by (induction us arbitrary: i s) (simp_all add: try_fallbacks_step try_url_frame del: try_fallbacks.simps(2))

lemma disconnect_fields [simp]:
  "provider (disconnect s) = None" "chainSigner (disconnect s) = None" "tttContract (disconnect s) = None"
  "protocolFeeContract (disconnect s) = None" "connected (disconnect s) = False" "eventListeners (disconnect s) = []"
  "signerOrKey (disconnect s) = signerOrKey s" "maxReconnectAttempts (disconnect s) = maxReconnectAttempts s"
  "reconnect_urls (disconnect s) = reconnect_urls s"
  by (simp_all add: disconnect_def unsubscribeAll_def reconnect_urls_def)

lemma reconnect_cleans:
  assumes "signerOrKey s = Some cred" and "cred \<noteq> KeyText []"
  shows "(fst (reconnect env s) = None \<longleftrightarrow>
            (\<exists>j < length (reconnect_urls s). int j < maxReconnectAttempts s \<and> attempt_ok env j cred (reconnect_urls s ! j))) \<and>
         (isConnected (snd (reconnect env s)) \<longleftrightarrow> fst (reconnect env s) = None) \<and>
         tttContract (snd (reconnect env s)) = None \<and> protocolFeeContract (snd (reconnect env s)) = None \<and>
         eventListeners (snd (reconnect env s)) = []"
proof -
  let ?n = "nat (min (maxReconnectAttempts s) (int (length (reconnect_urls s))))"
  let ?r = "try_fallbacks env 0 cred (take ?n (reconnect_urls s)) (disconnect s)"
  have ne: "\<not> falsy_credential (signerOrKey s)" using assms by (auto simp: falsy_credential_def)
  have r: "reconnect env s = (if fst ?r then (None, snd ?r) else
      (Some (net_err NETWORK_RECONNECTION_EXHAUSTED ''[EVM] Reconnection failed''
               (''All '' @ show_int (maxReconnectAttempts (snd ?r)) @ '' attempts exhausted'')
               ''Check RPC provider status and network connectivity.''), (snd ?r)\<lparr>connected := False\<rparr>))"
    using ne assms(1) by (auto simp: reconnect_def Let_def split: prod.splits bool.splits)
  have "fst ?r \<longleftrightarrow> (\<exists>j < length (reconnect_urls s). int j < maxReconnectAttempts s \<and> attempt_ok env j cred (reconnect_urls s ! j))"
    unfolding try_fallbacks_iff by (auto simp: less_nat_zero_code zless_nat_eq_int_zless)
  moreover have "fst ?r \<Longrightarrow> provider (snd ?r) \<noteq> None" using try_fallbacks_frame(6) by blast
  ultimately show ?thesis
    unfolding r isConnected_def by (cases "fst ?r") (simp_all add: try_fallbacks_frame del: try_fallbacks.simps)
qed

definition sample_rpc :: rpc_env where
  "sample_rpc = \<lparr>wallet_error = (\<lambda>k. None),
     getNetwork = (\<lambda>i url. if url = ''http://b'' then Inr 8453
        else Inl (RpcErr \<lparr>er_reason = None, er_data_message = None, er_message = Some ''ECONNREFUSED'', er_text = ''Error''\<rparr>))\<rparr>"

definition sample_evm :: evm where
  "sample_evm = (EVMConnector (Some [''http://b'']) None)\<lparr>primaryRpcUrl := ''http://a'',
     signerOrKey := Some (SignerObject ''s'' True), connected := True\<rparr>"

text \<open>
  A failed \<open>connect\<close> does not clear the flag: after it, the connector reports being
  connected exactly when it was before, although its provider is now one that failed.
\<close>

theorem failed_connect_keeps_flag:
  assumes "fst (connect env url cred s) = Some e" and "url \<noteq> []"
  shows "isConnected (snd (connect env url cred s)) \<longleftrightarrow> connected s"
proof -
  let ?s0 = "s\<lparr>primaryRpcUrl := url, signerOrKey := Some cred\<rparr>"
  let ?t = "try_url env 0 cred url ?s0"
  let ?f = "try_fallbacks env 1 cred (fallbackRpcUrls (snd ?t)) (snd ?t)"
  show ?thesis
  proof (cases "bad_key_format cred")
    case True
    then show ?thesis using assms by (simp add: connect_def isConnected_def Let_def)
  next
    case False
    then have na: "\<not> attempt_ok env 0 cred url"
      using assms unfolding try_url_None [of env 0 cred url ?s0, symmetric]
      by (auto simp: connect_def Let_def split: prod.splits option.splits)
    obtain e' where t: "fst ?t = Some e'" using na unfolding try_url_None [of env 0 cred url ?s0, symmetric] by auto
    show ?thesis
    proof (cases "rethrown e'")
      case True
      then have "snd (connect env url cred s) = snd ?t"
        using assms(2) False t by (cases ?t) (simp add: connect_def Let_def)
      then show ?thesis using na by (simp add: isConnected_def try_url_frame)
    next
      case nr: False
      then have c: "connect env url cred s = (if fst ?f then (None, snd ?f) else
          (Some (net_err NETWORK_CONNECTION_FAILED ''[EVM] Connection failed''
                    (case e' of TTTErr t \<Rightarrow> te_message t
                     | RpcErr r \<Rightarrow> (case er_message r of Some m \<Rightarrow> m | None \<Rightarrow> er_text r))
                    ''Verify your RPC URL and network connectivity.''), snd ?f))"
        using assms(2) False t
        by (cases ?t; cases ?f) (auto simp: connect_def Let_def split: bool.splits)
      then have "\<not> fst ?f" using assms(1) by auto
      moreover have "provider (snd ?f) \<noteq> None"
        by (rule try_fallbacks_frame(6)) (simp add: try_url_frame)
      ultimately show ?thesis
        using c na by (simp add: isConnected_def try_fallbacks_frame try_url_frame)
    qed
  qed
qed

lemma failed_connect_keeps_flag_witness:
  "isConnected (snd (connect sample_rpc ''http://c'' (SignerObject ''s'' True) (sample_evm\<lparr>fallbackRpcUrls := []\<rparr>)))"
proof -
  have "fst (connect sample_rpc ''http://c'' (SignerObject ''s'' True) (sample_evm\<lparr>fallbackRpcUrls := []\<rparr>)) \<noteq> None"
    by (simp add: connect_def bad_key_format_def try_url_def make_signer_def sample_rpc_def Let_def rethrown_def)
  then obtain e where "fst (connect sample_rpc ''http://c'' (SignerObject ''s'' True) (sample_evm\<lparr>fallbackRpcUrls := []\<rparr>)) = Some e"
    by auto
  from failed_connect_keeps_flag [OF this] show ?thesis by (simp add: sample_evm_def)
qed

section \<open>Listeners\<close>

datatype evm_op =
    OpConnect rpc_env string credential
  | OpReconnect rpc_env
  | OpDisconnect
  | OpAttach "string \<Rightarrow> bool" string
  | OpAttachFee "string \<Rightarrow> bool" string
  | OpSubscribe bool bool bool
  | OpUnsubscribe

fun evm_step :: "evm_op \<Rightarrow> evm \<Rightarrow> evm" where
  "evm_step (OpConnect env url cred) s = snd (connect env url cred s)"
| "evm_step (OpReconnect env) s = snd (reconnect env s)"
| "evm_step OpDisconnect s = disconnect s"
| "evm_step (OpAttach isA a) s = snd (attachContract isA a s)"
| "evm_step (OpAttachFee isA a) s = snd (attachProtocolFeeContract isA a s)"
| "evm_step (OpSubscribe m b f) s = subscribeToEvents m b f s"
| "evm_step OpUnsubscribe s = unsubscribeAll s"

definition listeners_ok :: "evm \<Rightarrow> bool" where
  "listeners_ok s \<longleftrightarrow> handlers s = eventListeners s"

lemma fold_remove1_self: "fold remove1 xs (xs @ ys) = ys"
  by (induction xs) simp_all

lemma unsubscribe_handlers: "listeners_ok s \<Longrightarrow> handlers (unsubscribeAll s) = []"
  using fold_remove1_self [of "eventListeners s" "[]"] by (simp add: listeners_ok_def unsubscribeAll_def)

lemma disconnect_handlers: "handlers (disconnect s) = handlers (unsubscribeAll s)"
  by (simp add: disconnect_def)

lemma connect_listeners:
  "handlers (snd (connect env url cred s)) = handlers s \<and> eventListeners (snd (connect env url cred s)) = eventListeners s"
proof -
  have u: "handlers s' = handlers s0 \<and> eventListeners s' = eventListeners s0" if "try_url env i cred v s0 = (r, s')" for i v s0 r s'
    using try_url_frame(5,6) [of env i cred v s0] that by simp
  have f: "handlers s' = handlers s0 \<and> eventListeners s' = eventListeners s0"
    if "try_fallbacks env i cred us s0 = (r, s')" for i us s0 r s'
    using try_fallbacks_frame(3,4) [of env i cred us s0] that by simp
  show ?thesis
    unfolding connect_def Let_def by (auto split: prod.splits option.splits bool.splits dest!: u f)
qed

lemma reconnect_listeners:
  assumes "listeners_ok s"
  shows "listeners_ok (snd (reconnect env s))"
proof (cases "falsy_credential (signerOrKey s)")
  case True
  then show ?thesis using assms by (simp add: reconnect_def)
next
  case False
  let ?r = "try_fallbacks env 0 (the (signerOrKey s))
      (take (nat (min (maxReconnectAttempts s) (int (length (reconnect_urls s))))) (reconnect_urls s)) (disconnect s)"
  have "handlers (snd (reconnect env s)) = handlers (snd ?r) \<and> eventListeners (snd (reconnect env s)) = eventListeners (snd ?r)"
    using False by (cases ?r; cases "fst ?r") (simp_all add: reconnect_def Let_def del: try_fallbacks.simps)
  then show ?thesis
    unfolding listeners_ok_def try_fallbacks_frame using unsubscribe_handlers [OF assms]
    by (simp add: disconnect_handlers)
qed

definition expected_listeners :: "bool \<Rightarrow> bool \<Rightarrow> bool \<Rightarrow> evm \<Rightarrow> (nat \<times> string) list" where
  "expected_listeners m b f s =
     (case tttContract s of None \<Rightarrow> []
      | Some c \<Rightarrow> (if m then [(c_instance c, ''TTTMinted'')] else []) @ (if b then [(c_instance c, ''TTTBurned'')] else []))
     @ (case protocolFeeContract s of None \<Rightarrow> [] | Some c \<Rightarrow> if f then [(c_instance c, ''FeeCollected'')] else [])"

lemma listen_fields [simp]:
  "handlers (listen c ev s) = handlers s @ [(c_instance c, ev)]"
  "eventListeners (listen c ev s) = eventListeners s @ [(c_instance c, ev)]"
  "tttContract (listen c ev s) = tttContract s" "protocolFeeContract (listen c ev s) = protocolFeeContract s"
  by (simp_all add: listen_def)

lemma subscribe_listeners:
  assumes "listeners_ok s"
  shows "handlers (subscribeToEvents m b f s) = expected_listeners m b f s \<and>
         eventListeners (subscribeToEvents m b f s) = expected_listeners m b f s"
proof -
  define s1 where "s1 = (if length (eventListeners s) > 0 then unsubscribeAll s else s)"
  have e: "handlers s1 = []" "eventListeners s1 = []"
    using unsubscribe_handlers [OF assms] assms by (auto simp: s1_def listeners_ok_def unsubscribeAll_def)
  have c: "tttContract s1 = tttContract s" "protocolFeeContract s1 = protocolFeeContract s"
    by (simp_all add: s1_def unsubscribeAll_def)
  show ?thesis
    unfolding subscribeToEvents_def expected_listeners_def s1_def [symmetric] Let_def
    using e c by (cases "tttContract s"; cases "protocolFeeContract s"; cases m; cases b; cases f) simp_all
qed

lemma listeners_step: "listeners_ok s \<Longrightarrow> listeners_ok (evm_step op s)"
proof (cases op)
  case (OpConnect env url cred)
  then show "listeners_ok s \<Longrightarrow> ?thesis" by (simp add: listeners_ok_def connect_listeners)
next
  case (OpReconnect env)
  then show "listeners_ok s \<Longrightarrow> ?thesis" by (simp add: reconnect_listeners)
next
  case OpDisconnect
  then show "listeners_ok s \<Longrightarrow> ?thesis" using unsubscribe_handlers [of s] by (simp add: listeners_ok_def disconnect_handlers)
next
  case (OpAttach isA a)
  then show "listeners_ok s \<Longrightarrow> ?thesis" by (auto simp: listeners_ok_def attachContract_def split: sum.splits)
next
  case (OpAttachFee isA a)
  then show "listeners_ok s \<Longrightarrow> ?thesis" by (auto simp: listeners_ok_def attachProtocolFeeContract_def split: sum.splits)
next
  case (OpSubscribe m b f)
  then show "listeners_ok s \<Longrightarrow> ?thesis" using subscribe_listeners [of s m b f] by (simp add: listeners_ok_def)
next
  case OpUnsubscribe
  then show "listeners_ok s \<Longrightarrow> ?thesis" using unsubscribe_handlers [of s] by (simp add: listeners_ok_def unsubscribeAll_def)
qed

interpretation listeners: kept evm_step listeners_ok
  by unfold_locales (rule listeners_step)

text \<open>
  C32. Listeners never pile up.  Whatever was connected, attached and subscribed before, a
  subscription leaves exactly one handler per requested event on the contracts attached
  now, and none on contracts attached earlier.
\<close>

theorem subscription_exact:
  "handlers (subscribeToEvents m b f (fold evm_step ops (EVMConnector fallbacks attempts))) =
     expected_listeners m b f (fold evm_step ops (EVMConnector fallbacks attempts))"
proof -
  have "listeners_ok (EVMConnector fallbacks attempts)"
    by (simp add: listeners_ok_def EVMConnector_def)
  then show ?thesis using subscribe_listeners [OF listeners.run] by blast
qed

text \<open>
  C31. Reconnecting, after any sequence of connections, attachments and subscriptions.  With stored
  credentials it succeeds exactly when one of the known URLs, primary first and as many as the
  attempts allow, answers at its turn; the connector then reports being connected exactly on
  success; and in either case no contract stays attached, no handler stays registered with a
  contract, of those attached before or ever, and the connector's own list of them is empty.
\<close>

theorem reconnect_outcome:
  fixes ops fallbacks attempts
  defines "s \<equiv> fold evm_step ops (EVMConnector fallbacks attempts)"
  assumes "signerOrKey s = Some cred" and "cred \<noteq> KeyText []"
  shows "(fst (reconnect env s) = None \<longleftrightarrow>
            (\<exists>j < length (reconnect_urls s). int j < maxReconnectAttempts s \<and> attempt_ok env j cred (reconnect_urls s ! j))) \<and>
         (isConnected (snd (reconnect env s)) \<longleftrightarrow> fst (reconnect env s) = None) \<and>
         tttContract (snd (reconnect env s)) = None \<and> protocolFeeContract (snd (reconnect env s)) = None \<and>
         handlers (snd (reconnect env s)) = [] \<and> eventListeners (snd (reconnect env s)) = []"
proof -
  have "listeners_ok s" unfolding s_def
    by (rule listeners.run) (simp add: listeners_ok_def EVMConnector_def)
  then have "handlers (snd (reconnect env s)) = eventListeners (snd (reconnect env s))"
    using reconnect_listeners unfolding listeners_ok_def by blast
  then show ?thesis using reconnect_cleans [OF assms(2,3), of env] by simp
qed

definition sample_ops :: "evm_op list" where
  "sample_ops = [OpConnect sample_rpc ''http://a'' (SignerObject ''s'' True), OpAttach (\<lambda>a. True) ''0xaa'', OpSubscribe True True False]"

lemma sample_run:
  "fold evm_step sample_ops (EVMConnector (Some [''http://b'']) None) =
     \<lparr>provider = Some ''http://b'', chainSigner = Some (ConnectedSigner ''s'' ''http://b''),
      tttContract = Some \<lparr>c_address = ''0xaa'', c_signer = ConnectedSigner ''s'' ''http://b'', c_instance = 0\<rparr>,
      protocolFeeContract = None, eventListeners = [(0, ''TTTMinted''), (0, ''TTTBurned'')],
      primaryRpcUrl = ''http://a'', fallbackRpcUrls = [''http://b''], signerOrKey = Some (SignerObject ''s'' True),
      maxReconnectAttempts = 3, connected = True, handlers = [(0, ''TTTMinted''), (0, ''TTTBurned'')], instances = 1\<rparr>"
  by (simp add: sample_ops_def EVMConnector_def connect_def try_url_def make_signer_def sample_rpc_def Let_def bad_key_format_def
      rethrown_def attachContract_def check_attach_def subscribeToEvents_def listen_def)

lemma reconnect_outcome_witness:
  "handlers (fold evm_step sample_ops (EVMConnector (Some [''http://b'']) None)) \<noteq> [] \<and>
   fst (reconnect sample_rpc (fold evm_step sample_ops (EVMConnector (Some [''http://b'']) None))) = None \<and>
   handlers (snd (reconnect sample_rpc (fold evm_step sample_ops (EVMConnector (Some [''http://b'']) None)))) = []"
proof -
  let ?s = "fold evm_step sample_ops (EVMConnector (Some [''http://b'']) None)"
  have "signerOrKey ?s = Some (SignerObject ''s'' True)" by (simp add: sample_run)
  note r = reconnect_outcome [OF this, of sample_rpc]
  have "\<exists>j < length (reconnect_urls ?s). int j < maxReconnectAttempts ?s \<and>
      attempt_ok sample_rpc j (SignerObject ''s'' True) (reconnect_urls ?s ! j)"
    by (rule exI [of _ 1]) (simp add: sample_run reconnect_urls_def attempt_ok_def make_signer_def sample_rpc_def)
  moreover have "handlers ?s \<noteq> []" by (simp add: sample_run)
  ultimately show ?thesis using r by blast
qed

section \<open>Dropped transactions\<close>

fun evm_code :: "evm_error + 'a \<Rightarrow> string option" where
  "evm_code (Inl (TTTErr e)) = Some (te_code e)"
| "evm_code _ = None"

text \<open>
  A transaction that is sent and then dropped from the mempool is reported with four
  calls in two ways: submitting a record and swapping report the network code TTT_E024,
  while minting and burning, whose handlers wrap the connector's own errors again, report
  the contract codes TTT_E034 and TTT_E033.
\<close>

theorem dropped_transaction_codes:
  assumes "tttContract s \<noteq> None" and "chainSigner s \<noteq> None" and "a \<noteq> []" and "isAddress a"
    and "estimateGas tx = GasEstimate g" and "\<forall>l. \<exists>h. send_tx tx l = Inr h" and "wait_tx tx = Inr None"
  shows "evm_code (submitTTTRecord tx s) = Some ''TTT_E024'' \<and> evm_code (swap_tokens isAddress a tx s) = Some ''TTT_E024'' \<and>
         evm_code (mintTTT isAddress a tx s) = Some ''TTT_E034'' \<and> evm_code (burnTTT tx s) = Some ''TTT_E033''"
proof -
  obtain h1 h2 where "send_tx tx (Some (gas_limit g)) = Inr h1" "send_tx tx None = Inr h2"
    using assms(6) by meson
  moreover obtain c sg where "tttContract s = Some c" "chainSigner s = Some sg" using assms(1,2) by auto
  ultimately show ?thesis using assms(3-5,7)
    by (simp add: submitTTTRecord_def swap_tokens_def mintTTT_def burnTTT_def withTimeout_def await_receipt_def
        rethrown_def net_err_def con_err_def)
qed

definition sample_tx :: tx_env where
  "sample_tx = \<lparr>estimateGas = GasEstimate 21000, send_tx = (\<lambda>l. Inr ''0xabc''), wait_tx = Inr None\<rparr>"

lemma dropped_transaction_codes_witness:
  "evm_code (mintTTT (\<lambda>a. True) ''0xab'' sample_tx
     (sample_evm\<lparr>chainSigner := Some (PlainSigner ''s''),
        tttContract := Some \<lparr>c_address = ''0xcd'', c_signer = PlainSigner ''s'', c_instance = 0\<rparr>\<rparr>)) = Some ''TTT_E034''"
  using dropped_transaction_codes [of "sample_evm\<lparr>chainSigner := Some (PlainSigner ''s''),
        tttContract := Some \<lparr>c_address = ''0xcd'', c_signer = PlainSigner ''s'', c_instance = 0\<rparr>\<rparr>" "''0xab''" "\<lambda>a. True" sample_tx 21000]
  by (simp add: sample_tx_def)

end
