(* ===== verification/Signers.thy ===== *)
theory Signers
  imports Errors Bytes
begin

text \<open>
  The signers (\<open>src/signer.ts\<close>): the DER decoding of public keys and signatures the cloud
  KMS services return, the two KMS signers with their cached address, and the factory.
  \<open>ethers\<close> and the services are arguments.  Positions in a buffer are integers because a
  decoded length may be negative: the code assembles it with 32-bit operations.
\<close>

section \<open>Reading DER\<close>

definition js_index :: "'a list \<Rightarrow> int \<Rightarrow> 'a option" where
  "js_index xs i = (if 0 \<le> i \<and> i < int (length xs) then Some (xs ! nat i) else None)"

text \<open>\<open>slice\<close> of a buffer: a negative position counts from the end.\<close>

definition slice_pos :: "nat \<Rightarrow> int \<Rightarrow> nat" where
  "slice_pos n i = (if i < 0 then nat (max 0 (int n + i)) else min n (nat i))"

definition js_slice :: "int \<Rightarrow> int \<Rightarrow> 'a list \<Rightarrow> 'a list" where
  "js_slice a b xs = subarray (slice_pos (length xs) a) (slice_pos (length xs) b) xs"

definition readTag :: "bytes \<Rightarrow> int \<Rightarrow> js_exn + byte option \<times> int" where
  "readTag der pos =
     (if pos \<ge> int (length der) then Inl (JsError ''DER parse error: unexpected end of data while reading tag'')
      else Inr (js_index der pos, pos + 1))"

fun read_length_bytes :: "bytes \<Rightarrow> nat \<Rightarrow> int \<Rightarrow> 32 word \<Rightarrow> js_exn + int \<times> int" where
  "read_length_bytes der 0 pos len = Inr (sint len, pos)"
| "read_length_bytes der (Suc n) pos len =
     (if pos \<ge> int (length der) then
        Inl (JsError ''DER parse error: unexpected end of data in multi-byte length'')
      else
        read_length_bytes der n (pos + 1)
          (or (push_bit 8 len) (case js_index der pos of None \<Rightarrow> 0 | Some b \<Rightarrow> ucast b)))"

text \<open>An undefined first byte is not below 128, and masks to 0.\<close>

definition readLength :: "bytes \<Rightarrow> int \<Rightarrow> js_exn + int \<times> int" where
  "readLength der pos =
     (if pos \<ge> int (length der) then
        Inl (JsError ''DER parse error: unexpected end of data while reading length'')
      else
        let first = (case js_index der pos of None \<Rightarrow> 128 | Some b \<Rightarrow> unat b) in
        if first < 128 then Inr (int first, pos + 1)
        else
          let numBytes = first - 128 in
          if numBytes = 0 \<or> numBytes > 4 then
            Inl (JsError (''DER parse error: unsupported length encoding ('' @ show_int (int numBytes) @ '' bytes)''))
          else read_length_bytes der numBytes (pos + 1) 0)"

text \<open>
  A tag that is not the expected one; \<open>toString\<close> of an undefined tag is a \<open>TypeError\<close>.
  \<open>Number.prototype.toString(16)\<close> has no leading zero.
\<close>

definition hex_number :: "byte \<Rightarrow> string" where
  "hex_number b = (if unat b < 16 then tl (hex_encode [b]) else hex_encode [b])"

definition expect_tag :: "byte \<Rightarrow> string \<Rightarrow> byte option \<Rightarrow> js_exn + unit" where
  "expect_tag want what got =
     (case got of
        None \<Rightarrow> Inl (TypeError ''Cannot read properties of undefined (reading toString)'')
      | Some t \<Rightarrow> check (JsError (''DER parse error: expected '' @ what @ '', got 0x'' @ hex_number t)) (t = want))"

definition extractPublicKeyFromDER :: "bytes \<Rightarrow> js_exn + bytes" where
  "extractPublicKeyFromDER der =
     bindr (readTag der 0) (\<lambda>(outerTag, p1).
     bindr (expect_tag 0x30 ''SEQUENCE (0x30)'' outerTag) (\<lambda>_.
     bindr (readLength der p1) (\<lambda>(outerLen, p2).
     bindr (readTag der p2) (\<lambda>(innerTag, p3).
     bindr (expect_tag 0x30 ''inner SEQUENCE (0x30)'' innerTag) (\<lambda>_.
     bindr (readLength der p3) (\<lambda>(innerLen, p4).
     bindr (readTag der (p4 + innerLen)) (\<lambda>(bsTag, p5).
     bindr (expect_tag 0x03 ''BITSTRING (0x03)'' bsTag) (\<lambda>_.
     bindr (readLength der p5) (\<lambda>(bsLen, p6).
     bindr (check (JsError (''DER parse error: expected 0 unused bits in BITSTRING, got ''
                     @ (case js_index der p6 of None \<Rightarrow> ''undefined'' | Some b \<Rightarrow> show_int (int (unat b)))))
              (js_index der p6 = Some 0)) (\<lambda>_.
     let keyBytes = js_slice (p6 + 1) (p6 + 1 + bsLen - 1) der in
     bindr (check (JsError (''DER parse error: expected 65-byte uncompressed secp256k1 key (04||X||Y), got ''
                     @ show_int (int (length keyBytes)) @ '' bytes''))
              (length keyBytes = 65 \<and> js_index keyBytes 0 = Some 4)) (\<lambda>_.
     Inr keyBytes)))))))))))"

definition padStart :: "nat \<Rightarrow> char \<Rightarrow> string \<Rightarrow> string" where
  "padStart n c s = replicate (n - length s) c @ s"

definition strip_zero :: "bytes \<Rightarrow> bytes" where
  "strip_zero r = (if js_index r 0 = Some 0 then js_slice 1 (int (length r)) r else r)"

text \<open>
  The signature parser trusts its lengths: a missing length of R makes the position NaN, so
  the second tag is not found; a missing length of S makes S empty.
\<close>

definition parseDERSignature :: "bytes \<Rightarrow> js_exn + string \<times> string" where
  "parseDERSignature sig =
     bindr (check (JsError ''Invalid DER signature: not a sequence'') (js_index sig 0 = Some 0x30)) (\<lambda>_.
     bindr (check (JsError ''Invalid DER signature: expected integer for R'') (js_index sig 2 = Some 0x02)) (\<lambda>_.
     case js_index sig 3 of
       None \<Rightarrow> Inl (JsError ''Invalid DER signature: expected integer for S'')
     | Some rLen \<Rightarrow>
         let r = strip_zero (js_slice 4 (4 + int (unat rLen)) sig);
             pos = 4 + int (unat rLen) in
         bindr (check (JsError ''Invalid DER signature: expected integer for S'') (js_index sig pos = Some 0x02)) (\<lambda>_.
         let s = strip_zero (case js_index sig (pos + 1) of
                     None \<Rightarrow> []
                   | Some sLen \<Rightarrow> js_slice (pos + 2) (pos + 2 + int (unat sLen)) sig) in
         Inr (''0x'' @ padStart 64 (CHR ''0'') (hex_encode r),
              ''0x'' @ padStart 64 (CHR ''0'') (hex_encode s)))))"

section \<open>The KMS signers\<close>

abbreviation falsy :: "string option \<Rightarrow> bool" where
  "falsy v \<equiv> v = None \<or> v = Some []"

datatype kms_kind = AWSKMS | GCPKMS

record kms_signer =
  ks_kind :: kms_kind
  ks_keyId :: string
  ks_region :: string
  ks_provider :: "string option"
  ks_address :: "string option"

text \<open>
  The services: the public key (DER from AWS, PEM from GCP) and the signature of a digest
  under a key; and the part of \<open>ethers\<close> the signers use.
\<close>

record kms_service =
  kv_der :: "string \<Rightarrow> js_exn + bytes"
  kv_pem :: "string \<Rightarrow> js_exn + string"
  kv_sign :: "string \<Rightarrow> bytes \<Rightarrow> js_exn + bytes"

record 'sig ecdsa_lib =
  computeAddress :: "string \<Rightarrow> js_exn + string"
  sig_from :: "string \<Rightarrow> string \<Rightarrow> nat \<Rightarrow> js_exn + 'sig"
  recoverAddress :: "string \<Rightarrow> 'sig \<Rightarrow> js_exn + string"
  sig_serialized :: "'sig \<Rightarrow> string"

definition newline :: char where "newline = char_of (10 :: nat)"
definition carriage_return :: char where "carriage_return = char_of (13 :: nat)"

text \<open>The regular expression removes the two marker lines and the line ends, from the left.\<close>

fun strip_pem :: "string \<Rightarrow> string" where
  "strip_pem [] = []"
| "strip_pem (c # cs) =
     (if take 26 (c # cs) = ''-----BEGIN PUBLIC KEY-----'' then strip_pem (drop 25 cs)
      else if take 24 (c # cs) = ''-----END PUBLIC KEY-----'' then strip_pem (drop 23 cs)
      else if c = newline \<or> c = carriage_return then strip_pem cs
      else c # strip_pem cs)"

definition fetch_der :: "kms_service \<Rightarrow> kms_signer \<Rightarrow> js_exn + bytes" where
  "fetch_der K s =
     (case ks_kind s of
        AWSKMS \<Rightarrow> kv_der K (ks_keyId s)
      | GCPKMS \<Rightarrow> bindr (kv_pem K (ks_keyId s)) (\<lambda>pem. Inr (b64_decode (strip_pem pem))))"

definition kms_getAddress :: "kms_service \<Rightarrow> 'sig ecdsa_lib \<Rightarrow> kms_signer \<Rightarrow> (js_exn + string) \<times> kms_signer" where
  "kms_getAddress K E s =
     (if \<not> falsy (ks_address s) then (Inr (the (ks_address s)), s)
      else
        case bindr (fetch_der K s) (\<lambda>der.
               bindr (extractPublicKeyFromDER der) (\<lambda>pubKey. computeAddress E (''0x'' @ hex_encode pubKey))) of
          Inl e \<Rightarrow> (Inl e, s)
        | Inr a \<Rightarrow> (Inr a, s\<lparr>ks_address := Some a\<rparr>))"

text \<open>The recovery bit is found by trying both values, in order.\<close>

fun try_v :: "'sig ecdsa_lib \<Rightarrow> string \<Rightarrow> string \<Rightarrow> string \<Rightarrow> string \<Rightarrow> nat list \<Rightarrow> js_exn + string option" where
  "try_v E digest r s addr [] = Inr None"
| "try_v E digest r s addr (v # vs) =
     bindr (sig_from E r s v) (\<lambda>signature.
     bindr (recoverAddress E digest signature) (\<lambda>a.
       if toLowerCase a = toLowerCase addr then Inr (Some (sig_serialized E signature))
       else try_v E digest r s addr vs))"

definition kms_name :: "kms_kind \<Rightarrow> string" where
  "kms_name k = (case k of AWSKMS \<Rightarrow> ''AWS'' | GCPKMS \<Rightarrow> ''GCP'')"

definition signDigest ::
    "kms_service \<Rightarrow> 'sig ecdsa_lib \<Rightarrow> string \<Rightarrow> kms_signer \<Rightarrow> (js_exn + string) \<times> kms_signer" where
  "signDigest K E digest s0 =
     (case bindr (kv_sign K (ks_keyId s0) (hex_decode (drop 2 digest))) parseDERSignature of
        Inl e \<Rightarrow> (Inl e, s0)
      | Inr (r, s) \<Rightarrow>
          (case kms_getAddress K E s0 of
             (Inl e, s1) \<Rightarrow> (Inl e, s1)
           | (Inr addr, s1) \<Rightarrow>
               (case try_v E digest r s addr [27, 28] of
                  Inl e \<Rightarrow> (Inl e, s1)
                | Inr (Some text) \<Rightarrow> (Inr text, s1)
                | Inr None \<Rightarrow>
                    (Inl (JsError (''Failed to recover recovery param V for '' @ kms_name (ks_kind s0) @ '' KMS signature'')), s1))))"

definition kms_signMessage ::
    "('m \<Rightarrow> string) \<Rightarrow> kms_service \<Rightarrow> 'sig ecdsa_lib \<Rightarrow> 'm \<Rightarrow> kms_signer \<Rightarrow> (js_exn + string) \<times> kms_signer" where
  "kms_signMessage hashMessage K E message s = signDigest K E (hashMessage message) s"

definition kms_signTypedData ::
    "('t \<Rightarrow> js_exn + string) \<Rightarrow> kms_service \<Rightarrow> 'sig ecdsa_lib \<Rightarrow> 't \<Rightarrow> kms_signer \<Rightarrow> (js_exn + string) \<times> kms_signer" where
  "kms_signTypedData typedDataHash K E value s =
     (case typedDataHash value of Inl e \<Rightarrow> (Inl e, s) | Inr digest \<Rightarrow> signDigest K E digest s)"

text \<open>
  \<open>tx_from\<close> resolves the request into a transaction, \<open>unsignedHash\<close> is its digest,
  \<open>sig_parse\<close> reads a serialised signature back, and \<open>tx_signed\<close> serialises with it.
\<close>

definition kms_signTransaction ::
    "('tx \<Rightarrow> js_exn + 'u) \<Rightarrow> ('u \<Rightarrow> string) \<Rightarrow> (string \<Rightarrow> js_exn + 'sig) \<Rightarrow> ('u \<Rightarrow> 'sig \<Rightarrow> string)
     \<Rightarrow> kms_service \<Rightarrow> 'sig ecdsa_lib \<Rightarrow> 'tx \<Rightarrow> kms_signer \<Rightarrow> (js_exn + string) \<times> kms_signer" where
  "kms_signTransaction tx_from unsignedHash sig_parse tx_signed K E tx s =
     (case tx_from tx of
        Inl e \<Rightarrow> (Inl e, s)
      | Inr baseTx \<Rightarrow>
          (case signDigest K E (unsignedHash baseTx) s of
             (Inl e, s') \<Rightarrow> (Inl e, s')
           | (Inr sig, s') \<Rightarrow> (bindr (sig_parse sig) (\<lambda>signature. Inr (tx_signed baseTx signature)), s')))"

definition kms_connect :: "string \<Rightarrow> kms_signer \<Rightarrow> kms_signer" where
  "kms_connect p s = s\<lparr>ks_provider := Some p, ks_address := None\<rparr>"

text \<open>
  The class for GCP, written out: its methods are the shared ones on a signer of its kind.
\<close>

definition gcp_getAddress :: "kms_service \<Rightarrow> 'sig ecdsa_lib \<Rightarrow> kms_signer \<Rightarrow> (js_exn + string) \<times> kms_signer" where
  "gcp_getAddress K E s =
     (if \<not> falsy (ks_address s) then (Inr (the (ks_address s)), s)
      else case kv_pem K (ks_keyId s) of
        Inl e \<Rightarrow> (Inl e, s)
      | Inr pem \<Rightarrow>
          (case extractPublicKeyFromDER (b64_decode (strip_pem pem)) of
             Inl e \<Rightarrow> (Inl e, s)
           | Inr pubKey \<Rightarrow>
               (case computeAddress E (''0x'' @ hex_encode pubKey) of
                  Inl e \<Rightarrow> (Inl e, s)
                | Inr a \<Rightarrow> (Inr a, s\<lparr>ks_address := Some a\<rparr>))))"

definition gcp_signDigest ::
    "kms_service \<Rightarrow> 'sig ecdsa_lib \<Rightarrow> string \<Rightarrow> kms_signer \<Rightarrow> (js_exn + string) \<times> kms_signer" where
  "gcp_signDigest K E digest s0 =
     (case bindr (kv_sign K (ks_keyId s0) (hex_decode (drop 2 digest))) parseDERSignature of
        Inl e \<Rightarrow> (Inl e, s0)
      | Inr (r, s) \<Rightarrow>
          (case gcp_getAddress K E s0 of
             (Inl e, s1) \<Rightarrow> (Inl e, s1)
           | (Inr addr, s1) \<Rightarrow>
               (case try_v E digest r s addr [27, 28] of
                  Inl e \<Rightarrow> (Inl e, s1)
                | Inr (Some text) \<Rightarrow> (Inr text, s1)
                | Inr None \<Rightarrow>
                    (Inl (JsError ''Failed to recover recovery param V for GCP KMS signature''), s1))))"

definition gcp_signMessage ::
    "('m \<Rightarrow> string) \<Rightarrow> kms_service \<Rightarrow> 'sig ecdsa_lib \<Rightarrow> 'm \<Rightarrow> kms_signer \<Rightarrow> (js_exn + string) \<times> kms_signer" where
  "gcp_signMessage hashMessage K E message s = gcp_signDigest K E (hashMessage message) s"

definition gcp_signTypedData ::
    "('t \<Rightarrow> js_exn + string) \<Rightarrow> kms_service \<Rightarrow> 'sig ecdsa_lib \<Rightarrow> 't \<Rightarrow> kms_signer \<Rightarrow> (js_exn + string) \<times> kms_signer" where
  "gcp_signTypedData typedDataHash K E value s =
     (case typedDataHash value of Inl e \<Rightarrow> (Inl e, s) | Inr digest \<Rightarrow> gcp_signDigest K E digest s)"

definition gcp_signTransaction ::
    "('tx \<Rightarrow> js_exn + 'u) \<Rightarrow> ('u \<Rightarrow> string) \<Rightarrow> (string \<Rightarrow> js_exn + 'sig) \<Rightarrow> ('u \<Rightarrow> 'sig \<Rightarrow> string)
     \<Rightarrow> kms_service \<Rightarrow> 'sig ecdsa_lib \<Rightarrow> 'tx \<Rightarrow> kms_signer \<Rightarrow> (js_exn + string) \<times> kms_signer" where
  "gcp_signTransaction tx_from unsignedHash sig_parse tx_signed K E tx s =
     (case tx_from tx of
        Inl e \<Rightarrow> (Inl e, s)
      | Inr baseTx \<Rightarrow>
          (case gcp_signDigest K E (unsignedHash baseTx) s of
             (Inl e, s') \<Rightarrow> (Inl e, s')
           | (Inr sig, s') \<Rightarrow> (bindr (sig_parse sig) (\<lambda>signature. Inr (tx_signed baseTx signature)), s')))"

definition gcp_connect :: "string \<Rightarrow> kms_signer \<Rightarrow> kms_signer" where
  "gcp_connect p s = \<lparr>ks_kind = GCPKMS, ks_keyId = ks_keyId s, ks_region = ks_region s, ks_provider = Some p,
     ks_address = None\<rparr>"

lemma gcp_getAddress_shared: "ks_kind s = GCPKMS \<Longrightarrow> gcp_getAddress K E s = kms_getAddress K E s"
  by (simp add: gcp_getAddress_def kms_getAddress_def fetch_der_def bindr_def split: sum.split)

lemma gcp_signDigest_shared:
  assumes "ks_kind s = GCPKMS"
  shows "gcp_signDigest K E digest s = signDigest K E digest s"
proof -
  have "''Failed to recover recovery param V for '' @ kms_name (ks_kind s) @ '' KMS signature'' =
        ''Failed to recover recovery param V for GCP KMS signature''"
    by (simp add: assms kms_name_def)
  then show ?thesis
    unfolding gcp_signDigest_def signDigest_def gcp_getAddress_shared [OF assms] by (simp only:)
qed

lemma gcp_signing_shared:
  assumes "ks_kind s = GCPKMS"
  shows "gcp_signMessage H K E m s = kms_signMessage H K E m s"
    and "gcp_signTypedData D K E v s = kms_signTypedData D K E v s"
    and "gcp_signTransaction F U P W K E x s = kms_signTransaction F U P W K E x s"
    and "gcp_connect p s = kms_connect p s"
  by (simp_all add: assms gcp_signMessage_def kms_signMessage_def gcp_signTypedData_def kms_signTypedData_def
      gcp_signTransaction_def kms_signTransaction_def gcp_signDigest_shared gcp_connect_def kms_connect_def
      split: sum.splits)

section \<open>The factory\<close>

datatype signer_config =
    PrivateKeyConfig "string option" "string option"
  | TurnkeyConfig string string string string string
  | PrivyConfig string string "string option"
  | KmsConfig string string "string option" "string option" "string option" "string option" "string option"
  | OtherConfig string

datatype ttt_signer =
    PrivateKeySigner string
  | TurnkeySignerWrapper string string string string string
  | KMSSigner kms_signer

text \<open>
  The environment: the variables, what \<open>isHexString\<close>, \<open>new Wallet\<close> and the optional
  packages do (the error's message where importing or constructing one fails), and the path
  of a key version.
\<close>

record signer_env =
  process_env :: "string \<Rightarrow> string option"
  isHexString32 :: "string \<Rightarrow> bool"
  wallet_exn :: "string \<Rightarrow> js_exn option"
  turnkey_exn :: "js_exn option"
  aws_exn :: "js_exn option"
  gcp_exn :: "js_exn option"
  cryptoKeyVersionPath :: "string \<Rightarrow> string \<Rightarrow> string \<Rightarrow> string \<Rightarrow> string \<Rightarrow> string"

definition quote :: "string \<Rightarrow> string" where "quote s = [CHR 0x27] @ s @ [CHR 0x27]"

definition show_opt :: "string option \<Rightarrow> string" where
  "show_opt v = (case v of None \<Rightarrow> ''undefined'' | Some s \<Rightarrow> s)"

definition new_kms :: "kms_kind \<Rightarrow> string \<Rightarrow> string \<Rightarrow> kms_signer" where
  "new_kms k key region = \<lparr>ks_kind = k, ks_keyId = key, ks_region = region, ks_provider = None, ks_address = None\<rparr>"

definition createPrivateKey :: "signer_env \<Rightarrow> string option \<Rightarrow> string option \<Rightarrow> js_exn + ttt_signer" where
  "createPrivateKey E cfgKey envVar =
     (let key0 = (if falsy cfgKey \<and> \<not> falsy envVar then process_env E (the envVar) else cfgKey) in
      if falsy key0 then
        Inl (throw4 TTTSignerError SIGNER_MISSING_KEY ''[Signer] Private key missing''
          (''Neither '' @ quote ''key'' @ '' nor env var '' @ quote (show_opt envVar) @ '' was provided'')
          ''Set the environment variable or provide the key directly in config.'')
      else
        let key = (if take 2 (the key0) = ''0x'' then the key0 else ''0x'' @ the key0) in
        if \<not> isHexString32 E key then
          Inl (throw4 TTTSignerError SIGNER_INVALID_KEY_FORMAT ''[Signer] Invalid private key format''
            ''Expected 0x + 64 hex characters'' ''Provide a valid 32-byte hex private key.'')
        else (case wallet_exn E key of Some e \<Rightarrow> Inl e | None \<Rightarrow> Inr (PrivateKeySigner key)))"

definition createKms ::
    "signer_env \<Rightarrow> string \<Rightarrow> string \<Rightarrow> string option \<Rightarrow> string option \<Rightarrow> string option \<Rightarrow> string option
     \<Rightarrow> string option \<Rightarrow> js_exn + ttt_signer" where
  "createKms E provider keyId region projectId locationId keyRingId keyVersionId =
     (if provider = ''aws'' then
        (case aws_exn E of
           Some e \<Rightarrow> Inl (throw4 TTTSignerError SIGNER_KMS_AWS_INIT_FAILED ''[Signer] AWS KMS initialization failed''
             (exn_message e) ''Ensure @aws-sdk/client-kms is installed and credentials are configured.'')
         | None \<Rightarrow> Inr (KMSSigner (new_kms AWSKMS keyId
             (if falsy region then ''us-east-1'' else the region))))
      else if provider = ''gcp'' then
        (if falsy projectId \<or> falsy locationId \<or> falsy keyRingId \<or> falsy keyVersionId then
           Inl (throw4 TTTSignerError SIGNER_KMS_GCP_MISSING_FIELDS ''[Signer] GCP KMS missing required fields''
             (''projectId='' @ show_opt projectId @ '', locationId='' @ show_opt locationId
              @ '', keyRingId='' @ show_opt keyRingId @ '', keyVersionId='' @ show_opt keyVersionId)
             ''Provide all required GCP KMS fields: projectId, locationId, keyRingId, keyVersionId.'')
         else case gcp_exn E of
           Some e \<Rightarrow> Inl (throw4 TTTSignerError SIGNER_KMS_GCP_INIT_FAILED ''[Signer] GCP KMS initialization failed''
             (exn_message e)
             ''Ensure @google-cloud/kms is installed and application default credentials are set.'')
         | None \<Rightarrow> Inr (KMSSigner (new_kms GCPKMS
             (cryptoKeyVersionPath E (the projectId) (the locationId) (the keyRingId) keyId (the keyVersionId))
             [])))
      else Inl (throw4 TTTSignerError SIGNER_KMS_UNSUPPORTED_PROVIDER ''[Signer] Unsupported KMS provider''
             (''Provider: '' @ provider) (''Use '' @ quote ''aws'' @ '' or '' @ quote ''gcp'' @ ''.'')))"

fun createSigner :: "signer_env \<Rightarrow> signer_config \<Rightarrow> js_exn + ttt_signer" where
  "createSigner E (PrivateKeyConfig key envVar) = createPrivateKey E key envVar"
| "createSigner E (TurnkeyConfig url org keyId pub priv) =
     (case turnkey_exn E of Some e \<Rightarrow> Inl e | None \<Rightarrow> Inr (TurnkeySignerWrapper url org keyId pub priv))"
| "createSigner E (PrivyConfig appId appSecret walletId) =
     Inl (throw4 TTTSignerError SIGNER_PRIVY_NOT_IMPLEMENTED
       (''[Signer] Privy signer is not yet implemented. Use '' @ quote ''privateKey'' @ '' or '' @ quote ''turnkey'' @ '' instead.'')
       ''Privy embedded wallet support is planned but not available in this release.''
       (''Use { type: '' @ quote ''privateKey'' @ '', key: '' @ quote ''0x...'' @ '' } or { type: '' @ quote ''turnkey''
        @ '', ... } as your signer config.''))"
| "createSigner E (KmsConfig provider keyId region projectId locationId keyRingId keyVersionId) =
     createKms E provider keyId region projectId locationId keyRingId keyVersionId"
| "createSigner E (OtherConfig t) =
     Inl (throw4 TTTSignerError SIGNER_UNSUPPORTED_TYPE ''[Signer] Unsupported signer type'' (''Type: '' @ t)
       ''Provide a supported signer type: privateKey, turnkey, privy, kms.'')"

section \<open>Signatures survive the encoding\<close>

text \<open>The DER form of an unsigned 256-bit integer: no leading zeros, but one before a high bit.\<close>

definition der_int :: "nat \<Rightarrow> bytes" where
  "der_int n =
     (let b = dropWhile (\<lambda>x. x = 0) (be_bytes 32 n)
      in if b = [] \<or> 128 \<le> unat (hd b) then 0 # b else b)"

definition der_signature :: "nat \<Rightarrow> nat \<Rightarrow> bytes" where
  "der_signature r s =
     0x30 # word_of_nat (4 + length (der_int r) + length (der_int s))
     # 2 # word_of_nat (length (der_int r)) # der_int r
     @ 2 # word_of_nat (length (der_int s)) # der_int s"

lemma length_der_int: "length (der_int n) \<le> 33"
  using length_dropWhile_le [of "\<lambda>x. x = 0" "be_bytes 32 n"] by (auto simp: der_int_def Let_def)

lemma unat_der_length: "unat (word_of_nat (length (der_int n)) :: byte) = length (der_int n)"
  using length_der_int [of n] by (intro unat_of_nat_byte) simp

lemma slice_pos_nat: "slice_pos n (int k) = min n k" "slice_pos n (int k + int m) = min n (k + m)"
  by (auto simp: slice_pos_def nat_add_distrib)

lemma js_slice_nat: "js_slice (int a) (int b) xs = subarray a b xs"
  by (simp add: js_slice_def slice_pos_nat subarray_def min_def)

lemma hex_encode_zeros: "hex_encode (replicate k 0) = replicate (2 * k) (CHR ''0'')"
proof -
  have "hex_digit 0 = CHR ''0''" by code_simp
  then show ?thesis by (induction k) simp_all
qed

lemma strip_zero_Cons: "strip_zero (x # b) = (if x = 0 then b else x # b)"
  using js_slice_nat [of 1 "length (x # b)" "x # b"] by (auto simp: strip_zero_def js_index_def subarray_def)

lemma strip_der_int: "strip_zero (der_int n) = dropWhile (\<lambda>x. x = 0) (be_bytes 32 n)"
proof -
  define b where "b = dropWhile (\<lambda>x. x = 0) (be_bytes 32 n)"
  have "b = [] \<or> hd b \<noteq> 0"
    unfolding b_def using hd_dropWhile [of "\<lambda>x. x = 0" "be_bytes 32 n"] by blast
  then show ?thesis
    unfolding der_int_def b_def [symmetric] Let_def by (cases b) (auto simp: strip_zero_Cons)
qed

lemma pad_der_int: "padStart 64 (CHR ''0'') (hex_encode (strip_zero (der_int n))) = hex_encode (be_bytes 32 n)"
proof -
  let ?z = "takeWhile (\<lambda>x. x = 0) (be_bytes 32 n)" and ?b = "dropWhile (\<lambda>x. x = 0) (be_bytes 32 n)"
  have z: "?z = replicate (length ?z) 0"
    by (metis (mono_tags) replicate_length_same set_takeWhileD)
  have len: "length ?z + length ?b = 32"
    by (metis length_append takeWhile_dropWhile_id length_be_bytes)
  then have "64 - length (hex_encode ?b) = 2 * length ?z" by simp
  then have "padStart 64 (CHR ''0'') (hex_encode ?b) = hex_encode (replicate (length ?z) 0 @ ?b)"
    by (simp add: padStart_def hex_encode_append hex_encode_zeros)
  also have "replicate (length ?z) 0 @ ?b = be_bytes 32 n"
    unfolding z [symmetric] by simp
  finally show ?thesis by (simp add: strip_der_int)
qed

lemma js_index_nat: "js_index xs (int k) = (if k < length xs then Some (xs ! k) else None)"
  by (simp add: js_index_def)

text \<open>
  Signatures survive the encoding.  The DER form of any two 256-bit integers, of every
  length and with or without the zero that DER puts before a high bit, is parsed back into
  the two numbers as 32-byte hexadecimal words.
\<close>

theorem der_signature_parsed:
  "parseDERSignature (der_signature r s) =
     Inr (''0x'' @ hex_encode (be_bytes 32 r), ''0x'' @ hex_encode (be_bytes 32 s))"
proof -
  let ?R = "der_int r" and ?S = "der_int s" and ?sig = "der_signature r s"
  let ?p = "4 + length ?R"
  have i: "js_index ?sig 0 = Some 0x30" "js_index ?sig 2 = Some 2" "js_index ?sig 3 = Some (word_of_nat (length ?R))"
    by (simp_all add: der_signature_def js_index_def)
  have p: "js_index ?sig (int ?p) = Some 2" "js_index ?sig (int (?p + 1)) = Some (word_of_nat (length ?S))"
    unfolding js_index_nat by (simp_all add: der_signature_def nth_append)
  have r: "js_slice 4 (4 + int (length ?R)) ?sig = ?R"
    using js_slice_nat [of 4 "4 + length ?R" ?sig] by (simp add: der_signature_def subarray_def)
  have s: "js_slice (int (?p + 2)) (int (?p + 2 + length ?S)) ?sig = ?S"
    unfolding js_slice_nat der_signature_def subarray_def
    using drop_append [of "6 + length ?R" "[0x30, word_of_nat (4 + length ?R + length ?S), 2, word_of_nat (length ?R)] @ ?R @ [2, word_of_nat (length ?S)]" ?S]
    by simp
  show ?thesis
    using p s unfolding parseDERSignature_def i
    by (simp add: unat_der_length r pad_der_int add.assoc)
qed

section \<open>Public keys\<close>

lemma js_slice_in:
  assumes "0 \<le> a" and "a \<le> int (length xs)"
  shows "\<exists>suf. drop (nat a) xs = js_slice a b xs @ suf"
  using assms by (auto simp: js_slice_def slice_pos_def subarray_def min_def nat_le_iff intro: append_take_drop_id [symmetric])

text \<open>
  C37. What is taken for a public key is one.  If the decoder accepts a buffer, of any shape and
  length, the result has the 65 bytes of an uncompressed point, starts with 4, and stands in
  the buffer right after the byte that counts the unused bits, which is 0.
\<close>

theorem der_key_sound:
  assumes "extractPublicKeyFromDER der = Inr k"
  shows "length k = 65 \<and> hd k = 4 \<and> (\<exists>pre suf. der = pre @ 0 # k @ suf)"
proof -
  obtain p l where p: "js_index der p = Some 0" and k: "k = js_slice (p + 1) (p + 1 + l - 1) der"
    and l: "length k = 65" "js_index k 0 = Some 4"
    using assms unfolding extractPublicKeyFromDER_def Let_def by (auto simp: result_simps split: prod.splits)
  have b: "0 \<le> p" "p < int (length der)" and z: "der ! nat p = 0"
    using p by (auto simp: js_index_def split: if_splits)
  obtain suf where "drop (nat (p + 1)) der = k @ suf"
    using js_slice_in [of "p + 1" der "p + 1 + l - 1"] b unfolding k by auto
  then have "der = take (nat p) der @ 0 # k @ suf"
    using b z id_take_nth_drop [of "nat p" der] by (simp add: nat_add_distrib)
  moreover have "hd k = 4" using l by (cases k) (auto simp: js_index_def)
  ultimately show ?thesis using l(1) by blast
qed

text \<open>A SubjectPublicKeyInfo: the algorithm identifier, then the point.\<close>

definition spki :: "bytes \<Rightarrow> bytes \<Rightarrow> bytes" where
  "spki alg key = 0x30 # word_of_nat (70 + length alg) # 0x30 # word_of_nat (length alg) # alg @ 3 # 66 # 0 # key"

lemma readLength_short:
  "js_index der p = Some b \<Longrightarrow> unat b < 128 \<Longrightarrow> readLength der p = Inr (int (unat b), p + 1)"
  by (simp add: readLength_def js_index_def split: if_splits)

lemma spki_accepted:
  assumes "length alg < 58" and "length key = 65" and "hd key = 4"
  shows "extractPublicKeyFromDER (spki alg key) = Inr key"
proof -
  let ?d = "spki alg key" and ?n = "length alg"
  have len: "int (length ?d) = int ?n + 72" by (simp add: spki_def assms(2))
  have a: "unat (word_of_nat (70 + ?n) :: byte) = 70 + ?n" "unat (word_of_nat ?n :: byte) = ?n"
    using assms(1) by (simp_all only: unat_of_nat_byte)
  have head: "js_index ?d 0 = Some 0x30" "js_index ?d 1 = Some (word_of_nat (70 + ?n))" "js_index ?d 2 = Some 0x30"
      "js_index ?d 3 = Some (word_of_nat ?n)"
    by (simp_all add: spki_def js_index_def)
  have tail: "js_index ?d (4 + int ?n) = Some 3" "js_index ?d (5 + int ?n) = Some 66" "js_index ?d (6 + int ?n) = Some 0"
    using js_index_nat [of ?d "4 + ?n"] js_index_nat [of ?d "5 + ?n"] js_index_nat [of ?d "6 + ?n"]
    by (simp_all add: spki_def nth_append)
  have slice: "js_slice (7 + int ?n) (72 + int ?n) ?d = key"
    using js_slice_nat [of "7 + ?n" "72 + ?n" ?d] assms(2)
      drop_append [of "7 + ?n" "[0x30, word_of_nat (70 + ?n), 0x30, word_of_nat ?n] @ alg @ [3, 66, 0]" key]
    by (simp add: spki_def subarray_def)
  have t0: "readTag ?d 0 = Inr (Some 0x30, 1)" and t2: "readTag ?d 2 = Inr (Some 0x30, 3)"
    and t4: "readTag ?d (4 + int ?n) = Inr (Some 3, 5 + int ?n)"
    using head tail by (simp_all add: readTag_def len)
  have l1: "readLength ?d 1 = Inr (int (70 + ?n), 2)" and l3: "readLength ?d 3 = Inr (int ?n, 4)"
    using readLength_short [OF head(2), unfolded a] readLength_short [OF head(4), unfolded a] assms(1) by simp_all
  have l5: "readLength ?d (5 + int ?n) = Inr (66, 6 + int ?n)"
    using readLength_short [OF tail(2)] by simp
  have k0: "js_index key 0 = Some 4" using assms(2,3) by (cases key) (simp_all add: js_index_def)
  show ?thesis
    unfolding extractPublicKeyFromDER_def Let_def
    using k0 by (simp add: t0 t2 t4 l1 l3 l5 tail(3) slice assms(2) expect_tag_def)
qed

lemma der_key_sound_witness:
  "\<exists>pre suf. spki [6, 7] (4 # replicate 64 9) = pre @ 0 # (4 # replicate 64 9) @ suf"
  using der_key_sound [OF spki_accepted [of "[6, 7]" "4 # replicate 64 9"]] by simp

text \<open>A four-byte length with the high bit set is negative, and is not refused.\<close>

lemma negative_length_accepted:
  "extractPublicKeyFromDER ([0x30, 0, 0x30, 0, 3, 0x84, 0xff, 0xff, 0xff, 0xe5, 0, 4] @ replicate 64 9 @ replicate 17 1)
     = Inr (4 # replicate 64 9)"
  by code_simp

section \<open>Signing\<close>

lemma try_v_Some:
  "try_v E digest r s addr vs = Inr (Some text) \<Longrightarrow>
   \<exists>v \<in> set vs. \<exists>sig a. sig_from E r s v = Inr sig \<and> recoverAddress E digest sig = Inr a \<and>
      toLowerCase a = toLowerCase addr \<and> text = sig_serialized E sig"
  by (induction vs) (auto simp: result_simps split: if_splits)

lemma kms_address_kept:
  "kms_getAddress K E s = (Inr a, s') \<Longrightarrow> a \<noteq> [] \<Longrightarrow> kms_getAddress K' E' s' = (Inr a, s')"
  by (auto simp: kms_getAddress_def split: sum.splits if_splits)

text \<open>
  C14. A KMS signature speaks for the signer's address.  If signing a digest returns, then what is
  returned is the signature the service made over exactly that digest under the signer's
  key, completed with a recovery bit for which recovering the digest's signer gives the
  address of the signer, up to the case of its letters; and that address is kept, so later
  calls need no second request for the key.
\<close>

theorem kms_signature_recovers:
  assumes "signDigest K E digest s0 = (Inr text, s1)"
  shows "\<exists>der r s v sig a addr.
     kv_sign K (ks_keyId s0) (hex_decode (drop 2 digest)) = Inr der \<and> parseDERSignature der = Inr (r, s) \<and>
     v \<in> {27, 28} \<and> sig_from E r s v = Inr sig \<and> text = sig_serialized E sig \<and>
     recoverAddress E digest sig = Inr a \<and> toLowerCase a = toLowerCase addr \<and>
     kms_getAddress K E s0 = (Inr addr, s1) \<and>
     (addr = [] \<or> kms_getAddress K' E' s1 = (Inr addr, s1))"
proof -
  obtain der r s where d: "kv_sign K (ks_keyId s0) (hex_decode (drop 2 digest)) = Inr der"
      "parseDERSignature der = Inr (r, s)"
    using assms unfolding signDigest_def
    by (cases "bindr (kv_sign K (ks_keyId s0) (hex_decode (drop 2 digest))) parseDERSignature")
       (auto simp: result_simps)
  then have eq: "signDigest K E digest s0 = (case kms_getAddress K E s0 of
             (Inl e, s1) \<Rightarrow> (Inl e, s1)
           | (Inr addr, s1) \<Rightarrow>
               (case try_v E digest r s addr [27, 28] of
                  Inl e \<Rightarrow> (Inl e, s1)
                | Inr (Some text) \<Rightarrow> (Inr text, s1)
                | Inr None \<Rightarrow>
                    (Inl (JsError (''Failed to recover recovery param V for '' @ kms_name (ks_kind s0) @ '' KMS signature'')), s1)))"
    by (simp add: signDigest_def)
  obtain addr where a: "kms_getAddress K E s0 = (Inr addr, s1)"
    and t: "try_v E digest r s addr [27, 28] = Inr (Some text)"
    using assms unfolding eq by (auto split: prod.splits sum.splits option.splits simp del: try_v.simps)
  from try_v_Some [OF t] show ?thesis
    using d a kms_address_kept [OF a] by (metis list.set(1,2))
qed

definition toy_kms :: kms_service where
  "toy_kms = \<lparr>kv_der = (\<lambda>k. Inr (spki [6, 7] (4 # replicate 64 9))), kv_pem = (\<lambda>k. Inr []),
     kv_sign = (\<lambda>k d. Inr [0x30, 6, 2, 1, 5, 2, 1, 7])\<rparr>"

definition toy_ecdsa :: "(string \<times> string \<times> nat) ecdsa_lib" where
  "toy_ecdsa = \<lparr>computeAddress = (\<lambda>p. Inr ''0xAB''), sig_from = (\<lambda>r s v. Inr (r, s, v)),
     recoverAddress = (\<lambda>d (r, s, v). Inr (if v = 28 then ''0xab'' else ''0xcd'')),
     sig_serialized = (\<lambda>(r, s, v). drop 65 r @ drop 65 s)\<rparr>"

lemma toy_kms_signs:
  "signDigest toy_kms toy_ecdsa ''0x1234'' (new_kms AWSKMS ''k'' ''r'')
     = (Inr ''57'', (new_kms AWSKMS ''k'' ''r'')\<lparr>ks_address := Some ''0xAB''\<rparr>)"
  by code_simp

lemma kms_signature_recovers_witness:
  "\<exists>v sig a addr. v \<in> {27, 28} \<and> recoverAddress toy_ecdsa ''0x1234'' sig = Inr a \<and>
     toLowerCase a = toLowerCase addr \<and> sig_serialized toy_ecdsa sig = ''57'' \<and>
     (addr = [] \<or> kms_getAddress toy_kms toy_ecdsa ((new_kms AWSKMS ''k'' ''r'')\<lparr>ks_address := Some ''0xAB''\<rparr>)
        = (Inr addr, (new_kms AWSKMS ''k'' ''r'')\<lparr>ks_address := Some ''0xAB''\<rparr>)) \<and> (v = (27 :: nat) \<or> v = 28)"
  using kms_signature_recovers [OF toy_kms_signs, of toy_kms toy_ecdsa] by fastforce

end
