(* ===== verification/SwapTypes.thy ===== *)
theory SwapTypes
  imports Prelude
begin

text \<open>
  The data of a Uniswap V4 swap (\<open>src/types.ts\<close>), as the hook client and the scripts exchange
  it.
\<close>

record pool_key =
  currency0 :: string
  currency1 :: string
  pk_fee :: int
  tickSpacing :: int
  pk_hooks :: string

record swap_params =
  zeroForOne :: bool
  amountSpecified :: int
  sqrtPriceLimitX96 :: int

record before_swap_params =
  bs_sender :: string
  bs_key :: pool_key
  bs_params :: swap_params
  bs_hookData :: string

record swap_delta =
  amount0 :: int
  amount1 :: int

record after_swap_params =
  as_sender :: string
  as_key :: pool_key
  as_params :: swap_params
  as_delta :: swap_delta
  as_hookData :: string

end
