(* ===== verification/V4Hook.thy ===== *)
theory V4Hook
  imports EvmConnector SwapTypes
begin

text \<open>
  The SDK side of the swap hook (\<open>src/v4_hook.ts\<close>): a balance check before a swap, a burn
  after it, and its statistics.  The hook shares the connector of \<open>EvmConnector\<close>, whose state
  each call sees as it is then.  The balance contract the hook makes for itself is
  its token address and the provider it was made with.
\<close>

section \<open>State\<close>

record v4_hook =
  hookAddress :: string
  tttTokenAddress :: string
  minTTTBalance :: int
  swapFeeTTT :: int
  hk_contract :: "(string \<times> string) option"
  feeCollector :: bool
  totalSwaps :: int
  totalFeesCollected :: int
  lastSwapTimestamp :: int
  failedBurns :: int

definition UniswapV4Hook :: "string \<Rightarrow> string \<Rightarrow> int option \<Rightarrow> int option \<Rightarrow> bool \<Rightarrow> v4_hook" where
  "UniswapV4Hook hook token minBalance fee collector =
     \<lparr>hookAddress = hook, tttTokenAddress = token,
      minTTTBalance = (case minBalance of None \<Rightarrow> 1000000000000000000 | Some b \<Rightarrow> b),
      swapFeeTTT = (case fee of None \<Rightarrow> 100000000000000000 | Some f \<Rightarrow> f),
      hk_contract = None, feeCollector = collector,
      totalSwaps = 0, totalFeesCollected = 0, lastSwapTimestamp = 0, failedBurns = 0\<rparr>"

section \<open>Before a swap\<close>

text \<open>
  \<open>balance_of contract sender\<close> is the call on the contract, \<open>contract_exn\<close> what its
  constructor throws, \<open>formatEther\<close> the text of an amount.
\<close>

record hook_env =
  contract_exn :: "string \<Rightarrow> js_exn option"
  balance_of :: "string \<times> string \<Rightarrow> string \<Rightarrow> js_exn + int"
  formatEther :: "int \<Rightarrow> string"

fun evm_exn :: "evm_error \<Rightarrow> js_exn" where
  "evm_exn (TTTErr e) = TTTExn e"
| "evm_exn (RpcErr r) = JsError (case er_message r of Some m \<Rightarrow> m | None \<Rightarrow> er_text r)"

definition insufficient :: "hook_env \<Rightarrow> string \<Rightarrow> int \<Rightarrow> int \<Rightarrow> js_exn" where
  "insufficient E sender required actual =
     JsError (''[UniswapV4Hook] Insufficient TTT balance for '' @ sender @ ''. Required: ''
       @ formatEther E required @ '', Actual: '' @ formatEther E actual)"

definition balance_failure :: "js_exn \<Rightarrow> js_exn" where
  "balance_failure e =
     (if js_includes ''Insufficient TTT balance'' (exn_message e) then e
      else JsError (''[UniswapV4Hook] Failed to check TTT balance: '' @ exn_message e))"

definition hook_contract :: "hook_env \<Rightarrow> string \<Rightarrow> v4_hook \<Rightarrow> js_exn + v4_hook" where
  "hook_contract E prov h =
     (case hk_contract h of
        Some c \<Rightarrow> Inr h
      | None \<Rightarrow>
          (case contract_exn E (tttTokenAddress h) of
             Some e \<Rightarrow> Inl e
           | None \<Rightarrow> Inr (h\<lparr>hk_contract := Some (tttTokenAddress h, prov)\<rparr>)))"

definition beforeSwap :: "hook_env \<Rightarrow> evm \<Rightarrow> before_swap_params \<Rightarrow> v4_hook \<Rightarrow> js_exn option \<times> v4_hook" where
  "beforeSwap E connector params h =
     (case getProvider connector of
        Inl e \<Rightarrow> (Some (evm_exn e), h)
      | Inr prov \<Rightarrow>
          (case hook_contract E prov h of
             Inl e \<Rightarrow> (Some e, h)
           | Inr h1 \<Rightarrow>
               (case bindr (balance_of E (the (hk_contract h1)) (bs_sender params))
                       (\<lambda>b. check (insufficient E (bs_sender params) (minTTTBalance h1) b) (minTTTBalance h1 \<le> b)) of
                  Inl e \<Rightarrow> (Some (balance_failure e), h1)
                | Inr _ \<Rightarrow> (None, h1\<lparr>totalFeesCollected := totalFeesCollected h1 + swapFeeTTT h1\<rparr>))))"

section \<open>After a swap\<close>

text \<open>
  The result is the call of the collector, if there is one: what it answers is only logged.
\<close>

record fee_calculation =
  feeAmount :: int
  fee_tier :: string

definition collect_call ::
    "after_swap_params \<Rightarrow> fee_calculation option \<Rightarrow> string option \<Rightarrow> int option \<Rightarrow> int option \<Rightarrow> v4_hook
     \<Rightarrow> (fee_calculation \<times> string \<times> string \<times> int \<times> int) option" where
  "collect_call params calc signature nonce deadline h =
     (if feeCollector h then
        (case (calc, signature, nonce, deadline) of
           (Some fee, Some sig, Some n, Some d) \<Rightarrow> (if sig = [] then None else Some (fee, sig, as_sender params, n, d))
         | _ \<Rightarrow> None)
      else None)"

definition afterSwap ::
    "tx_env \<Rightarrow> evm \<Rightarrow> after_swap_params \<Rightarrow> fee_calculation option \<Rightarrow> string option \<Rightarrow> int option \<Rightarrow> int option \<Rightarrow> int
     \<Rightarrow> v4_hook \<Rightarrow> (fee_calculation \<times> string \<times> string \<times> int \<times> int) option \<times> v4_hook" where
  "afterSwap tx connector params calc signature nonce deadline nowMs h =
     (let (collected, h1) =
            (case burnTTT tx connector of
               Inr receipt \<Rightarrow> (collect_call params calc signature nonce deadline h, h)
             | Inl e \<Rightarrow> (None, h\<lparr>failedBurns := failedBurns h + 1\<rparr>))
      in (collected, h1\<lparr>totalSwaps := totalSwaps h1 + 1, lastSwapTimestamp := nowMs div 1000\<rparr>))"

definition getHookAddress :: "v4_hook \<Rightarrow> string" where
  "getHookAddress h = hookAddress h"

record hook_stats =
  hs_totalSwaps :: int
  hs_totalFeesCollected :: string
  hs_lastSwapTimestamp :: int
  hs_failedBurns :: int

definition getStats :: "hook_env \<Rightarrow> v4_hook \<Rightarrow> hook_stats" where
  "getStats E h =
     \<lparr>hs_totalSwaps = totalSwaps h, hs_totalFeesCollected = formatEther E (totalFeesCollected h),
      hs_lastSwapTimestamp = lastSwapTimestamp h, hs_failedBurns = failedBurns h\<rparr>"

section \<open>Runs\<close>

text \<open>The connector may change between the calls, so each call brings its state.\<close>

datatype hook_op =
    OpBefore hook_env evm before_swap_params
  | OpAfter tx_env evm after_swap_params "fee_calculation option" "string option" "int option" "int option" int

fun hook_step :: "hook_op \<Rightarrow> v4_hook \<Rightarrow> v4_hook" where
  "hook_step (OpBefore E c ps) h = snd (beforeSwap E c ps h)"
| "hook_step (OpAfter tx c ps calc sig n d t) h = snd (afterSwap tx c ps calc sig n d t h)"

fun burn_fails :: "hook_op \<Rightarrow> bool" where
  "burn_fails (OpAfter tx c ps calc sig n d t) = (case burnTTT tx c of Inl _ \<Rightarrow> True | Inr _ \<Rightarrow> False)"
| "burn_fails _ = False"

fun is_after :: "hook_op \<Rightarrow> bool" where
  "is_after (OpAfter tx c ps calc sig n d t) = True"
| "is_after _ = False"

text \<open>The calls of \<open>beforeSwap\<close> that return, along a run.\<close>

fun passed :: "hook_op list \<Rightarrow> v4_hook \<Rightarrow> nat" where
  "passed [] h = 0"
| "passed (OpBefore E c ps # ops) h =
     (if fst (beforeSwap E c ps h) = None then 1 else 0) + passed ops (snd (beforeSwap E c ps h))"
| "passed (op # ops) h = passed ops (hook_step op h)"

lemma before_fields:
  "totalSwaps (snd (beforeSwap E c ps h)) = totalSwaps h"
  "failedBurns (snd (beforeSwap E c ps h)) = failedBurns h"
  "swapFeeTTT (snd (beforeSwap E c ps h)) = swapFeeTTT h"
  "totalFeesCollected (snd (beforeSwap E c ps h)) =
     totalFeesCollected h + (if fst (beforeSwap E c ps h) = None then swapFeeTTT h else 0)"
  by (auto simp: beforeSwap_def hook_contract_def split: sum.splits option.splits)

lemma after_fields:
  "totalSwaps (snd (afterSwap tx c ps calc sig n d t h)) = totalSwaps h + 1"
  "failedBurns (snd (afterSwap tx c ps calc sig n d t h)) =
     failedBurns h + (case burnTTT tx c of Inl _ \<Rightarrow> 1 | Inr _ \<Rightarrow> 0)"
  "swapFeeTTT (snd (afterSwap tx c ps calc sig n d t h)) = swapFeeTTT h"
  "totalFeesCollected (snd (afterSwap tx c ps calc sig n d t h)) = totalFeesCollected h"
  "hk_contract (snd (afterSwap tx c ps calc sig n d t h)) = hk_contract h"
  by (auto simp: afterSwap_def Let_def split: sum.splits)

lemma hook_run_stats:
  "totalSwaps (fold hook_step ops h) = totalSwaps h + int (length (filter is_after ops)) \<and>
   failedBurns (fold hook_step ops h) = failedBurns h + int (length (filter burn_fails ops)) \<and>
   totalFeesCollected (fold hook_step ops h) = totalFeesCollected h + int (passed ops h) * swapFeeTTT h"
proof (induction ops h rule: passed.induct)
  case (2 E c ps ops h)
  then show ?case by (simp add: before_fields algebra_simps)
next
  case (3 tx c ps calc sig n d t ops h)
  then show ?case by (simp add: after_fields split: sum.splits)
qed simp

text \<open>
  The statistics of the hook.  After any sequence of calls, whatever the connector did in
  between, the swaps counted are the calls of \<open>afterSwap\<close>, failed burns included; the failed
  burns are those whose burn failed; and the fees counted are one fee for each passed
  balance check, so they include fees that were never burned.
\<close>

theorem hook_accounting:
  "totalSwaps (fold hook_step ops (UniswapV4Hook a t m f c)) = int (length (filter is_after ops)) \<and>
   failedBurns (fold hook_step ops (UniswapV4Hook a t m f c)) = int (length (filter burn_fails ops)) \<and>
   totalFeesCollected (fold hook_step ops (UniswapV4Hook a t m f c)) =
     int (passed ops (UniswapV4Hook a t m f c)) * swapFeeTTT (UniswapV4Hook a t m f c)"
  using hook_run_stats [of ops "UniswapV4Hook a t m f c"] by (simp add: UniswapV4Hook_def)

lemma hook_contract_pinned:
  "hk_contract h = Some c \<Longrightarrow> hk_contract (fold hook_step ops h) = Some c"
proof (induction ops arbitrary: h)
  case (Cons op ops)
  have "hk_contract (hook_step op h) = Some c"
    using Cons.prems
    by (cases op) (auto simp: after_fields beforeSwap_def hook_contract_def split: sum.splits)
  then show ?case using Cons.IH by simp
qed simp

text \<open>
  A reconnection does not reach the hook.  Once a balance check went through, every later one
  asks the provider of that time, although the connector has dropped it and is connected to
  another one.
\<close>

theorem hook_keeps_old_provider:
  assumes "hk_contract h = None" and "fst (beforeSwap E c ps h) = None" and "getProvider c' = Inr q"
  shows "\<exists>p. provider c = Some p \<and>
    (\<forall>b. balance_of E' (tttTokenAddress h, p) (bs_sender ps') = b \<longrightarrow>
       fst (beforeSwap E' c' ps' (fold hook_step ops (snd (beforeSwap E c ps h)))) =
       (case b of Inl e \<Rightarrow> Some (balance_failure e)
        | Inr n \<Rightarrow> if minTTTBalance (fold hook_step ops (snd (beforeSwap E c ps h))) \<le> n then None
                   else Some (balance_failure (insufficient E' (bs_sender ps')
                          (minTTTBalance (fold hook_step ops (snd (beforeSwap E c ps h)))) n))))"
proof -
  obtain p where p: "provider c = Some p"
    using assms(2) by (auto simp: beforeSwap_def getProvider_def need_def split: option.splits)
  then have "hk_contract (snd (beforeSwap E c ps h)) = Some (tttTokenAddress h, p)"
    using assms(1,2) by (auto simp: beforeSwap_def getProvider_def hook_contract_def split: sum.splits option.splits)
  from hook_contract_pinned [OF this, of ops]
  have "hk_contract (fold hook_step ops (snd (beforeSwap E c ps h))) = Some (tttTokenAddress h, p)" .
  then show ?thesis
    using p assms(3) by (auto simp: beforeSwap_def hook_contract_def check_def split: sum.splits)
qed

definition sample_hook_env :: hook_env where
  "sample_hook_env = \<lparr>contract_exn = (\<lambda>a. None),
     balance_of = (\<lambda>c who. if snd c = ''http://a'' then Inr 2000000000000000000 else Inr 0), formatEther = show_int\<rparr>"

definition sample_swap :: before_swap_params where
  "sample_swap = \<lparr>bs_sender = ''x'', bs_key = \<lparr>currency0 = ''a'', currency1 = ''b'', pk_fee = 3000, tickSpacing = 60, pk_hooks = []\<rparr>,
     bs_params = \<lparr>zeroForOne = True, amountSpecified = -1, sqrtPriceLimitX96 = 0\<rparr>, bs_hookData = []\<rparr>"

definition connected_to :: "string \<Rightarrow> evm" where
  "connected_to url = (EVMConnector None None)\<lparr>provider := Some url, connected := True\<rparr>"

lemma hook_keeps_old_provider_witness:
  "fst (beforeSwap sample_hook_env (connected_to ''http://b'') sample_swap
     (snd (beforeSwap sample_hook_env (connected_to ''http://a'') sample_swap (UniswapV4Hook [] ''0xT'' None None False)))) = None"
proof -
  let ?h = "UniswapV4Hook [] ''0xT'' None None False"
  have h: "hk_contract ?h = None" "tttTokenAddress ?h = ''0xT''" "minTTTBalance ?h = 1000000000000000000"
    by (simp_all add: UniswapV4Hook_def)
  have "fst (beforeSwap sample_hook_env (connected_to ''http://a'') sample_swap ?h) = None"
    by (simp add: beforeSwap_def getProvider_def connected_to_def hook_contract_def h sample_hook_env_def)
  moreover have "getProvider (connected_to ''http://b'') = Inr ''http://b''"
    by (simp add: getProvider_def connected_to_def)
  moreover have "minTTTBalance (snd (beforeSwap sample_hook_env (connected_to ''http://a'') sample_swap ?h)) = 1000000000000000000"
    by (simp add: beforeSwap_def getProvider_def connected_to_def hook_contract_def h sample_hook_env_def)
  ultimately show ?thesis
    using hook_keeps_old_provider [OF h(1), of sample_hook_env "connected_to ''http://a''" sample_swap
        "connected_to ''http://b''" "''http://b''" sample_hook_env sample_swap "[]"]
    by (auto simp: connected_to_def sample_hook_env_def h)
qed

end
