(* ===== verification/TrustStore.thy ===== *)
theory TrustStore
  imports JsMap Errors
begin

text \<open>
  The registry of trusted time sources (\<open>src/trust_store.ts\<close>) and the network presets
  (\<open>src/networks.ts\<close>).
\<close>

section \<open>The store\<close>

record trusted_source =
  tsrc_name :: string
  tsrc_endpoint :: string
  tsrc_stratum :: rat
  tsrc_region :: string
  tsrc_active :: bool
  tsrc_addedAt :: int

record trust_store_config =
  tc_sources :: "trusted_source list"
  tc_minSources :: int
  tc_maxStratumDrift :: int

record trust_store =
  tst_sources :: "(string, trusted_source) jsmap"
  tst_minSources :: int
  tst_maxStratumDrift :: int

definition TTTTrustStore :: "trust_store_config \<Rightarrow> trust_store" where
  "TTTTrustStore config =
     \<lparr>tst_sources = fold (\<lambda>s m. jm_set (tsrc_name s) s m) (tc_sources config) [],
      tst_minSources = tc_minSources config, tst_maxStratumDrift = tc_maxStratumDrift config\<rparr>"

definition getSources :: "trust_store \<Rightarrow> trusted_source list" where
  "getSources t = map snd (tst_sources t)"

definition addSource :: "int \<Rightarrow> trusted_source \<Rightarrow> trust_store \<Rightarrow> js_exn option \<times> trust_store" where
  "addSource now s t =
     (if tsrc_name s = [] \<or> tsrc_endpoint s = [] \<or> tsrc_stratum s < 1 \<or> 15 < tsrc_stratum s then
        (Some (JsError (''Invalid source configuration: '' @ tsrc_name s)), t)
      else (None, t\<lparr>tst_sources := jm_set (tsrc_name s) (s\<lparr>tsrc_addedAt := now\<rparr>) (tst_sources t)\<rparr>))"

definition removeSource :: "string \<Rightarrow> trust_store \<Rightarrow> bool \<times> trust_store" where
  "removeSource name t = (jm_has name (tst_sources t), t\<lparr>tst_sources := jm_delete name (tst_sources t)\<rparr>)"

record quorum =
  q_valid :: bool
  q_activeSources :: nat
  q_required :: int

definition validateSourceQuorum :: "trust_store \<Rightarrow> quorum" where
  "validateSourceQuorum t =
     (let activeSources = length (filter tsrc_active (getSources t))
      in \<lparr>q_valid = (tst_minSources t \<le> int activeSources), q_activeSources = activeSources,
          q_required = tst_minSources t\<rparr>)"

definition getSourcesByRegion :: "string \<Rightarrow> trust_store \<Rightarrow> trusted_source list" where
  "getSourcesByRegion region t = filter (\<lambda>s. tsrc_region s = region) (getSources t)"

definition DEFAULT_TRUST_STORE :: trust_store_config where
  "DEFAULT_TRUST_STORE =
     \<lparr>tc_sources =
        [\<lparr>tsrc_name = ''NIST'', tsrc_endpoint = ''time.nist.gov'', tsrc_stratum = 1, tsrc_region = ''US'',
          tsrc_active = True, tsrc_addedAt = 1710412800000\<rparr>,
         \<lparr>tsrc_name = ''Apple'', tsrc_endpoint = ''time.apple.com'', tsrc_stratum = 1, tsrc_region = ''US'',
          tsrc_active = True, tsrc_addedAt = 1710412800000\<rparr>,
         \<lparr>tsrc_name = ''Google'', tsrc_endpoint = ''time.google.com'', tsrc_stratum = 1, tsrc_region = ''Global'',
          tsrc_active = True, tsrc_addedAt = 1710412800000\<rparr>],
      tc_minSources = 2, tc_maxStratumDrift = 1\<rparr>"

section \<open>Network presets\<close>

record network_config =
  chainId :: int
  rpcUrl :: string
  tttAddress :: string
  protocolFeeAddress :: string
  usdcAddress :: string

definition BASE_MAINNET :: network_config where
  "BASE_MAINNET = \<lparr>chainId = 8453, rpcUrl = ''https://mainnet.base.org'',
     tttAddress = ''0x0000000000000000000000000000000000000000'',
     protocolFeeAddress = ''0x0000000000000000000000000000000000000000'',
     usdcAddress = ''0x833589fCD6eDb6E08f4c7C32D4f71b54bdA02913''\<rparr>"

definition ETH_SEPOLIA :: network_config where
  "ETH_SEPOLIA = \<lparr>chainId = 11155111, rpcUrl = ''https://ethereum-sepolia-rpc.publicnode.com'',
     tttAddress = ''0x291b83F605F2dA95cf843d4a53983B413ef3B929'',
     protocolFeeAddress = ''0x6b39D96741BB4Ce6283F824CC31c2931c75AEe64'',
     usdcAddress = ''0x1c7D4B196Cb0C7B01d743Fbc6116a902379C7238''\<rparr>"

definition BASE_SEPOLIA :: network_config where
  "BASE_SEPOLIA = \<lparr>chainId = 84532, rpcUrl = ''https://sepolia.base.org'',
     tttAddress = ''0xde357135cA493e59680182CDE9E1c6A4dA400811'',
     protocolFeeAddress = ''0xE289337d3a79b22753BDA03510a8b8E4D1040F21'',
     usdcAddress = ''0x036CbD53842c5426634e7929541eC2318f3dCF7e''\<rparr>"

definition NETWORKS :: "(string, network_config) jsmap" where
  "NETWORKS = [(''base'', BASE_MAINNET), (''sepolia'', ETH_SEPOLIA), (''baseSepolia'', BASE_SEPOLIA)]"

lemma networks_distinct: "distinct (map fst NETWORKS)" "distinct (map (chainId \<circ> snd) NETWORKS)"
  by (simp_all add: NETWORKS_def BASE_MAINNET_def ETH_SEPOLIA_def BASE_SEPOLIA_def)

section \<open>The store as a function\<close>

text \<open>
  The abstract registry: for each name, the source that is trusted under it.  The store
  implements it, with one entry per name whose key is the source's own name.
\<close>

datatype trust_op = AddOp int trusted_source | RemoveOp string

fun trust_step :: "trust_op \<Rightarrow> trust_store \<Rightarrow> trust_store" where
  "trust_step (AddOp now s) t = snd (addSource now s t)"
| "trust_step (RemoveOp n) t = snd (removeSource n t)"

definition admissible :: "trusted_source \<Rightarrow> bool" where
  "admissible s \<longleftrightarrow> tsrc_name s \<noteq> [] \<and> tsrc_endpoint s \<noteq> [] \<and> 1 \<le> tsrc_stratum s \<and> tsrc_stratum s \<le> 15"

type_synonym trust_spec = "string \<Rightarrow> trusted_source option"

fun spec_step :: "trust_op \<Rightarrow> trust_spec \<Rightarrow> trust_spec" where
  "spec_step (AddOp now s) f = (if admissible s then f(tsrc_name s \<mapsto> s\<lparr>tsrc_addedAt := now\<rparr>) else f)"
| "spec_step (RemoveOp n) f = f(n := None)"

definition trust_abs :: "trust_store \<Rightarrow> trust_spec" where
  "trust_abs t = (\<lambda>n. jm_get n (tst_sources t))"

definition spec_init :: "trusted_source list \<Rightarrow> trust_spec" where
  "spec_init ss = fold (\<lambda>s f. f(tsrc_name s \<mapsto> s)) ss (\<lambda>n. None)"

definition named_ok :: "(string, trusted_source) jsmap \<Rightarrow> bool" where
  "named_ok m \<longleftrightarrow> jm_ok m \<and> (\<forall>(n, s) \<in> set m. tsrc_name s = n)"

definition trust_ok :: "trust_store \<Rightarrow> bool" where
  "trust_ok t \<longleftrightarrow> named_ok (tst_sources t)"

lemma named_ok_set: "named_ok m \<Longrightarrow> named_ok (jm_set (tsrc_name s) s m)"
  by (simp add: named_ok_def) (auto simp: jm_set_def split: if_splits)

interpretation names: kept "\<lambda>s m. jm_set (tsrc_name s) s m" named_ok
  by unfold_locales (rule named_ok_set)

lemma named_ok_delete: "named_ok m \<Longrightarrow> named_ok (jm_delete n m)"
  by (simp add: named_ok_def) (auto simp: jm_delete_def)

lemma trust_ok_init: "trust_ok (TTTTrustStore cfg)"
proof -
  have "named_ok []" by (simp add: named_ok_def)
  then show ?thesis by (simp add: trust_ok_def TTTTrustStore_def names.run)
qed

lemma trust_ok_step: "trust_ok t \<Longrightarrow> trust_ok (trust_step op t)"
proof (cases op)
  case (AddOp now s)
  then show "trust_ok t \<Longrightarrow> ?thesis"
    using named_ok_set [of "tst_sources t" "s\<lparr>tsrc_addedAt := now\<rparr>"] by (simp add: trust_ok_def addSource_def)
next
  case (RemoveOp n)
  then show "trust_ok t \<Longrightarrow> ?thesis" by (simp add: trust_ok_def removeSource_def named_ok_delete)
qed

interpretation init: refines "\<lambda>s m. jm_set (tsrc_name s) s m" named_ok "\<lambda>m n. jm_get n m" "\<lambda>s f. f(tsrc_name s \<mapsto> s)"
  by unfold_locales (simp add: fun_upd_def)

lemma trust_abs_init: "trust_abs (TTTTrustStore cfg) = spec_init (tc_sources cfg)"
  using init.abs_run [of "[]" "tc_sources cfg"]
  by (simp add: trust_abs_def TTTTrustStore_def spec_init_def named_ok_def)

lemma trust_abs_step: "trust_abs (trust_step op t) = spec_step op (trust_abs t)"
  by (cases op)
     (auto simp: trust_abs_def addSource_def removeSource_def admissible_def fun_upd_def fun_eq_iff)

interpretation trust: refines trust_step trust_ok trust_abs spec_step
  by unfold_locales (rule trust_ok_step, assumption, rule trust_abs_step)

lemma trust_abs_iff: "trust_ok t \<Longrightarrow> trust_abs t n = Some s \<longleftrightarrow> (n, s) \<in> set (tst_sources t)"
  by (simp add: trust_abs_def trust_ok_def named_ok_def jm_ok_def jm_get_def)

lemma sources_ran: "trust_ok t \<Longrightarrow> set (getSources t) = ran (trust_abs t)"
  by (force simp: getSources_def trust_abs_iff ran_def)

lemma active_card:
  assumes "trust_ok t"
  shows "q_activeSources (validateSourceQuorum t) = card {n. \<exists>s. trust_abs t n = Some s \<and> tsrc_active s}"
proof -
  let ?m = "filter (\<lambda>e. tsrc_active (snd e)) (tst_sources t)"
  have d: "distinct (map fst (tst_sources t))" using assms by (simp add: trust_ok_def named_ok_def jm_ok_def)
  have "{n. \<exists>s. trust_abs t n = Some s \<and> tsrc_active s} = set (map fst ?m)"
    by (force simp: trust_abs_iff [OF assms])
  moreover have "card (set (map fst ?m)) = length ?m"
    using d by (metis distinct_card distinct_map_filter length_map)
  ultimately show ?thesis
    by (simp add: validateSourceQuorum_def getSources_def filter_map comp_def Let_def)
qed

text \<open>
  C23. The store implements the registry.  After any sequence of additions and removals on any
  configuration, the store looks up, lists, filters by region and counts for the quorum
  exactly what the registry as a function from names to sources holds; an addition is
  refused exactly when the source is not admissible, and a removal says whether the name was
  there.
\<close>

theorem trust_store_refines:
  fixes cfg ops
  defines "t \<equiv> fold trust_step ops (TTTTrustStore cfg)"
    and "f \<equiv> fold spec_step ops (spec_init (tc_sources cfg))"
  shows "trust_abs t = f \<and> set (getSources t) = ran f \<and>
         set (getSourcesByRegion region t) = {s \<in> ran f. tsrc_region s = region} \<and>
         q_activeSources (validateSourceQuorum t) = card {n. \<exists>s. f n = Some s \<and> tsrc_active s} \<and>
         (fst (addSource now s t) = None \<longleftrightarrow> admissible s) \<and>
         (fst (removeSource name t) \<longleftrightarrow> f name \<noteq> None)"
proof -
  have ok: "trust_ok t" and abs: "trust_abs t = f"
    unfolding t_def f_def using trust.run_from [OF trust_ok_init trust_abs_init] by blast+
  moreover have "fst (removeSource name t) \<longleftrightarrow> f name \<noteq> None"
    unfolding abs [symmetric] by (simp add: removeSource_def trust_abs_def jm_has_get)
  moreover have "fst (addSource now s t) = None \<longleftrightarrow> admissible s"
    by (auto simp: addSource_def admissible_def)
  ultimately show ?thesis
    using sources_ran [OF ok] active_card [OF ok] by (auto simp: getSourcesByRegion_def)
qed

text \<open>The configuration is not held to the rules for an addition.\<close>

lemma constructor_unchecked:
  "q_valid (validateSourceQuorum (TTTTrustStore
     \<lparr>tc_sources = [\<lparr>tsrc_name = [], tsrc_endpoint = [], tsrc_stratum = 99, tsrc_region = [],
                     tsrc_active = True, tsrc_addedAt = 0\<rparr>], tc_minSources = 1, tc_maxStratumDrift = 0\<rparr>))"
  by (simp add: validateSourceQuorum_def getSources_def TTTTrustStore_def jm_set_def jm_has_def)

end
