(* ===== verification/Logging.thy ===== *)
theory Logging
  imports Prelude
begin

text \<open>
  The logger (\<open>src/logger.ts\<close>): one level and one handler for the whole program, one instance
  with the namespace of the first request.  A handler is known by a name; what it was given
  is the list of calls, with the console methods of the default handler written out.
\<close>

datatype log_level = DEBUG | INFO | WARN | ERROR | SILENT

fun level_number :: "log_level \<Rightarrow> nat" where
  "level_number DEBUG = 0"
| "level_number INFO = 1"
| "level_number WARN = 2"
| "level_number ERROR = 3"
| "level_number SILENT = 4"

text \<open>The levels are compared by their numbers.\<close>

instantiation log_level :: linorder
begin

definition less_eq_log_level :: "log_level \<Rightarrow> log_level \<Rightarrow> bool" where
  "less_eq_log_level a b \<longleftrightarrow> level_number a \<le> level_number b"

definition less_log_level :: "log_level \<Rightarrow> log_level \<Rightarrow> bool" where
  "less_log_level a b \<longleftrightarrow> level_number a < level_number b"

instance
proof
  fix a b c :: log_level
  show "a \<le> b \<Longrightarrow> b \<le> a \<Longrightarrow> a = b"
    unfolding less_eq_log_level_def by (cases a; cases b) simp_all
qed (auto simp: less_eq_log_level_def less_log_level_def)

end

fun LOG_LEVEL_NAMES :: "log_level \<Rightarrow> string" where
  "LOG_LEVEL_NAMES DEBUG = ''DEBUG''"
| "LOG_LEVEL_NAMES INFO = ''INFO''"
| "LOG_LEVEL_NAMES WARN = ''WARN''"
| "LOG_LEVEL_NAMES ERROR = ''ERROR''"
| "LOG_LEVEL_NAMES SILENT = ''SILENT''"

datatype log_handler = DefaultHandler | CustomHandler string

datatype log_call =
    ConsoleDebug string | ConsoleLog string | ConsoleWarn string | ConsoleError string
  | HandlerCall string log_level string

record logger =
  lg_instance :: "string option"
  currentLevel :: log_level
  currentHandler :: log_handler
  lg_calls :: "log_call list"

definition Logger :: logger where
  "Logger = \<lparr>lg_instance = None, currentLevel = INFO, currentHandler = DefaultHandler, lg_calls = []\<rparr>"

fun defaultHandler :: "log_level \<Rightarrow> string \<Rightarrow> log_call list" where
  "defaultHandler DEBUG m = [ConsoleDebug m]"
| "defaultHandler INFO m = [ConsoleLog m]"
| "defaultHandler WARN m = [ConsoleWarn m]"
| "defaultHandler ERROR m = [ConsoleError m]"
| "defaultHandler SILENT m = []"

definition getInstance :: "string option \<Rightarrow> logger \<Rightarrow> string \<times> logger" where
  "getInstance ns L =
     (case lg_instance L of
        Some n \<Rightarrow> (n, L)
      | None \<Rightarrow> let n = (case ns of None \<Rightarrow> ''TTT-SDK'' | Some x \<Rightarrow> x) in (n, L\<lparr>lg_instance := Some n\<rparr>))"

definition configure :: "log_level option \<Rightarrow> log_handler option \<Rightarrow> logger \<Rightarrow> logger" where
  "configure level handler L =
     (let L1 = (case level of None \<Rightarrow> L | Some l \<Rightarrow> L\<lparr>currentLevel := l\<rparr>)
      in case handler of None \<Rightarrow> L1 | Some h \<Rightarrow> L1\<lparr>currentHandler := h\<rparr>)"

definition silent :: "logger \<Rightarrow> logger" where
  "silent L = L\<lparr>currentLevel := SILENT\<rparr>"

definition formatMessage :: "string \<Rightarrow> string \<Rightarrow> log_level \<Rightarrow> string \<Rightarrow> string" where
  "formatMessage timestamp ns level m =
     ''['' @ timestamp @ ''] ['' @ LOG_LEVEL_NAMES level @ ''] ['' @ ns @ ''] '' @ m"

definition emit :: "string \<Rightarrow> string \<Rightarrow> log_level \<Rightarrow> string \<Rightarrow> logger \<Rightarrow> logger" where
  "emit timestamp ns level m L =
     (if level < currentLevel L then L
      else
        let formatted = formatMessage timestamp ns level m
        in L\<lparr>lg_calls := lg_calls L @ (case currentHandler L of
                DefaultHandler \<Rightarrow> defaultHandler level formatted
              | CustomHandler h \<Rightarrow> [HandlerCall h level formatted])\<rparr>)"

definition log_info :: "string \<Rightarrow> string \<Rightarrow> string \<Rightarrow> logger \<Rightarrow> logger" where
  "log_info ts ns m = emit ts ns INFO m"

definition log_warn :: "string \<Rightarrow> string \<Rightarrow> string \<Rightarrow> logger \<Rightarrow> logger" where
  "log_warn ts ns m = emit ts ns WARN m"

definition log_debug :: "string \<Rightarrow> string \<Rightarrow> string \<Rightarrow> logger \<Rightarrow> logger" where
  "log_debug ts ns m = emit ts ns DEBUG m"

text \<open>The error argument is its message and, where there is one, its stack.\<close>

definition log_error :: "string \<Rightarrow> string \<Rightarrow> string \<Rightarrow> (string \<times> string option) option \<Rightarrow> logger \<Rightarrow> logger" where
  "log_error ts ns m err =
     emit ts ns ERROR (m @ (case err of None \<Rightarrow> []
       | Some (em, stack) \<Rightarrow> '' | Error: '' @ em @
           (case stack of None \<Rightarrow> [] | Some st \<Rightarrow> if st = [] then [] else char_of (10 :: nat) # ''Stack: '' @ st)))"

text \<open>The namespace is settled by the first request, and a silent logger calls nobody.\<close>

lemma namespace_kept: "fst (getInstance b (snd (getInstance a L))) = fst (getInstance a L)"
  by (simp add: getInstance_def Let_def split: option.splits)

lemma silent_calls: "level \<noteq> SILENT \<Longrightarrow> emit ts ns level m (silent L) = silent L"
  by (cases level) (simp_all add: emit_def silent_def less_log_level_def)

text \<open>A message reaches the handler exactly from the configured level on, and only once.\<close>

lemma emit_calls:
  "level \<noteq> SILENT \<Longrightarrow> length (lg_calls (emit ts ns level m L)) =
     length (lg_calls L) + (if currentLevel L \<le> level then 1 else 0)"
  by (cases level) (simp_all add: emit_def Let_def not_le [symmetric] split: log_handler.splits)

text \<open>Lowering the level never loses a message.\<close>

lemma emit_configured:
  assumes "level \<noteq> SILENT" "a \<le> b"
  shows "length (lg_calls (emit ts ns level m (configure (Some b) None L))) \<le>
         length (lg_calls (emit ts ns level m (configure (Some a) None L)))"
  using assms by (auto simp: emit_calls configure_def Let_def)

text \<open>
  The module asks for the instance itself when it is loaded, so the namespace is always the
  default one: a later request for another is answered with it.
\<close>

definition logger_module :: "string \<times> logger" where
  "logger_module = getInstance None Logger"

lemma namespace_fixed: "fst (getInstance ns (snd logger_module)) = ''TTT-SDK''"
  unfolding logger_module_def by (subst namespace_kept) (simp add: getInstance_def Logger_def Let_def)

end
