(* ===== verification/Fetching.thy ===== *)
theory Fetching
  imports Json
begin

text \<open>
  \<open>fetch\<close> as the clients see it: a request that is sent, and either a response, whose body
  may fail to parse, or a rejection (a network error, or the abort of a timer).
\<close>

record http_request =
  rq_url :: string
  rq_method :: string
  rq_headers :: "(string \<times> string) list"
  rq_body :: "json option"

record http_response =
  rs_status :: int
  rs_statusText :: string
  rs_json :: "js_exn + json"

datatype fetch_outcome = Fetched http_response | FetchRejected js_exn

definition resp_ok :: "http_response \<Rightarrow> bool" where
  "resp_ok r \<longleftrightarrow> 200 \<le> rs_status r \<and> rs_status r \<le> 299"

text \<open>A property chain on a parsed body; reading a property of \<open>undefined\<close> is a \<open>TypeError\<close>.\<close>

definition js_get :: "string \<Rightarrow> json option \<Rightarrow> js_exn + json option" where
  "js_get k v =
     (case v of
        None \<Rightarrow> Inl (TypeError (''Cannot read properties of undefined (reading '' @ k @ '')''))
      | Some j \<Rightarrow> js_prop k j)"

text \<open>The receiver of \<open>map\<close>, which has to be an array.\<close>

definition js_array :: "json option \<Rightarrow> js_exn + json list" where
  "js_array v =
     (case v of
        None \<Rightarrow> Inl (TypeError ''Cannot read properties of undefined (reading map)'')
      | Some (JArr xs) \<Rightarrow> Inr xs
      | Some JNull \<Rightarrow> Inl (TypeError ''Cannot read properties of null (reading map)'')
      | Some _ \<Rightarrow> Inl (TypeError ''map is not a function''))"

lemma map_result_Inr: "map_result f xs = Inr ys \<longleftrightarrow> list_all2 (\<lambda>x y. f x = Inr y) xs ys"
proof (induction xs arbitrary: ys)
  case (Cons x xs)
  then show ?case by (cases ys) (auto simp: result_simps)
qed auto

end
