(* ===== verification/IntegrityClient.thy ===== *)
theory IntegrityClient
  imports Fetching
begin

text \<open>
  The client of the integrity service (\<open>src/integrity_client.ts\<close>).  Each operation is the
  request it sends and what it makes of the outcome; the timer that aborts the request is
  cleared on every path, and its abort is one of the rejections.
\<close>

record integrity_client =
  ic_baseUrl :: string
  ic_timeoutMs :: int
  ic_apiKey :: "string option"

text \<open>\<open>replace(/\/$/, "")\<close> removes one slash at the end.\<close>

definition strip_slash :: "string \<Rightarrow> string" where
  "strip_slash s = (if s \<noteq> [] \<and> last s = CHR ''/'' then butlast s else s)"

definition IntegrityClient ::
    "string option \<Rightarrow> string option \<Rightarrow> int option \<Rightarrow> string option \<Rightarrow> integrity_client" where
  "IntegrityClient envKey baseUrl timeoutMs apiKey =
     \<lparr>ic_baseUrl = strip_slash (case baseUrl of None \<Rightarrow> ''https://integrity.helmprotocol.com/api/v1'' | Some u \<Rightarrow> u),
      ic_timeoutMs = (case timeoutMs of None \<Rightarrow> 5000 | Some t \<Rightarrow> t),
      ic_apiKey = (case apiKey of Some k \<Rightarrow> Some k | None \<Rightarrow> envKey)\<rparr>"

definition post_headers :: "integrity_client \<Rightarrow> (string \<times> string) list" where
  "post_headers c =
     (''Content-Type'', ''application/json'')
     # (case ic_apiKey c of None \<Rightarrow> [] | Some k \<Rightarrow> if k = [] then [] else [(''X-Integrity-Key'', k)])"

definition encode_request :: "bytes \<Rightarrow> int \<Rightarrow> string \<Rightarrow> integrity_client \<Rightarrow> http_request" where
  "encode_request data chainId poolAddress c =
     \<lparr>rq_url = ic_baseUrl c @ ''/encode'', rq_method = ''POST'', rq_headers = post_headers c,
      rq_body = Some (JObj [(''data'', JStr (hex_encode data)), (''chainId'', JNum (of_int chainId)),
                            (''poolAddress'', JStr poolAddress)])\<rparr>"

definition verify_request :: "bytes \<Rightarrow> bytes list \<Rightarrow> int \<Rightarrow> string \<Rightarrow> integrity_client \<Rightarrow> http_request" where
  "verify_request data originalShards chainId poolAddress c =
     \<lparr>rq_url = ic_baseUrl c @ ''/verify'', rq_method = ''POST'', rq_headers = post_headers c,
      rq_body = Some (JObj [(''data'', JStr (hex_encode data)),
                            (''shards'', JArr (map (\<lambda>s. JStr (hex_encode s)) originalShards)),
                            (''chainId'', JNum (of_int chainId)), (''poolAddress'', JStr poolAddress)])\<rparr>"

definition health_request :: "integrity_client \<Rightarrow> http_request" where
  "health_request c = \<lparr>rq_url = ic_baseUrl c @ ''/health'', rq_method = ''GET'', rq_headers = [], rq_body = None\<rparr>"

text \<open>The body of a good response; an error status is thrown with its text.\<close>

definition integrity_body :: "fetch_outcome \<Rightarrow> js_exn + json" where
  "integrity_body out =
     (case out of
        FetchRejected e \<Rightarrow> Inl e
      | Fetched r \<Rightarrow>
          (if \<not> resp_ok r then
             Inl (JsError (''Integrity API error: '' @ show_int (rs_status r) @ '' '' @ rs_statusText r))
           else rs_json r))"

text \<open>
  \<open>Buffer.from(hex, "hex")\<close> of a string; other values are type errors (it would also take an
  array of numbers).
\<close>

definition shard_bytes :: "json \<Rightarrow> js_exn + bytes" where
  "shard_bytes v = (case v of JStr h \<Rightarrow> Inr (hex_decode h) | _ \<Rightarrow> Inl (TypeError ''The first argument must be of type string''))"

definition encode_shards :: "(http_request \<Rightarrow> fetch_outcome) \<Rightarrow> bytes \<Rightarrow> int \<Rightarrow> string \<Rightarrow> integrity_client \<Rightarrow> js_exn + bytes list" where
  "encode_shards fetch data chainId poolAddress c =
     bindr (integrity_body (fetch (encode_request data chainId poolAddress c))) (\<lambda>result.
     bindr (js_prop ''shards'' result) (\<lambda>v. bindr (js_array v) (\<lambda>xs. map_result shard_bytes xs)))"

text \<open>Whatever the property \<open>valid\<close> is, it is returned.\<close>

definition verify_shards ::
    "(http_request \<Rightarrow> fetch_outcome) \<Rightarrow> bytes \<Rightarrow> bytes list \<Rightarrow> int \<Rightarrow> string \<Rightarrow> integrity_client \<Rightarrow> js_exn + json option" where
  "verify_shards fetch data originalShards chainId poolAddress c =
     bindr (integrity_body (fetch (verify_request data originalShards chainId poolAddress c))) (js_prop ''valid'')"

definition isReachable :: "(http_request \<Rightarrow> fetch_outcome) \<Rightarrow> integrity_client \<Rightarrow> bool" where
  "isReachable fetch c =
     (case fetch (health_request c) of FetchRejected e \<Rightarrow> False | Fetched r \<Rightarrow> resp_ok r)"

text \<open>The default client is made at the first request for it, unless one was set.\<close>

definition getDefaultIntegrityClient ::
    "string option \<Rightarrow> integrity_client option \<Rightarrow> integrity_client \<times> integrity_client option" where
  "getDefaultIntegrityClient envKey d =
     (case d of Some c \<Rightarrow> (c, d)
      | None \<Rightarrow> let c = IntegrityClient envKey None None None in (c, Some c))"

definition setDefaultIntegrityClient :: "integrity_client \<Rightarrow> integrity_client option \<Rightarrow> integrity_client option" where
  "setDefaultIntegrityClient c d = Some c"

lemma default_client_stable:
  "getDefaultIntegrityClient e' (snd (getDefaultIntegrityClient e d)) = getDefaultIntegrityClient e d"
  by (simp add: getDefaultIntegrityClient_def Let_def split: option.splits)

section \<open>Against a service\<close>

text \<open>
  A service computes shards of the data and compares; \<open>serve\<close> answers the requests as the
  interface describes, with hexadecimal text.
\<close>

definition hex_list :: "json \<Rightarrow> string list" where
  "hex_list v = (case v of JArr xs \<Rightarrow> map (\<lambda>x. case x of JStr h \<Rightarrow> h | _ \<Rightarrow> []) xs | _ \<Rightarrow> [])"

definition body_field :: "string \<Rightarrow> http_request \<Rightarrow> json" where
  "body_field k q = (case rq_body q of Some (JObj fs) \<Rightarrow> (case jm_get k fs of Some v \<Rightarrow> v | None \<Rightarrow> JNull) | _ \<Rightarrow> JNull)"

definition text_field :: "string \<Rightarrow> http_request \<Rightarrow> string" where
  "text_field k q = (case body_field k q of JStr s \<Rightarrow> s | _ \<Rightarrow> [])"

definition ok_json :: "json \<Rightarrow> fetch_outcome" where
  "ok_json v = Fetched \<lparr>rs_status = 200, rs_statusText = ''OK'', rs_json = Inr v\<rparr>"

definition serve :: "(bytes \<Rightarrow> json \<Rightarrow> string \<Rightarrow> bytes list) \<Rightarrow> http_request \<Rightarrow> fetch_outcome" where
  "serve shards q =
     (let data = hex_decode (text_field ''data'' q);
          expected = shards data (body_field ''chainId'' q) (text_field ''poolAddress'' q)
      in if drop (length (rq_url q) - 7) (rq_url q) = ''/encode'' then
           ok_json (JObj [(''shards'', JArr (map (\<lambda>s. JStr (hex_encode s)) expected))])
         else ok_json (JObj [(''valid'', JBool (hex_list (body_field ''shards'' q) = map hex_encode expected))]))"

lemma drop_suffix: "length u = n \<Longrightarrow> drop (length (xs @ u) - n) (xs @ u) = u"
  by simp

lemma serve_encode:
  "encode_shards (serve shards) data chainId pool c = Inr (shards data (JNum (of_int chainId)) pool)"
proof -
  have s: "map_result shard_bytes (map (\<lambda>s. JStr (hex_encode s)) bs) = Inr bs" for bs
    by (induction bs) (simp_all add: shard_bytes_def)
  have u: "drop (length (ic_baseUrl c @ ''/encode'') - 7) (ic_baseUrl c @ ''/encode'') = ''/encode''"
    by (rule drop_suffix) simp
  show ?thesis
    unfolding encode_shards_def integrity_body_def serve_def encode_request_def
    using u by (simp add: ok_json_def resp_ok_def js_array_def text_field_def body_field_def jm_get_def s)
qed

text \<open>
  Client and service agree.  Against a service that answers as described, with any sharding
  of data, chain and pool, \<open>encode\<close> returns the service's shards byte for byte, and
  \<open>verify\<close> answers true exactly when the shards passed to it are those of the data.
\<close>

theorem integrity_client_agrees:
  "encode_shards (serve shards) data chainId pool c = Inr (shards data (JNum (of_int chainId)) pool) \<and>
   verify_shards (serve shards) data given chainId pool c =
     Inr (Some (JBool (given = shards data (JNum (of_int chainId)) pool)))"
proof -
  have h: "map hex_encode as = map hex_encode bs \<longleftrightarrow> as = bs" for as bs
    using inj_map_eq_map [of hex_encode as bs] by (simp add: inj_def)
  have u: "drop (length (ic_baseUrl c @ ''/verify'') - 7) (ic_baseUrl c @ ''/verify'') = ''/verify''"
    by (rule drop_suffix) simp
  have "verify_shards (serve shards) data given chainId pool c =
     Inr (Some (JBool (given = shards data (JNum (of_int chainId)) pool)))"
    unfolding verify_shards_def integrity_body_def serve_def verify_request_def
    using u by (simp add: ok_json_def resp_ok_def text_field_def body_field_def jm_get_def hex_list_def comp_def h)
  then show ?thesis using serve_encode by blast
qed

end
