(* ===== verification/X402.thy ===== *)
theory X402
  imports HttpClient
begin

text \<open>
  The x402 facilitator (\<open>mcp/packages/x402-pot/src/index.ts\<close>): it attaches the proof of an
  HTTP client to a payment object, with the large numbers as decimal text, and verifies it
  after rebuilding the client's structure.
\<close>

section \<open>Payments\<close>

record x402_payment =
  xp_scheme :: string
  xp_network :: string
  xp_maxAmountRequired :: string
  xp_resource :: string

record x402_pot =
  xt_timestamp :: string
  xt_expiresAt :: string
  xt_hmac :: string
  xt_nonce :: string
  xt_confidence :: rat
  xt_sources :: int
  xt_sourceNames :: "string list"

text \<open>A payment with \<open>extra.pot\<close>, which may be missing in what is received.\<close>

record x402_pot_payment = x402_payment +
  xp_pot :: "x402_pot option"

text \<open>The facilitator's only state is its client.\<close>

definition X402PotFacilitator :: "string option \<Rightarrow> nat option \<Rightarrow> rat option \<Rightarrow> int option \<Rightarrow> http_client" where
  "X402PotFacilitator secret timeout expiry tolerance = HttpOnlyClient secret timeout expiry tolerance"

definition attach_pot :: "x402_payment \<Rightarrow> http_pot \<Rightarrow> x402_pot_payment" where
  "attach_pot p pot =
     \<lparr>xp_scheme = xp_scheme p, xp_network = xp_network p, xp_maxAmountRequired = xp_maxAmountRequired p,
      xp_resource = xp_resource p,
      xp_pot = Some \<lparr>xt_timestamp = show_int (hp_timestamp pot), xt_expiresAt = show_int (hp_expiresAt pot),
                     xt_hmac = hp_hmac pot, xt_nonce = hp_nonce pot, xt_confidence = hp_confidence pot,
                     xt_sources = hp_sources pot, xt_sourceNames = map sr_source (hp_sourceReadings pot)\<rparr>\<rparr>"

definition createPaymentWithPoT ::
    "(string \<Rightarrow> string \<Rightarrow> bytes) \<Rightarrow> time_reading settle list \<Rightarrow> bytes \<Rightarrow> int \<Rightarrow> http_client \<Rightarrow> x402_payment
     \<Rightarrow> js_exn + x402_pot_payment" where
  "createPaymentWithPoT hmac results rand now c p =
     bindr (generatePoT hmac results rand now c) (\<lambda>pot. Inr (attach_pot p pot))"

text \<open>Every rebuilt reading carries the synthesised time.\<close>

definition rebuild_pot :: "int \<Rightarrow> int \<Rightarrow> x402_pot \<Rightarrow> http_pot" where
  "rebuild_pot timestamp expires p =
     \<lparr>hp_timestamp = timestamp, hp_confidence = xt_confidence p, hp_stratum = 2, hp_sources = xt_sources p,
      hp_sourceReadings = map (\<lambda>name. \<lparr>sr_source = name, sr_timestamp = timestamp, sr_uncertainty = 500,
                                        sr_stratum = Some 2\<rparr>) (xt_sourceNames p),
      hp_nonce = xt_nonce p, hp_expiresAt = expires, hp_hmac = xt_hmac p\<rparr>"

definition verifyPaymentPoT ::
    "(string \<Rightarrow> string \<Rightarrow> bytes) \<Rightarrow> int \<Rightarrow> int \<Rightarrow> x402_pot_payment \<Rightarrow> http_client
     \<Rightarrow> (js_exn + http_verify_result) \<times> http_client" where
  "verifyPaymentPoT hmac t_exp t_now payment c =
     (case xp_pot payment of
        None \<Rightarrow> (Inr \<lparr>hv_valid = False, hv_reason = Some ''No PoT found in payment.extra.pot''\<rparr>, c)
      | Some p \<Rightarrow>
          (case (js_BigInt (Some (JStr (xt_timestamp p))), js_BigInt (Some (JStr (xt_expiresAt p)))) of
             (Inr timestamp, Inr expires) \<Rightarrow> verifyPoT hmac t_exp t_now (rebuild_pot timestamp expires p) c
           | _ \<Rightarrow> (Inr \<lparr>hv_valid = False,
                        hv_reason = Some ''Invalid bigint fields in PoT (timestamp or expiresAt)''\<rparr>, c)))"

section \<open>What a verified payment means\<close>

lemma rebuilt_no_divergence:
  "(\<forall>r \<in> set (hp_sourceReadings (rebuild_pot t e p)). \<bar>sr_timestamp r - hp_timestamp (rebuild_pot t e p)\<bar> \<le> tol)
     \<longleftrightarrow> xt_sourceNames p = [] \<or> 0 \<le> tol"
  by (cases "xt_sourceNames p") (auto simp: rebuild_pot_def)

text \<open>
  A created payment verifies, and so does every other payment its proof is moved to.  What
  \<open>createPaymentWithPoT\<close> attaches is accepted, before the expiry and once, by every
  facilitator with the same secret and a tolerance that is not negative, whatever scheme, network,
  amount and resource the payment then names, and however far apart the readings of the
  sources were.
\<close>

theorem x402_created_verifies:
  assumes "createPaymentWithPoT hmac results rand now c p = Inr payment"
    and "hmacSecret c' = hmacSecret c"
    and "\<not> jm_has (hex_encode rand) (hc_usedNonces c')"
    and "\<exists>e. js_BigInt (Some (JNum (expirySeconds c * 1000))) = Inr e \<and> t_exp \<le> now + e"
  shows "accepts (verifyPaymentPoT hmac t_exp t_now
           (payment\<lparr>xp_scheme := s, xp_network := n, xp_maxAmountRequired := a, xp_resource := r\<rparr>) c')
         \<longleftrightarrow> 0 \<le> toleranceNs c'"
proof -
  obtain pot where g: "generatePoT hmac results rand now c = Inr pot" and pay: "payment = attach_pot p pot"
    using assms(1) by (auto simp: createPaymentWithPoT_def bindr_Inr)
  note gi = generatePoT_Inr [OF g]
  have ne: "hp_sourceReadings pot \<noteq> []"
  proof -
    have "length (sort_key tr_timestamp (fulfilled_values results)) \<noteq> 0" using gi by simp
    then have "sort_key tr_timestamp (fulfilled_values results) \<noteq> []" by fastforce
    then show ?thesis using gi by simp
  qed
  have e: "t_exp \<le> hp_expiresAt pot" and nonce: "hp_nonce pot = hex_encode rand"
    using g assms(4) by (auto simp: generatePoT_def Let_def bindr_Inr split: if_splits prod.splits)
  define q where "q = the (xp_pot payment)"
  define y where "y = rebuild_pot (hp_timestamp pot) (hp_expiresAt pot) q"
  have q: "xp_pot payment = Some q" "xt_sourceNames q \<noteq> []"
    using ne by (simp_all add: q_def pay attach_pot_def)
  have y: "hp_timestamp y = hp_timestamp pot" "hp_nonce y = hp_nonce pot" "hp_expiresAt y = hp_expiresAt pot"
     "hp_sources y = hp_sources pot" "hp_hmac y = hp_hmac pot"
    by (simp_all add: y_def rebuild_pot_def q_def pay attach_pot_def)
  have "verifyPaymentPoT hmac t_exp t_now
           (payment\<lparr>xp_scheme := s, xp_network := n, xp_maxAmountRequired := a, xp_resource := r\<rparr>) c'
        = verifyPoT hmac t_exp t_now y c'"
    using q by (simp add: verifyPaymentPoT_def y_def q_def pay attach_pot_def)
  moreover have "fst (nonce_cache_step MAX_NONCE_CACHE NONCE_TTL_MS t_now (hp_nonce pot) (hc_usedNonces c'))"
    using assms(3) nonce by (simp add: nonce_step_fresh)
  moreover have "hp_hmac pot = computeHmac hmac (hp_timestamp pot) (hp_nonce pot) (hp_expiresAt pot) (hp_sources pot) (hmacSecret c)"
    using gi by blast
  ultimately show ?thesis
    using e assms(2) y q(2) rebuilt_no_divergence [of "hp_timestamp pot" "hp_expiresAt pot" q "toleranceNs c'", folded y_def]
    by (simp add: computeHmac_def verify_accepts_iff)
qed

lemma x402_created_verifies_witness:
  "\<exists>payment. createPaymentWithPoT toy_hmac
       [Fulfilled (sample_reading ''nist'' 1000), Fulfilled (sample_reading ''google'' 900000000000)]
       (replicate 16 1) 77 sample_client \<lparr>xp_scheme = ''exact'', xp_network = ''base'',
         xp_maxAmountRequired = ''1'', xp_resource = ''/a''\<rparr> = Inr payment \<and>
     accepts (verifyPaymentPoT toy_hmac 100 100
       (payment\<lparr>xp_scheme := ''exact'', xp_network := ''base'', xp_maxAmountRequired := ''1000000'', xp_resource := ''/b''\<rparr>)
       sample_client)"
proof -
  obtain payment where p: "createPaymentWithPoT toy_hmac
       [Fulfilled (sample_reading ''nist'' 1000), Fulfilled (sample_reading ''google'' 900000000000)]
       (replicate 16 1) 77 sample_client \<lparr>xp_scheme = ''exact'', xp_network = ''base'',
         xp_maxAmountRequired = ''1'', xp_resource = ''/a''\<rparr> = Inr payment"
    by (simp add: createPaymentWithPoT_def generatePoT_def Let_def case_prod_beta)
  show ?thesis
    by (rule exI [of _ payment], rule conjI [OF p], subst x402_created_verifies [OF p refl])
       (simp_all add: jm_has_def)
qed

end
