(* ===== verification/Subgraph.thy ===== *)
theory Subgraph
  imports JsMap Bytes
begin

text \<open>
  The subgraph's event handlers (\<open>subgraph/src/mapping.ts\<close>): two kinds of events fill four
  tables, each a map from ids to entities.  Hashes are bytes, \<open>toHex\<close> is \<open>0x\<close> and their
  digits; \<open>bd_div\<close> is the division of the host's decimals.
\<close>

section \<open>Entities\<close>

record pot_anchored =
  ea_txHash :: bytes
  ea_logIndex :: int
  ea_blockNumber :: int
  ea_stratum :: int
  ea_grgHash :: bytes
  ea_potHash :: bytes
  ea_timestamp :: int

record swap_verified =
  es_txHash :: bytes
  es_logIndex :: int
  es_blockNumber :: int
  es_blockTimestamp :: int
  es_hook :: bytes
  es_pool :: bytes
  es_sender :: bytes
  es_mode :: string
  es_feeAmount :: int
  es_potHash :: bytes

record pot_anchor =
  pa_stratum :: int
  pa_grgHash :: bytes
  pa_potHash :: bytes
  pa_timestamp :: int
  pa_blockNumber :: int
  pa_txHash :: bytes

record swap_verification =
  sv_hook :: bytes
  sv_pool :: bytes
  sv_sender :: bytes
  sv_mode :: string
  sv_feeAmount :: int
  sv_timestamp :: int
  sv_blockNumber :: int
  sv_txHash :: bytes
  sv_potAnchor :: "string option"

record daily_stats =
  ds_date :: string
  ds_totalSwaps :: int
  ds_turboCount :: int
  ds_fullCount :: int
  ds_turboRatio :: rat
  ds_totalFees :: int

record hourly_stats =
  hh_hour :: string
  hh_totalSwaps :: int
  hh_turboCount :: int
  hh_fullCount :: int

record graph_store =
  gs_anchors :: "(string, pot_anchor) jsmap"
  gs_swaps :: "(string, swap_verification) jsmap"
  gs_daily :: "(string, daily_stats) jsmap"
  gs_hourly :: "(string, hourly_stats) jsmap"

definition empty_store :: graph_store where
  "empty_store = \<lparr>gs_anchors = [], gs_swaps = [], gs_daily = [], gs_hourly = []\<rparr>"

definition event_id :: "bytes \<Rightarrow> int \<Rightarrow> string" where
  "event_id txHash logIndex = (''0x'' @ hex_encode txHash) @ ''-'' @ show_int logIndex"

section \<open>Handlers\<close>

definition handlePoTAnchored :: "pot_anchored \<Rightarrow> graph_store \<Rightarrow> graph_store" where
  "handlePoTAnchored e g =
     g\<lparr>gs_anchors := jm_set (event_id (ea_txHash e) (ea_logIndex e))
        \<lparr>pa_stratum = ea_stratum e, pa_grgHash = ea_grgHash e, pa_potHash = ea_potHash e,
         pa_timestamp = ea_timestamp e, pa_blockNumber = ea_blockNumber e, pa_txHash = ea_txHash e\<rparr> (gs_anchors g)\<rparr>"

text \<open>The start of the period of the given length a timestamp lies in, as an id.\<close>

definition period_id :: "int \<Rightarrow> int \<Rightarrow> string" where
  "period_id seconds t = show_int (tdiv t seconds * seconds)"

lemma period_id_start:
  assumes "0 < seconds" and "0 \<le> t"
  shows "\<exists>start. period_id seconds t = show_int start \<and> seconds dvd start \<and> start \<le> t \<and> t < start + seconds"
proof (intro exI conjI)
  show "period_id seconds t = show_int (t div seconds * seconds)"
    using assms by (simp add: period_id_def tdiv_nonneg)
  have "t = t div seconds * seconds + t mod seconds" "0 \<le> t mod seconds" "t mod seconds < seconds"
    using assms(1) by simp_all
  then show "t div seconds * seconds \<le> t" "t < t div seconds * seconds + seconds" by linarith+
qed simp

definition new_daily :: "string \<Rightarrow> daily_stats" where
  "new_daily i = \<lparr>ds_date = i, ds_totalSwaps = 0, ds_turboCount = 0, ds_fullCount = 0, ds_turboRatio = 0,
                  ds_totalFees = 0\<rparr>"

definition new_hourly :: "string \<Rightarrow> hourly_stats" where
  "new_hourly i = \<lparr>hh_hour = i, hh_totalSwaps = 0, hh_turboCount = 0, hh_fullCount = 0\<rparr>"

definition update_daily :: "(int \<Rightarrow> int \<Rightarrow> rat) \<Rightarrow> swap_verified \<Rightarrow> daily_stats \<Rightarrow> daily_stats" where
  "update_daily bd_div e d =
     (let d1 = d\<lparr>ds_totalSwaps := ds_totalSwaps d + 1, ds_totalFees := ds_totalFees d + es_feeAmount e\<rparr>;
          d2 = (if es_mode e = ''turbo'' then d1\<lparr>ds_turboCount := ds_turboCount d1 + 1\<rparr>
                else d1\<lparr>ds_fullCount := ds_fullCount d1 + 1\<rparr>)
      in if ds_totalSwaps d2 > 0 then d2\<lparr>ds_turboRatio := bd_div (ds_turboCount d2) (ds_totalSwaps d2)\<rparr> else d2)"

definition update_hourly :: "swap_verified \<Rightarrow> hourly_stats \<Rightarrow> hourly_stats" where
  "update_hourly e h =
     (let h1 = h\<lparr>hh_totalSwaps := hh_totalSwaps h + 1\<rparr>
      in if es_mode e = ''turbo'' then h1\<lparr>hh_turboCount := hh_turboCount h1 + 1\<rparr>
         else h1\<lparr>hh_fullCount := hh_fullCount h1 + 1\<rparr>)"

definition swap_entity :: "swap_verified \<Rightarrow> swap_verification" where
  "swap_entity e =
     \<lparr>sv_hook = es_hook e, sv_pool = es_pool e, sv_sender = es_sender e, sv_mode = es_mode e,
      sv_feeAmount = es_feeAmount e, sv_timestamp = es_blockTimestamp e, sv_blockNumber = es_blockNumber e,
      sv_txHash = es_txHash e, sv_potAnchor = None\<rparr>"

text \<open>\<open>load\<close>, or a new entity, then \<open>save\<close>.\<close>

definition load_update :: "'k \<Rightarrow> 'v \<Rightarrow> ('v \<Rightarrow> 'v) \<Rightarrow> ('k, 'v) jsmap \<Rightarrow> ('k, 'v) jsmap" where
  "load_update k fresh f m = jm_set k (f (case jm_get k m of None \<Rightarrow> fresh | Some v \<Rightarrow> v)) m"

definition handleSwapVerified :: "(int \<Rightarrow> int \<Rightarrow> rat) \<Rightarrow> swap_verified \<Rightarrow> graph_store \<Rightarrow> graph_store" where
  "handleSwapVerified bd_div e g =
     (let dayId = period_id 86400 (es_blockTimestamp e); hourId = period_id 3600 (es_blockTimestamp e)
      in g\<lparr>gs_swaps := jm_set (event_id (es_txHash e) (es_logIndex e)) (swap_entity e) (gs_swaps g),
           gs_daily := load_update dayId (new_daily dayId) (update_daily bd_div e) (gs_daily g),
           gs_hourly := load_update hourId (new_hourly hourId) (update_hourly e) (gs_hourly g)\<rparr>)"

datatype graph_event = AnchorEvent pot_anchored | SwapEvent swap_verified

fun graph_step :: "(int \<Rightarrow> int \<Rightarrow> rat) \<Rightarrow> graph_event \<Rightarrow> graph_store \<Rightarrow> graph_store" where
  "graph_step bd_div (AnchorEvent e) g = handlePoTAnchored e g"
| "graph_step bd_div (SwapEvent e) g = handleSwapVerified bd_div e g"

section \<open>The tables are aggregates of the events\<close>

fun swaps_of :: "graph_event list \<Rightarrow> swap_verified list" where
  "swaps_of [] = []"
| "swaps_of (AnchorEvent e # es) = swaps_of es"
| "swaps_of (SwapEvent e # es) = e # swaps_of es"

definition turbo :: "swap_verified \<Rightarrow> bool" where "turbo e \<longleftrightarrow> es_mode e = ''turbo''"

definition in_period :: "int \<Rightarrow> string \<Rightarrow> swap_verified \<Rightarrow> bool" where
  "in_period seconds i e \<longleftrightarrow> period_id seconds (es_blockTimestamp e) = i"

text \<open>What a day's and an hour's row should be: counts and sums over the events in it.\<close>

definition daily_total :: "(int \<Rightarrow> int \<Rightarrow> rat) \<Rightarrow> string \<Rightarrow> swap_verified list \<Rightarrow> daily_stats option" where
  "daily_total bd_div i xs =
     (let n = int (length xs); k = int (length (filter turbo xs))
      in if xs = [] then None
         else Some \<lparr>ds_date = i, ds_totalSwaps = n, ds_turboCount = k, ds_fullCount = n - k,
                    ds_turboRatio = bd_div k n, ds_totalFees = sum_list (map es_feeAmount xs)\<rparr>)"

definition hourly_total :: "string \<Rightarrow> swap_verified list \<Rightarrow> hourly_stats option" where
  "hourly_total i xs =
     (let n = int (length xs); k = int (length (filter turbo xs))
      in if xs = [] then None
         else Some \<lparr>hh_hour = i, hh_totalSwaps = n, hh_turboCount = k, hh_fullCount = n - k\<rparr>)"

definition daily_row :: "(int \<Rightarrow> int \<Rightarrow> rat) \<Rightarrow> string \<Rightarrow> swap_verified list \<Rightarrow> daily_stats option" where
  "daily_row bd_div i es = daily_total bd_div i (filter (in_period 86400 i) es)"

definition hourly_row :: "string \<Rightarrow> swap_verified list \<Rightarrow> hourly_stats option" where
  "hourly_row i es = hourly_total i (filter (in_period 3600 i) es)"

lemma jm_get_load_update:
  "jm_get x (load_update k v f m) = (if x = k then Some (f (case jm_get k m of None \<Rightarrow> v | Some w \<Rightarrow> w)) else jm_get x m)"
  by (simp add: load_update_def)

lemma daily_total_snoc:
  "daily_total bd i (xs @ [e]) =
     Some (update_daily bd e (case daily_total bd i xs of None \<Rightarrow> new_daily i | Some d \<Rightarrow> d))"
  by (cases "xs = []") (simp_all add: daily_total_def update_daily_def new_daily_def turbo_def Let_def add.commute)

lemma hourly_total_snoc:
  "hourly_total i (xs @ [e]) =
     Some (update_hourly e (case hourly_total i xs of None \<Rightarrow> new_hourly i | Some h \<Rightarrow> h))"
  by (cases "xs = []") (simp_all add: hourly_total_def update_hourly_def new_hourly_def turbo_def Let_def add.commute)

lemma daily_row_snoc:
  "daily_row bd i (es @ [e]) =
     (if in_period 86400 i e
      then Some (update_daily bd e (case daily_row bd i es of None \<Rightarrow> new_daily i | Some d \<Rightarrow> d))
      else daily_row bd i es)"
  by (simp add: daily_row_def daily_total_snoc)

lemma hourly_row_snoc:
  "hourly_row i (es @ [e]) =
     (if in_period 3600 i e
      then Some (update_hourly e (case hourly_row i es of None \<Rightarrow> new_hourly i | Some h \<Rightarrow> h))
      else hourly_row i es)"
  by (simp add: hourly_row_def hourly_total_snoc)

lemma swaps_of_append: "swaps_of (xs @ ys) = swaps_of xs @ swaps_of ys"
  by (induction xs rule: swaps_of.induct) simp_all

lemma graph_rows:
  "jm_get i (gs_daily (fold (graph_step bd) evs empty_store)) = daily_row bd i (swaps_of evs) \<and>
   jm_get j (gs_hourly (fold (graph_step bd) evs empty_store)) = hourly_row j (swaps_of evs)"
proof (induction evs arbitrary: i j rule: rev_induct)
  case Nil
  show ?case by (simp add: empty_store_def daily_row_def hourly_row_def daily_total_def hourly_total_def)
next
  case (snoc ev evs)
  show ?case
  proof (cases ev)
    case (AnchorEvent e)
    then show ?thesis using snoc by (simp add: swaps_of_append handlePoTAnchored_def)
  next
    case (SwapEvent e)
    then show ?thesis
      using snoc
      by (auto simp: swaps_of_append handleSwapVerified_def Let_def jm_get_load_update daily_row_snoc hourly_row_snoc
          in_period_def)
  qed
qed

text \<open>Event ids tell events apart.\<close>

lemma minus_not_hex: "CHR ''-'' \<notin> set (hex_encode bs)"
proof (induction bs)
  case (Cons b bs)
  have "hex_digit n \<noteq> CHR ''-''" if "n < 16" for n
    using that hex_val_digit [OF that] by (auto simp: hex_val_def)
  moreover have "unat b div 16 < 16" using unat_byte_less [of b] by linarith
  ultimately show ?case using Cons by (auto dest: sym)
qed simp

lemma append_sep_inject:
  "c \<notin> set xs \<Longrightarrow> c \<notin> set xs' \<Longrightarrow> xs @ c # ys = xs' @ c # ys' \<longleftrightarrow> xs = xs' \<and> ys = ys'"
  by (auto simp: append_eq_append_conv2 append_eq_Cons_conv Cons_eq_append_conv)

lemma event_id_inject: "event_id h l = event_id h' l' \<longleftrightarrow> h = h' \<and> l = l'"
  using append_sep_inject [of "CHR ''-''" "hex_encode h" "hex_encode h'" "show_int l" "show_int l'"] minus_not_hex
  by (simp add: event_id_def)

lemma swaps_table:
  assumes "distinct (map (\<lambda>e. (es_txHash e, es_logIndex e)) (swaps_of evs))"
  shows "gs_swaps (fold (graph_step bd) evs empty_store) =
           map (\<lambda>e. (event_id (es_txHash e) (es_logIndex e), swap_entity e)) (swaps_of evs)"
  using assms
proof (induction evs rule: rev_induct)
  case (snoc ev evs)
  show ?case
  proof (cases ev)
    case (AnchorEvent e)
    then show ?thesis using snoc by (simp add: swaps_of_append handlePoTAnchored_def)
  next
    case (SwapEvent e)
    have "event_id (es_txHash e) (es_logIndex e) \<notin>
            (\<lambda>x. event_id (es_txHash x) (es_logIndex x)) ` set (swaps_of evs)"
      using snoc.prems by (auto simp: SwapEvent swaps_of_append event_id_inject)
    then show ?thesis
      using snoc by (simp add: SwapEvent swaps_of_append handleSwapVerified_def Let_def jm_set_def jm_has_def)
  qed
qed (simp add: empty_store_def)

text \<open>
  C24. The tables are what the events add up to.  After any sequence of events, in any order of
  their times, the row of a day counts the swaps of that day, those in turbo mode and the
  others, their ratio and the sum of their fees, and the row of an hour the swaps of that
  hour; a period without swaps has no row.  If no two swap events share transaction and log
  index, the swap table holds each of them once, in order, under its own id.
\<close>

theorem subgraph_aggregates:
  fixes evs bd
  defines "g \<equiv> fold (graph_step bd) evs empty_store"
  shows "jm_get i (gs_daily g) = daily_row bd i (swaps_of evs) \<and>
         jm_get j (gs_hourly g) = hourly_row j (swaps_of evs) \<and>
         (\<not> distinct (map (\<lambda>e. (es_txHash e, es_logIndex e)) (swaps_of evs)) \<or>
          gs_swaps g = map (\<lambda>e. (event_id (es_txHash e) (es_logIndex e), swap_entity e)) (swaps_of evs))"
  unfolding g_def using graph_rows [of i bd evs j] swaps_table [of evs bd] by blast

definition sample_swap :: swap_verified where
  "sample_swap = \<lparr>es_txHash = [1], es_logIndex = 0, es_blockNumber = 7, es_blockTimestamp = 90000, es_hook = [],
     es_pool = [], es_sender = [], es_mode = ''turbo'', es_feeAmount = 5, es_potHash = []\<rparr>"

lemma subgraph_aggregates_witness:
  "gs_swaps (fold (graph_step (\<lambda>k n. of_int k / of_int n)) [SwapEvent sample_swap] empty_store) =
     [(event_id [1] 0, swap_entity sample_swap)]"
  using subgraph_aggregates [of "''x''" "\<lambda>k n. of_int k / of_int n" "[SwapEvent sample_swap]" "''x''"]
  by (simp add: sample_swap_def)

end
