(* ===== verification/Integrations.thy ===== *)
theory Integrations
  imports TimeSynthesis
begin

text \<open>
  The agent tools (\<open>integrations/openai/ttt_function.ts\<close>,
  \<open>integrations/langchain/ttt_pot_tool.ts\<close>).  Both generate a proof and verify it on the same
  instance.  The OpenAI handler makes an instance per call; the LangChain tool keeps one.
  A clock reading is an argument for each place that reads it, in order: the expiry, the
  expiry check and nonce time inside the generation, then those of the verification.
\<close>

section \<open>Arguments and results\<close>

record tool_args =
  ta_txHash :: string
  ta_chainId :: rat
  ta_poolAddress :: string

record tool_proof =
  tp_timestamp :: string
  tp_uncertainty_ms :: rat
  tp_sources :: nat
  tp_stratum :: int
  tp_confidence :: rat
  tp_nonce :: string
  tp_expiresAt :: string
  tp_onChainHash :: string

record tool_reading =
  tg_source :: string
  tg_timestamp :: string
  tg_uncertainty_ms :: rat

record tool_result =
  tl_verified :: bool
  tl_args :: tool_args
  tl_proof :: "tool_proof option"
  tl_sourceReadings :: "tool_reading list option"
  tl_error :: "string option"

record tool_env =
  te_results :: "time_reading settle list"
  te_rand :: bytes
  te_issued :: int
  te_expCheck :: int
  te_nonceTime :: int
  te_expCheck2 :: int
  te_nonceTime2 :: int

section \<open>One call\<close>

definition tool_failure :: "tool_args \<Rightarrow> js_exn \<Rightarrow> tool_result" where
  "tool_failure a e =
     \<lparr>tl_verified = False, tl_args = a, tl_proof = None, tl_sourceReadings = None, tl_error = Some (exn_message e)\<rparr>"

definition tool_reading_of :: "source_reading \<Rightarrow> tool_reading" where
  "tool_reading_of r =
     \<lparr>tg_source = sr_source r, tg_timestamp = show_int (sr_timestamp r), tg_uncertainty_ms = sr_uncertainty r\<rparr>"

definition tool_success :: "tool_args \<Rightarrow> bool \<Rightarrow> string \<Rightarrow> proof_of_time \<Rightarrow> tool_result" where
  "tool_success a isValid onChainHash pot =
     \<lparr>tl_verified = isValid, tl_args = a,
      tl_proof = Some \<lparr>tp_timestamp = show_int (pot_timestamp pot), tp_uncertainty_ms = pot_uncertainty pot,
        tp_sources = pot_sources pot, tp_stratum = pot_stratum pot, tp_confidence = pot_confidence pot,
        tp_nonce = pot_nonce pot, tp_expiresAt = show_int (expiresAt pot), tp_onChainHash = onChainHash\<rparr>,
      tl_sourceReadings = Some (map tool_reading_of (sourceReadings pot)), tl_error = None\<rparr>"

text \<open>The \<open>try\<close> block; an exception thrown in a callback is not caught by it.\<close>

definition tool_call ::
    "(proof_of_time \<Rightarrow> js_exn + string) \<Rightarrow> tool_env \<Rightarrow> tool_args \<Rightarrow> time_synthesis \<Rightarrow> tool_result settle \<times> time_synthesis" where
  "tool_call chainHash env a ts =
     (case generateProofOfTime (te_results env) (te_rand env) (te_issued env) (te_expCheck env) (te_nonceTime env) ts of
        (Uncaught e, ts1) \<Rightarrow> (Uncaught e, ts1)
      | (Rejected e, ts1) \<Rightarrow> (Fulfilled (tool_failure a e), ts1)
      | (Fulfilled pot, ts1) \<Rightarrow>
          (case verifyProofOfTime (te_expCheck2 env) (te_nonceTime2 env) pot ts1 of
             (isValid, ts2) \<Rightarrow>
               (case chainHash pot of
                  Inl e \<Rightarrow> (Fulfilled (tool_failure a e), ts2)
                | Inr h \<Rightarrow> (Fulfilled (tool_success a isValid h pot), ts2))))"

definition tool_sources :: "string list option \<Rightarrow> string list" where
  "tool_sources config =
     (case config of None \<Rightarrow> [''nist'', ''google'', ''cloudflare'', ''apple''] | Some ns \<Rightarrow> ns)"

definition handleVerifyProofOfTime ::
    "(proof_of_time \<Rightarrow> js_exn + string) \<Rightarrow> tool_env \<Rightarrow> tool_args \<Rightarrow> string list option \<Rightarrow> tool_result settle" where
  "handleVerifyProofOfTime chainHash env a config =
     (case TimeSynthesis (Some (tool_sources config)) of
        Inl e \<Rightarrow> Rejected e
      | Inr ts \<Rightarrow> fst (tool_call chainHash env a ts))"

definition VerifyProofOfTimeTool :: "string list option \<Rightarrow> js_exn + time_synthesis" where
  "VerifyProofOfTimeTool config = TimeSynthesis (Some (tool_sources config))"

text \<open>The LangChain tool answers with the text of the same object.\<close>

definition langchain_call ::
    "(tool_result \<Rightarrow> string) \<Rightarrow> (proof_of_time \<Rightarrow> js_exn + string) \<Rightarrow> tool_env \<Rightarrow> tool_args \<Rightarrow> time_synthesis
     \<Rightarrow> string settle \<times> time_synthesis" where
  "langchain_call stringify chainHash env a ts =
     (case tool_call chainHash env a ts of
        (Fulfilled r, ts') \<Rightarrow> (Fulfilled (stringify r), ts')
      | (Rejected e, ts') \<Rightarrow> (Rejected e, ts')
      | (Uncaught e, ts') \<Rightarrow> (Uncaught e, ts'))"

section \<open>Nothing is ever verified\<close>

text \<open>The clock of a call does not run backwards, and the verification takes less than four minutes.\<close>

definition steady :: "tool_env \<Rightarrow> bool" where
  "steady env \<longleftrightarrow> te_issued env \<le> te_nonceTime env \<and> te_nonceTime2 env \<le> te_expCheck2 env + 240000"

lemma tool_call_unverified:
  assumes "synthesis_ok ts" and "steady env" and "fst (tool_call chainHash env a ts) = Fulfilled r"
  shows "\<not> tl_verified r"
proof (cases "generateProofOfTime (te_results env) (te_rand env) (te_issued env) (te_expCheck env) (te_nonceTime env) ts")
  case (Pair g ts1)
  show ?thesis
  proof (cases g)
    case (Fulfilled pot)
    have "\<not> fst (verifyProofOfTime (te_expCheck2 env) (te_nonceTime2 env) pot ts1)"
      using generated_rejected [OF assms(1) Pair [unfolded Fulfilled]] assms(2) by (simp add: steady_def)
    then show ?thesis
      using assms(3) Pair Fulfilled
      by (cases "verifyProofOfTime (te_expCheck2 env) (te_nonceTime2 env) pot ts1")
         (auto simp: tool_call_def tool_failure_def tool_success_def split: sum.splits)
  qed (use assms(3) Pair in \<open>auto simp: tool_call_def tool_failure_def\<close>)
qed

text \<open>
  The tool never verifies.  Whatever the sources answer and whichever are configured, the
  OpenAI handler returns \<open>verified: false\<close> in every result, also where the proof is genuine
  and complete: the proof it verifies has been verified once already, by the generation.
\<close>

theorem openai_tool_never_verifies:
  assumes "steady env" and "handleVerifyProofOfTime chainHash env a config = Fulfilled r"
  shows "\<not> tl_verified r"
proof -
  obtain ts where ts: "TimeSynthesis (Some (tool_sources config)) = Inr ts" and "usedNonces ts = []"
    unfolding TimeSynthesis_eq by auto
  then have "synthesis_ok ts" by (simp add: synthesis_ok_def nonce_cache_ok_def)
  then show ?thesis
    using assms ts tool_call_unverified by (simp add: handleVerifyProofOfTime_def)
qed

definition sample_env :: tool_env where
  "sample_env = \<lparr>te_results = [Fulfilled (sample_reading ''nist'' 1000), Rejected (JsError ''x''),
      Fulfilled (sample_reading ''apple'' 1010)], te_rand = replicate 16 0xab, te_issued = 50, te_expCheck = 51,
      te_nonceTime = 52, te_expCheck2 = 53, te_nonceTime2 = 54\<rparr>"

lemma openai_tool_never_verifies_witness:
  "\<exists>r. handleVerifyProofOfTime (\<lambda>pot. Inr ''0x00'') sample_env \<lparr>ta_txHash = ''0x1'', ta_chainId = 8453, ta_poolAddress = ''0x2''\<rparr> None
        = Fulfilled r \<and> tl_error r = None \<and> \<not> tl_verified r"
proof -
  let ?c = "handleVerifyProofOfTime (\<lambda>pot. Inr ''0x00'') sample_env \<lparr>ta_txHash = ''0x1'', ta_chainId = 8453, ta_poolAddress = ''0x2''\<rparr> None"
  obtain ts where ts: "TimeSynthesis (Some (tool_sources None)) = Inr ts" and u: "usedNonces ts = []"
      and n: "length (ts_sources ts) = 4"
    unfolding TimeSynthesis_eq by (simp add: tool_sources_def named_sources_def)
  have "\<exists>pot ts'. generateProofOfTime (te_results sample_env) (te_rand sample_env) (te_issued sample_env)
      (te_expCheck sample_env) (te_nonceTime sample_env) ts = (Fulfilled pot, ts')"
    by (simp add: sample_env_def generateProofOfTime_def verifyProofOfTime_def Let_def select_time_def sample_reading_def
      reading_entry_def nonce_cache_step_def MAX_NONCE_CACHE_def jm_has_def u n
      getToleranceForStratum_def reading_tolerance_def js_round_def tdiv_def)
  then obtain pot ts' where g: "generateProofOfTime (te_results sample_env) (te_rand sample_env) (te_issued sample_env)
      (te_expCheck sample_env) (te_nonceTime sample_env) ts = (Fulfilled pot, ts')" by blast
  have "\<exists>r. ?c = Fulfilled r \<and> tl_error r = None"
    by (simp add: handleVerifyProofOfTime_def ts tool_call_def g tool_success_def case_prod_beta)
  then obtain r where r: "?c = Fulfilled r" "tl_error r = None" by blast
  moreover have "\<not> tl_verified r"
    by (rule openai_tool_never_verifies [OF _ r(1)]) (simp add: steady_def sample_env_def)
  ultimately show ?thesis by blast
qed

end
