(* ===== verification/ElizaTime.thy ===== *)
theory ElizaTime
  imports TimeSynthesis
begin

text \<open>
  The time provider of the ElizaOS plugin (\<open>plugins/elizaos-plugin-openttt/src/providers/timeProvider.ts\<close>):
  four HEAD requests, the median of the dates that came back, and how far they are apart.
\<close>

section \<open>The provider\<close>

text \<open>A request fails (or is aborted), or its response has a Date header or none.\<close>

datatype date_fetch = DateFails | DateHeader "string option"

definition fetchTimeFromSource :: "(string \<Rightarrow> int option) \<Rightarrow> date_fetch \<Rightarrow> string \<Rightarrow> (string \<times> int) option" where
  "fetchTimeFromSource parse_date out label =
     (case out of
        DateFails \<Rightarrow> None
      | DateHeader None \<Rightarrow> None
      | DateHeader (Some h) \<Rightarrow> if h = [] then None else map_option (\<lambda>ts. (label, ts)) (parse_date h))"

definition eliza_sources :: "(string \<times> string) list" where
  "eliza_sources = [(''https://time.nist.gov'', ''NIST''), (''https://www.apple.com'', ''Apple''),
                    (''https://www.google.com'', ''Google''), (''https://www.cloudflare.com'', ''Cloudflare'')]"

record verified_time =
  vt_timestamp :: int
  vt_sources :: "string list"
  vt_consensus :: bool
  vt_deviation_ms :: int

definition eliza_median :: "int list \<Rightarrow> int" where
  "eliza_median timestamps =
     (let mid = length timestamps div 2
      in if even (length timestamps)
         then js_round (of_int (timestamps ! (mid - 1) + timestamps ! mid) / 2)
         else timestamps ! mid)"

definition consensus_time :: "int \<Rightarrow> (string \<times> int) list \<Rightarrow> verified_time" where
  "consensus_time now valid =
     (if length valid < 2 then
        \<lparr>vt_timestamp = now, vt_sources = [''local''], vt_consensus = False, vt_deviation_ms = 0\<rparr>
      else
        let timestamps = sort (map snd valid);
            median = eliza_median timestamps;
            maxDeviation = Max (set (map (\<lambda>t. \<bar>t - median\<bar>) timestamps))
        in \<lparr>vt_timestamp = median, vt_sources = map fst valid, vt_consensus = (maxDeviation < 2000),
            vt_deviation_ms = maxDeviation\<rparr>)"

text \<open>\<open>outs\<close> are the outcomes of the four requests, in the order of the sources.\<close>

definition getVerifiedTime :: "(string \<Rightarrow> int option) \<Rightarrow> date_fetch list \<Rightarrow> int \<Rightarrow> verified_time" where
  "getVerifiedTime parse_date outs now =
     consensus_time now (List.map_filter (\<lambda>x. x)
       (map (\<lambda>(src, out). fetchTimeFromSource parse_date out (snd src)) (zip eliza_sources outs)))"

record provider_result =
  pr_text :: "string list"
  pr_timestamp :: int
  pr_iso :: string
  pr_sources :: string
  pr_consensus :: string
  pr_deviation :: int

fun join_with :: "string \<Rightarrow> string list \<Rightarrow> string" where
  "join_with sep [] = []"
| "join_with sep [x] = x"
| "join_with sep (x # y # xs) = x @ sep @ join_with sep (y # xs)"

text \<open>The lines of the text; \<open>toIso\<close> is \<open>toISOString\<close>, which throws outside the range of dates.\<close>

definition provider_get :: "(int \<Rightarrow> js_exn + string) \<Rightarrow> verified_time \<Rightarrow> js_exn + provider_result" where
  "provider_get toIso vt =
     bindr (toIso (vt_timestamp vt)) (\<lambda>iso_text.
       let sourceList = join_with '', '' (vt_sources vt);
           label = (if vt_consensus vt then ''CONSENSUS'' else ''DEGRADED'')
       in Inr \<lparr>pr_text = [''[OpenTTT TimeProvider]'', ''Verified Time: '' @ iso_text, ''Sources: '' @ sourceList,
                ''Consensus: '' @ label, ''Max Deviation: '' @ show_int (vt_deviation_ms vt) @ ''ms''],
               pr_timestamp = vt_timestamp vt, pr_iso = iso_text, pr_sources = sourceList,
               pr_consensus = label, pr_deviation = vt_deviation_ms vt\<rparr>)"

section \<open>Resilience\<close>

lemma js_round_mean:
  assumes "lo \<le> a" "a \<le> hi" "lo \<le> b" "b \<le> (hi :: int)"
  shows "lo \<le> js_round (of_int (a + b) / 2) \<and> js_round (of_int (a + b) / 2) \<le> hi"
proof -
  have "(of_int lo :: rat) \<le> of_int (a + b) / 2" "of_int (a + b) / 2 \<le> (of_int hi :: rat)"
    using assms by (simp_all add: field_simps)
  then show ?thesis by (metis js_round_mono js_round_of_int)
qed

text \<open>The median of either parity lies where a majority does.\<close>

lemma eliza_median_majority:
  assumes "ts \<noteq> []" and maj: "length ts < 2 * length (filter P ts)"
    and honest: "\<And>t. t \<in> set ts \<Longrightarrow> P t \<Longrightarrow> lo \<le> t \<and> t \<le> hi"
  shows "lo \<le> eliza_median (sort ts) \<and> eliza_median (sort ts) \<le> hi"
proof -
  have n: "0 < length ts" using assms(1) by simp
  have mid: "lo \<le> sort ts ! (length ts div 2) \<and> sort ts ! (length ts div 2) \<le> hi"
    using nth_in_majority [of "length ts div 2" ts P lo "\<lambda>t. t" hi] n maj honest by simp
  show ?thesis
  proof (cases "even (length ts)")
    case True
    then have "0 < length ts div 2" using n by presburger
    then have "length ts div 2 - 1 < length ts" "length ts - Suc (length ts div 2 - 1) < length (filter P ts)"
        "length ts div 2 - 1 < length (filter P ts)"
      using maj True by auto
    from nth_in_majority [OF this, of lo "\<lambda>t. t" hi] honest
    have "lo \<le> sort ts ! (length ts div 2 - 1) \<and> sort ts ! (length ts div 2 - 1) \<le> hi" by simp
    then show ?thesis
      using True mid js_round_mean [of lo "sort ts ! (length ts div 2 - 1)" hi "sort ts ! (length ts div 2)"]
      by (simp add: eliza_median_def Let_def)
  qed (use mid in \<open>simp add: eliza_median_def Let_def\<close>)
qed

lemma consensus_fields:
  assumes "2 \<le> length valid"
  shows "vt_timestamp (consensus_time now valid) = eliza_median (sort (map snd valid))"
    and "vt_sources (consensus_time now valid) = map fst valid"
    and "vt_consensus (consensus_time now valid) \<longleftrightarrow> vt_deviation_ms (consensus_time now valid) < 2000"
    and "vt_deviation_ms (consensus_time now valid) < b \<longleftrightarrow>
           (\<forall>v \<in> set valid. \<bar>snd v - eliza_median (sort (map snd valid))\<bar> < b)"
proof -
  have "valid \<noteq> []" using assms by auto
  then show "vt_deviation_ms (consensus_time now valid) < b \<longleftrightarrow>
           (\<forall>v \<in> set valid. \<bar>snd v - eliza_median (sort (map snd valid))\<bar> < b)"
    using assms by (simp add: consensus_time_def Let_def Max_less_iff)
qed (use assms in \<open>simp_all add: consensus_time_def Let_def\<close>)

text \<open>
  Byzantine resilience of the plugin's clock.  If at least two sources gave a date and more
  than half of those are within \<open>\<delta>\<close> of the true time, the verified time is within \<open>\<delta>\<close> of it,
  for an odd and an even number of sources alike; consensus is claimed exactly when every
  date is less than two seconds from the verified time.
\<close>

theorem eliza_time_byzantine:
  assumes "2 \<le> length valid" and "length valid < 2 * length (filter honest valid)"
    and "\<forall>v \<in> set valid. honest v \<longrightarrow> \<bar>snd v - true_time\<bar> \<le> \<delta>"
  shows "\<bar>vt_timestamp (consensus_time now valid) - true_time\<bar> \<le> \<delta> \<and>
         vt_sources (consensus_time now valid) = map fst valid \<and>
         (vt_consensus (consensus_time now valid) \<longleftrightarrow>
            (\<forall>v \<in> set valid. \<bar>snd v - vt_timestamp (consensus_time now valid)\<bar> < 2000))"
proof -
  let ?P = "\<lambda>t. \<bar>t - true_time\<bar> \<le> \<delta>"
  have "length (filter honest valid) \<le> length (filter (?P \<circ> snd) valid)"
    using assms(3) by (intro length_filter_mono) auto
  then have "length (map snd valid) < 2 * length (filter ?P (map snd valid))"
    using assms(2) by (simp add: filter_map)
  then have "true_time - \<delta> \<le> eliza_median (sort (map snd valid)) \<and> eliza_median (sort (map snd valid)) \<le> true_time + \<delta>"
    using assms(1) by (intro eliza_median_majority [where P = ?P]) auto
  then show ?thesis
    unfolding consensus_fields(1-3) [OF assms(1)] consensus_fields(4) [OF assms(1)] by auto
qed

lemma eliza_time_byzantine_witness:
  "\<bar>vt_timestamp (consensus_time 0 [(''NIST'', 1000), (''Apple'', 99000), (''Google'', 2000)]) - 1500\<bar> \<le> 500"
  using eliza_time_byzantine [of "[(''NIST'', 1000), (''Apple'', 99000), (''Google'', 2000)]" "\<lambda>v. snd v < 3000" 1500 500 0]
  by simp

text \<open>Two sources almost four seconds apart are a consensus.\<close>

lemma consensus_four_seconds: "vt_consensus (consensus_time 0 [(''NIST'', 0), (''Apple'', 3998)])"
  by code_simp

end
