(* ===== verification/ElizaPlugin.thy ===== *)
theory ElizaPlugin
  imports ElizaTime PotSigner Fetching
begin

text \<open>
  The actions and the evaluator of the ElizaOS plugin (\<open>plugins/elizaos-plugin-openttt/src\<close>): a
  token is made, kept as text in a cache of the module, looked up and verified.  Clock
  readings are arguments; \<open>clk i\<close> is the reading at the i-th place of a handler.  The host's
  callback, which receives what the handler returns, is left out, and so are the two marks
  before CONSENSUS and DEGRADED.
\<close>

section \<open>The cache\<close>

definition MAX_CACHE_SIZE :: nat where "MAX_CACHE_SIZE = 1000"

type_synonym pot_cache = "(string, string \<times> int) jsmap"

definition cache_cleanup :: "int \<Rightarrow> pot_cache \<Rightarrow> pot_cache" where
  "cache_cleanup now c = filter (\<lambda>e. \<not> snd (snd e) < now) c"

definition potCacheSet :: "int \<Rightarrow> string \<Rightarrow> string \<Rightarrow> int \<Rightarrow> pot_cache \<Rightarrow> pot_cache" where
  "potCacheSet now key v ttlSeconds c = jm_put_fifo MAX_CACHE_SIZE key (v, now + ttlSeconds * 1000) c"

definition potCacheGet :: "int \<Rightarrow> string \<Rightarrow> pot_cache \<Rightarrow> string option \<times> pot_cache" where
  "potCacheGet now key c =
     (case jm_get key c of
        None \<Rightarrow> (None, c)
      | Some (v, expiry) \<Rightarrow> if expiry < now then (None, jm_delete key c) else (Some v, c))"

section \<open>Text\<close>

text \<open>\<open>JSON.stringify\<close> throws on a \<open>BigInt\<close>; \<open>JSON.parse\<close> may throw.  The texts are the library's.\<close>

record json_lib =
  json_text :: "json \<Rightarrow> string"
  json_parse :: "string \<Rightarrow> js_exn + json"
  show_json :: "json option \<Rightarrow> string"

fun has_bigint :: "json \<Rightarrow> bool" where
  "has_bigint (JBig i) = True"
| "has_bigint (JArr xs) = list_ex has_bigint xs"
| "has_bigint (JObj fs) = list_ex (\<lambda>(k, v). has_bigint v) fs"
| "has_bigint v = False"

definition js_stringify :: "json_lib \<Rightarrow> json \<Rightarrow> js_exn + string" where
  "js_stringify J v = (if has_bigint v then Inl (TypeError ''Do not know how to serialize a BigInt'') else Inr (json_text J v))"

definition pot_key :: "string \<Rightarrow> string" where "pot_key h = ''openttt:pot:'' @ h"
definition last_key :: "string \<Rightarrow> string" where "last_key agent = ''openttt:last:'' @ agent"

definition agent_name :: "string option \<Rightarrow> string" where
  "agent_name a = (case a of None \<Rightarrow> ''unknown'' | Some n \<Rightarrow> n)"

datatype 'd action_result = ActionOk "string list" 'd | ActionFails string "'d option"

definition consensus_label :: "bool \<Rightarrow> string" where
  "consensus_label b = (if b then ''CONSENSUS'' else ''DEGRADED'')"

section \<open>Generating\<close>

definition eliza_potHash :: "(bytes \<Rightarrow> bytes) \<Rightarrow> string \<Rightarrow> verified_time \<Rightarrow> string \<Rightarrow> string" where
  "eliza_potHash sha256 agentId vt nonce =
     hex_encode (sha256 (utf8_encode (agentId @ '':'' @ show_int (vt_timestamp vt) @ '':''
        @ join_with '','' (vt_sources vt) @ '':'' @ nonce)))"

definition token_json :: "verified_time \<Rightarrow> string \<Rightarrow> string \<Rightarrow> string \<Rightarrow> string \<Rightarrow> pot_signature \<Rightarrow> json" where
  "token_json vt agentId nonce potHash issued sig =
     JObj [(''version'', JStr ''1.0''), (''timestamp'', JNum (of_int (vt_timestamp vt))),
           (''sources'', JArr (map JStr (vt_sources vt))), (''consensus'', JBool (vt_consensus vt)),
           (''deviation_ms'', JNum (of_int (vt_deviation_ms vt))), (''agent_id'', JStr agentId),
           (''nonce'', JStr nonce), (''potHash'', JStr potHash), (''issued_at'', JStr issued),
           (''signature'', JObj [(''issuerPubKey'', JStr (issuerPubKey sig)),
                                 (''signature'', JStr (sig_signature sig)), (''issuedAt'', JBig (issuedAt sig))])]"

definition generate_text :: "verified_time \<Rightarrow> string \<Rightarrow> string \<Rightarrow> string list" where
  "generate_text vt issued nonce =
     [''Proof-of-Time generated successfully.'', [], ''Token Details:'',
      ''  Timestamp : '' @ issued, ''  Sources   : '' @ join_with '', '' (vt_sources vt),
      ''  Consensus : '' @ consensus_label (vt_consensus vt),
      ''  Deviation : '' @ show_int (vt_deviation_ms vt) @ ''ms'', ''  Nonce     : '' @ nonce, [],
      ''This PoT token is valid for 5 minutes. Attach it to your transaction before submitting.'']"

definition eliza_generate ::
    "json_lib \<Rightarrow> 'k ed25519 \<Rightarrow> 'k pot_signer \<Rightarrow> (bytes \<Rightarrow> bytes) \<Rightarrow> (int \<Rightarrow> js_exn + string) \<Rightarrow> verified_time
     \<Rightarrow> string option \<Rightarrow> bytes \<Rightarrow> (nat \<Rightarrow> int) \<Rightarrow> pot_cache \<Rightarrow> json action_result \<times> pot_cache" where
  "eliza_generate J C signer sha256 toIso vt agent rand clk cache =
     (let agentId = agent_name agent;
          nonce = hex_encode rand;
          potHash = eliza_potHash sha256 agentId vt nonce;
          sig = signPot C (clk 0) potHash signer
      in case bindr (toIso (vt_timestamp vt)) (\<lambda>issued.
              bindr (js_stringify J (token_json vt agentId nonce potHash issued sig)) (\<lambda>txt. Inr (issued, txt))) of
           Inl e \<Rightarrow> (ActionFails (exn_message e) None, cache)
         | Inr (issued, txt) \<Rightarrow>
             (ActionOk (generate_text vt issued nonce) (token_json vt agentId nonce potHash issued sig),
              potCacheSet (clk 2) (last_key agentId) potHash 300 (potCacheSet (clk 1) (pot_key potHash) txt 300 cache)))"

section \<open>Looking up\<close>

text \<open>
  The regular expression finds the first word of at least 32 characters that are all
  hexadecimal digits, of either case.
\<close>

definition word_char :: "char \<Rightarrow> bool" where
  "word_char c \<longleftrightarrow> (let n = of_char c :: nat in
     (48 \<le> n \<and> n \<le> 57) \<or> (65 \<le> n \<and> n \<le> 90) \<or> (97 \<le> n \<and> n \<le> 122) \<or> n = 95)"

fun split_words :: "string \<Rightarrow> string \<Rightarrow> string list" where
  "split_words acc [] = [rev acc]"
| "split_words acc (c # cs) = (if word_char c then split_words (c # acc) cs else rev acc # split_words [] cs)"

definition hash_in_text :: "string \<Rightarrow> string option" where
  "hash_in_text t = find (\<lambda>w. 32 \<le> length w \<and> list_all (\<lambda>c. hex_val c \<noteq> None) w) (split_words [] t)"

text \<open>A cached text that is missing, empty, malformed or falsy gives no token.\<close>

definition cached_token :: "json_lib \<Rightarrow> int \<Rightarrow> string \<Rightarrow> pot_cache \<Rightarrow> json option \<times> pot_cache" where
  "cached_token J now key c =
     (case potCacheGet now key c of
        (None, c') \<Rightarrow> (None, c')
      | (Some txt, c') \<Rightarrow>
          ((if txt = [] then None
            else case json_parse J txt of
              Inl e \<Rightarrow> None
            | Inr v \<Rightarrow> if js_truthy (Some v) then Some v else None), c'))"

definition eliza_lookup ::
    "json_lib \<Rightarrow> (nat \<Rightarrow> int) \<Rightarrow> string option \<Rightarrow> string option \<Rightarrow> string \<Rightarrow> pot_cache \<Rightarrow> json option \<times> pot_cache" where
  "eliza_lookup J clk agent hashArg txt c0 =
     (let resolvedHash = (case hashArg of Some h \<Rightarrow> Some h | None \<Rightarrow> hash_in_text txt);
          (pot1, c1) = (if resolvedHash = None \<or> resolvedHash = Some [] then (None, c0)
                        else cached_token J (clk 0) (pot_key (the resolvedHash)) c0)
      in case pot1 of
           Some p \<Rightarrow> (Some p, c1)
         | None \<Rightarrow>
             (case potCacheGet (clk 1) (last_key (agent_name agent)) c1 of
                (None, c2) \<Rightarrow> (None, c2)
              | (Some lastHash, c2) \<Rightarrow>
                  (if lastHash = [] then (None, c2) else cached_token J (clk 2) (pot_key lastHash) c2)))"

section \<open>Dynamic values\<close>

text \<open>
  \<open>n - v\<close>: \<open>None\<close> is NaN, a \<open>BigInt\<close> throws.  Text counts when it is an integer; a decimal
  fraction in a text is taken for NaN here, and so is every array.
\<close>

fun js_minus :: "rat \<Rightarrow> json option \<Rightarrow> js_exn + rat option" where
  "js_minus n (Some (JNum r)) = Inr (Some (n - r))"
| "js_minus n (Some JNull) = Inr (Some n)"
| "js_minus n (Some (JBool b)) = Inr (Some (n - (if b then 1 else 0)))"
| "js_minus n (Some (JStr s)) = Inr (map_option (\<lambda>i. n - of_int i) (string_to_bigint s))"
| "js_minus n (Some (JBig i)) = Inl (TypeError ''Cannot mix BigInt and other types, use explicit conversions'')"
| "js_minus n _ = Inr None"

definition exceeds :: "rat option \<Rightarrow> rat \<Rightarrow> bool" where
  "exceeds v b = (case v of None \<Rightarrow> False | Some r \<Rightarrow> b < r)"

definition below :: "rat option \<Rightarrow> rat \<Rightarrow> bool" where
  "below v b = (case v of None \<Rightarrow> False | Some r \<Rightarrow> r < b)"

definition show_rounded :: "rat option \<Rightarrow> rat \<Rightarrow> string" where
  "show_rounded v unit = (case v of None \<Rightarrow> ''NaN'' | Some r \<Rightarrow> show_int (js_round (r / unit)))"

text \<open>\<open>pot.sources.join(", ")\<close>.\<close>

definition js_join :: "json_lib \<Rightarrow> json option \<Rightarrow> js_exn + string" where
  "js_join J v =
     (case v of
        Some (JArr xs) \<Rightarrow> Inr (join_with '', '' (map (\<lambda>x. show_json J (Some x)) xs))
      | None \<Rightarrow> Inl (TypeError ''Cannot read properties of undefined (reading join)'')
      | Some JNull \<Rightarrow> Inl (TypeError ''Cannot read properties of null (reading join)'')
      | Some _ \<Rightarrow> Inl (TypeError ''pot.sources.join is not a function''))"

section \<open>Verifying\<close>

record eliza_verdict =
  ev_valid :: bool
  ev_reason :: string
  ev_pot :: "json option"
  ev_age :: "rat option"
  ev_current :: "int option"

definition POT_MAX_AGE_MS :: rat where "POT_MAX_AGE_MS = 300000"

definition plain_verdict :: "string \<Rightarrow> eliza_verdict" where
  "plain_verdict reason = \<lparr>ev_valid = False, ev_reason = reason, ev_pot = None, ev_age = None, ev_current = None\<rparr>"

text \<open>
  \<open>verifyPotSignature\<close> on values of any type: what is not text throws inside its \<open>try\<close>.  (A key
  or signature given as an array of bytes, which \<open>Buffer.from\<close> would take, is left out.)
\<close>

definition token_sig_ok :: "'k ed25519 \<Rightarrow> json \<Rightarrow> json \<Rightarrow> bool" where
  "token_sig_ok C pot sig =
     (case (jm_get ''potHash'' (js_fields pot), jm_get ''issuerPubKey'' (js_fields sig),
            jm_get ''signature'' (js_fields sig)) of
        (Some (JStr h), Some (JStr k), Some (JStr sg)) \<Rightarrow>
          verifyPotSignature C h \<lparr>issuerPubKey = k, sig_signature = sg, issuedAt = 0\<rparr> None
      | _ \<Rightarrow> False)"

definition given_pot :: "json option \<Rightarrow> json option" where
  "given_pot v = (case v of Some (JObj fs) \<Rightarrow> v | Some (JArr xs) \<Rightarrow> v | _ \<Rightarrow> None)"

definition verify_text :: "json_lib \<Rightarrow> json \<Rightarrow> string \<Rightarrow> rat option \<Rightarrow> string list" where
  "verify_text J pot sources age =
     (let f = (\<lambda>k. jm_get k (js_fields pot)); consensus = js_truthy (f ''consensus'') in
      filter (\<lambda>l. l \<noteq> [])
        [''Proof-of-Time verification PASSED.'', [], ''Token Summary:'',
         ''  Issued    : '' @ show_json J (f ''issued_at''), ''  Age       : '' @ show_rounded age 1000 @ ''s'',
         ''  Sources   : '' @ sources, ''  Consensus : '' @ consensus_label consensus,
         ''  Deviation : '' @ show_json J (f ''deviation_ms'') @ ''ms'', ''  Agent     : '' @ show_json J (f ''agent_id''),
         (if consensus then [] else char_of (10 :: nat) #
            '' Warning: PoT was issued under degraded consensus (fewer than 2 time sources responded).'')])"

definition check_token ::
    "json_lib \<Rightarrow> 'k ed25519 \<Rightarrow> verified_time \<Rightarrow> json \<Rightarrow> js_exn + eliza_verdict action_result" where
  "check_token J C vt pot =
     bindr (js_prop ''signature'' pot) (\<lambda>sg.
     if \<not> js_truthy sg then
       (let r = ''PoT token has no signature. Token was not generated by a trusted issuer.''
        in Inr (ActionFails r (Some (plain_verdict r))))
     else if \<not> token_sig_ok C pot (the sg) then
       (let r = ''Ed25519 signature verification failed. Token may have been tampered with.''
        in Inr (ActionFails r (Some (plain_verdict r))))
     else
       bindr (js_prop ''timestamp'' pot) (\<lambda>ts.
       bindr (js_minus (of_int (vt_timestamp vt)) ts) (\<lambda>age.
       let verdict = (\<lambda>ok r. \<lparr>ev_valid = ok, ev_reason = r, ev_pot = Some pot, ev_age = age,
                              ev_current = Some (vt_timestamp vt)\<rparr>) in
       if exceeds age POT_MAX_AGE_MS then
         (let r = ''PoT token expired. Age: '' @ show_rounded age 1000 @ ''s (max: 300s).''
          in Inr (ActionFails r (Some (verdict False r))))
       else if below age 0 then
         (let r = ''PoT token timestamp is in the future. Possible clock manipulation detected.''
          in Inr (ActionFails r (Some (verdict False r))))
       else
         bindr (js_prop ''sources'' pot) (\<lambda>src. bindr (js_join J src) (\<lambda>sources.
           Inr (ActionOk (verify_text J pot sources age) (verdict True ''PoT token is valid.''))))))) "

definition eliza_verify ::
    "json_lib \<Rightarrow> 'k ed25519 \<Rightarrow> (nat \<Rightarrow> int) \<Rightarrow> verified_time \<Rightarrow> string option \<Rightarrow> json option \<Rightarrow> string option
     \<Rightarrow> string \<Rightarrow> pot_cache \<Rightarrow> eliza_verdict action_result \<times> pot_cache" where
  "eliza_verify J C clk vt agent optPot hashArg txt cache =
     (let (pot, c') = (case given_pot optPot of
                         Some p \<Rightarrow> (Some p, cache)
                       | None \<Rightarrow> eliza_lookup J clk agent hashArg txt cache)
      in case pot of
           None \<Rightarrow>
             (let r = ''No PoT token found for this transaction. Generate one first with GENERATE_POT.''
              in (ActionFails r (Some (plain_verdict r)), c'))
         | Some p \<Rightarrow>
             (case check_token J C vt p of
                Inl e \<Rightarrow> (ActionFails (exn_message e) None, c')
              | Inr res \<Rightarrow> (res, c')))"

section \<open>Querying and evaluating\<close>

definition age_label :: "rat option \<Rightarrow> string" where
  "age_label age = (if below age 60000 then show_rounded age 1000 @ ''s ago'' else show_rounded age 60000 @ ''m ago'')"

definition query_text :: "json_lib \<Rightarrow> json \<Rightarrow> string \<Rightarrow> rat option \<Rightarrow> string list" where
  "query_text J pot sources age =
     (let f = (\<lambda>k. show_json J (jm_get k (js_fields pot))) in
      [''Cached Proof-of-Time token:'', [], ''  Issued    : '' @ f ''issued_at'' @ '' ('' @ age_label age @ '')'',
       ''  Sources   : '' @ sources,
       ''  Consensus : '' @ consensus_label (js_truthy (jm_get ''consensus'' (js_fields pot))),
       ''  Deviation : '' @ f ''deviation_ms'' @ ''ms'', ''  Agent     : '' @ f ''agent_id'',
       ''  PotHash   : '' @ f ''potHash'', ''  Nonce     : '' @ f ''nonce''])"

definition eliza_query ::
    "json_lib \<Rightarrow> (nat \<Rightarrow> int) \<Rightarrow> string option \<Rightarrow> string option \<Rightarrow> string \<Rightarrow> pot_cache \<Rightarrow> json action_result \<times> pot_cache" where
  "eliza_query J clk agent hashArg txt cache =
     (case eliza_lookup J clk agent hashArg txt cache of
        (None, c') \<Rightarrow> (ActionFails ''No PoT token found in cache. Generate one first with GENERATE_POT.'' None, c')
      | (Some pot, c') \<Rightarrow>
          (case bindr (js_prop ''timestamp'' pot) (\<lambda>ts. bindr (js_minus (of_int (clk 3)) ts) (\<lambda>age.
                bindr (js_prop ''sources'' pot) (\<lambda>src. bindr (js_join J src) (\<lambda>sources. Inr (age, sources))))) of
             Inl e \<Rightarrow> (ActionFails (exn_message e) None, c')
           | Inr (age, sources) \<Rightarrow> (ActionOk (query_text J pot sources age) pot, c')))"

definition trade_keywords :: "string list" where
  "trade_keywords = [''trade'', ''swap'', ''buy'', ''sell'', ''submit'', ''execute'', ''transaction'', ''transfer'',
     ''order'', ''sign'', ''broadcast'']"

fun text_includes :: "string \<Rightarrow> string \<Rightarrow> bool" where
  "text_includes sub [] = (sub = [])"
| "text_includes sub (c # cs) = (take (length sub) (c # cs) = sub \<or> text_includes sub cs)"

definition evaluator_validate :: "string option \<Rightarrow> bool" where
  "evaluator_validate txt =
     list_ex (\<lambda>kw. text_includes kw (toLowerCase (case txt of None \<Rightarrow> [] | Some t \<Rightarrow> t))) trade_keywords"

text \<open>Whether the message counts as covered; otherwise, or when its token is malformed, a warning is printed.\<close>

definition evaluator_covers :: "json_lib \<Rightarrow> (nat \<Rightarrow> int) \<Rightarrow> string \<Rightarrow> pot_cache \<Rightarrow> bool \<times> pot_cache" where
  "evaluator_covers J clk messageId cache =
     (case potCacheGet (clk 0) (pot_key messageId) cache of
        (None, c') \<Rightarrow> (False, c')
      | (Some txt, c') \<Rightarrow>
          (txt \<noteq> [] \<and>
           (case bindr (json_parse J txt) (\<lambda>pot. bindr (js_prop ''timestamp'' pot) (\<lambda>ts.
                  bindr (js_minus (of_int (clk 1)) ts) (\<lambda>age. bindr (js_prop ''sources'' pot) (js_join J)))) of
              Inl e \<Rightarrow> False | Inr _ \<Rightarrow> True), c'))"

section \<open>No token is ever made\<close>

lemma token_has_bigint: "has_bigint (token_json vt a n h i sig)"
  by (simp add: token_json_def)

lemma generate_fails:
  "\<exists>m. eliza_generate J C signer sha256 toIso vt agent rand clk cache = (ActionFails m None, cache)"
  by (cases "toIso (vt_timestamp vt)") (simp_all add: eliza_generate_def Let_def js_stringify_def token_has_bigint)

lemma get_empty: "potCacheGet now key [] = (None, [])"
  by (simp add: potCacheGet_def)

lemma lookup_empty: "eliza_lookup J clk agent hashArg txt [] = (None, [])"
  by (simp add: eliza_lookup_def cached_token_def get_empty Let_def)

datatype eliza_op =
    OpGenerate verified_time "string option" bytes "nat \<Rightarrow> int"
  | OpVerify "nat \<Rightarrow> int" verified_time "string option" "json option" "string option" string
  | OpQuery "nat \<Rightarrow> int" "string option" "string option" string
  | OpEvaluate "nat \<Rightarrow> int" string
  | OpCleanup int

fun eliza_step ::
    "json_lib \<Rightarrow> 'k ed25519 \<Rightarrow> 'k pot_signer \<Rightarrow> (bytes \<Rightarrow> bytes) \<Rightarrow> (int \<Rightarrow> js_exn + string) \<Rightarrow> eliza_op \<Rightarrow> pot_cache \<Rightarrow> pot_cache" where
  "eliza_step J C s sha iso_of (OpGenerate vt agent rand clk) c = snd (eliza_generate J C s sha iso_of vt agent rand clk c)"
| "eliza_step J C s sha iso_of (OpVerify clk vt agent pot h txt) c = snd (eliza_verify J C clk vt agent pot h txt c)"
| "eliza_step J C s sha iso_of (OpQuery clk agent h txt) c = snd (eliza_query J clk agent h txt c)"
| "eliza_step J C s sha iso_of (OpEvaluate clk i) c = snd (evaluator_covers J clk i c)"
| "eliza_step J C s sha iso_of (OpCleanup now) c = cache_cleanup now c"

lemma step_keeps_empty: "eliza_step J C s sha iso_of op [] = []"
proof (cases op)
  case (OpGenerate vt agent rand clk)
  then show ?thesis using generate_fails [of J C s sha iso_of vt agent rand clk "[]"] by auto
next
  case (OpVerify clk vt agent pot h tx)
  then show ?thesis
    by (cases "given_pot pot") (simp_all add: eliza_verify_def lookup_empty Let_def split: sum.splits)
qed (simp_all add: eliza_query_def lookup_empty evaluator_covers_def get_empty cache_cleanup_def)

interpretation eliza: kept "eliza_step J C s sha iso_of" "\<lambda>c. c = []" for J C s sha iso_of
  by unfold_locales (simp add: step_keeps_empty)

text \<open>
  The plugin makes no token.  After any sequence of the plugin's actions, cleanups and
  evaluations, with any library behind them, generating fails, because the token holds a
  \<open>BigInt\<close> that \<open>JSON.stringify\<close> refuses; nothing is in the cache, so a query fails, an
  evaluation finds no coverage, and a verification without a token of the caller's fails.
\<close>

theorem eliza_never_generates:
  fixes ops J C s sha iso_of
  defines "c \<equiv> fold (eliza_step J C s sha iso_of) ops []"
  shows "(\<exists>m. fst (eliza_generate J C s sha iso_of vt agent rand clk c) = ActionFails m None) \<and>
         fst (eliza_query J clk agent h txt c) =
           ActionFails ''No PoT token found in cache. Generate one first with GENERATE_POT.'' None \<and>
         \<not> fst (evaluator_covers J clk messageId c) \<and>
         (\<exists>m d. fst (eliza_verify J C clk vt agent None h txt c) = ActionFails m d)"
proof -
  have "c = []" unfolding c_def by (rule eliza.run [OF refl])
  then show ?thesis
    using generate_fails [of J C s sha iso_of vt agent rand clk "[]"]
    by (auto simp: eliza_query_def lookup_empty evaluator_covers_def get_empty eliza_verify_def given_pot_def Let_def)
qed

section \<open>What a verification covers\<close>

text \<open>
  C40. A verified token is bound to nothing.  Take any token whose signature verifies its hash, under
  whatever key the token itself names, and that lists its sources: with its timestamp
  replaced by the current time, and any agent and any sources put in their places, the
  verification accepts it, however old the token was.  The hash is never compared with the
  fields it was computed from.
\<close>

theorem eliza_verify_unbound:
  fixes fs vt who srcs
  assumes "jm_get ''signature'' fs = Some sg" and "js_truthy (Some sg)" and "token_sig_ok C (JObj fs) sg"
  defines "now \<equiv> JNum (of_int (vt_timestamp vt))"
  defines "forged \<equiv> jm_set ''agent_id'' (JStr who) (jm_set ''sources'' (JArr srcs) (jm_set ''timestamp'' now fs))"
  shows "\<exists>lines v. eliza_verify J C clk vt agent (Some (JObj forged)) h msg cache = (ActionOk lines v, cache) \<and>
           ev_valid v \<and> ev_age v = Some 0"
proof -
  have "token_sig_ok C (JObj forged) sg"
    using assms(3) by (simp add: token_sig_ok_def forged_def)
  moreover have "js_prop ''signature'' (JObj forged) = Inr (Some sg)" "js_prop ''timestamp'' (JObj forged) = Inr (Some now)"
      "js_prop ''sources'' (JObj forged) = Inr (Some (JArr srcs))"
    using assms(1) by (simp_all add: forged_def)
  ultimately show ?thesis
    using assms(2)
    by (simp add: eliza_verify_def given_pot_def check_token_def Let_def js_join_def exceeds_def below_def
        POT_MAX_AGE_MS_def now_def del: js_prop.simps)
qed

definition old_token :: "(string \<times> json) list" where
  "old_token = [(''potHash'', JStr ''ab''), (''timestamp'', JNum 5),
     (''signature'', JObj [(''issuerPubKey'', JStr ''02''), (''signature'', JStr ''02ab'')])]"

lemma old_token_signed:
  "jm_get ''signature'' old_token = Some (JObj [(''issuerPubKey'', JStr ''02''), (''signature'', JStr ''02ab'')])"
  "js_truthy (Some (JObj [(''issuerPubKey'', JStr ''02''), (''signature'', JStr ''02ab'')]))"
  "token_sig_ok toy_ed25519 (JObj old_token) (JObj [(''issuerPubKey'', JStr ''02''), (''signature'', JStr ''02ab'')])"
  by code_simp+

lemma eliza_verify_unbound_witness:
  "\<forall>J clk vt. \<exists>lines v.
     eliza_verify J toy_ed25519 clk vt None
       (Some (JObj (jm_set ''agent_id'' (JStr ''mallory'') (jm_set ''sources'' (JArr []) (jm_set ''timestamp''
          (JNum (of_int (vt_timestamp vt))) old_token))))) None [] [] = (ActionOk lines v, []) \<and> ev_valid v"
  using eliza_verify_unbound [OF old_token_signed] by blast

end
