(* ===== verification/CtLog.thy ===== *)
theory CtLog
  imports Fetching
begin

text \<open>
  The transparency log client (\<open>src/ct_log.ts\<close>): two queries to the subgraph, with their text,
  and two statistics that are constants.  The URL is the whole state.  The response status
  is not looked at, only the body.
\<close>

definition nl :: char where "nl = char_of (10 :: nat)"
definition dq :: char where "dq = CHR 0x22"

text \<open>One line of a template, after a newline.\<close>

definition tline :: "nat \<Rightarrow> string \<Rightarrow> string" where
  "tline indent s = nl # replicate indent (CHR '' '') @ s"

definition quoted :: "string \<Rightarrow> string" where "quoted s = dq # s @ [dq]"

record anchor_filter =
  af_startTime :: "int option"
  af_endTime :: "int option"
  af_stratum :: "string option"
  af_limit :: "int option"

text \<open>A missing filter, zero and the empty text are all falsy.\<close>

definition truthy_int :: "int option \<Rightarrow> bool" where
  "truthy_int v \<longleftrightarrow> v \<noteq> None \<and> v \<noteq> Some 0"

definition whereClause :: "anchor_filter \<Rightarrow> string list" where
  "whereClause f =
     (if truthy_int (af_startTime f) then [''timestamp_gte: '' @ quoted (show_int (the (af_startTime f)))] else [])
     @ (if truthy_int (af_endTime f) then [''timestamp_lte: '' @ quoted (show_int (the (af_endTime f)))] else [])
     @ (if af_stratum f \<noteq> None \<and> af_stratum f \<noteq> Some [] then [''stratum: '' @ quoted (the (af_stratum f))] else [])"

fun join_comma :: "string list \<Rightarrow> string" where
  "join_comma [] = []"
| "join_comma [x] = x"
| "join_comma (x # y # xs) = x @ '', '' @ join_comma (y # xs)"

definition where_args :: "anchor_filter \<Rightarrow> string" where
  "where_args f =
     (let limit = (case af_limit f of None \<Rightarrow> 100 | Some n \<Rightarrow> n);
          order = '', orderBy: timestamp, orderDirection: desc)''
      in if whereClause f \<noteq> []
         then ''(where: { '' @ join_comma (whereClause f) @ '' }, first: '' @ show_int limit @ order
         else ''(first: '' @ show_int limit @ order)"

definition anchor_fields :: "nat \<Rightarrow> string" where
  "anchor_fields n =
     tline n ''id'' @ tline n ''stratum'' @ tline n ''grgHash'' @ tline n ''potHash''
     @ tline n ''timestamp'' @ tline n ''blockNumber'' @ tline n ''txHash''"

definition anchors_query :: "string \<Rightarrow> string" where
  "anchors_query args =
     tline 6 ''query {'' @ tline 8 (''poTAnchors'' @ args @ '' {'') @ anchor_fields 10
     @ tline 8 ''}'' @ tline 6 ''}'' @ tline 4 []"

definition query_request :: "string \<Rightarrow> string \<Rightarrow> http_request" where
  "query_request subgraphUrl query =
     \<lparr>rq_url = subgraphUrl, rq_method = ''POST'', rq_headers = [(''Content-Type'', ''application/json'')],
      rq_body = Some (JObj [(''query'', JStr query)])\<rparr>"

text \<open>\<open>json.data.poTAnchors\<close>.\<close>

definition response_anchors :: "fetch_outcome \<Rightarrow> js_exn + json option" where
  "response_anchors out =
     (case out of
        FetchRejected e \<Rightarrow> Inl e
      | Fetched r \<Rightarrow> bindr (rs_json r) (\<lambda>j. bindr (js_prop ''data'' j) (js_get ''poTAnchors'')))"

definition with_builder :: "json \<Rightarrow> json" where
  "with_builder anchor = JObj (jm_set ''builderAddress'' (JStr ''0x'') (js_fields anchor))"

definition queryAnchors :: "(http_request \<Rightarrow> fetch_outcome) \<Rightarrow> string \<Rightarrow> anchor_filter \<Rightarrow> js_exn + json list" where
  "queryAnchors fetch subgraphUrl f =
     bindr (response_anchors (fetch (query_request subgraphUrl (anchors_query (where_args f))))) (\<lambda>v.
     bindr (js_array v) (\<lambda>xs. Inr (map with_builder xs)))"

text \<open>A value without a length compares as false.  (A text in the place of the list is not considered.)\<close>

definition getAuditTrail :: "(http_request \<Rightarrow> fetch_outcome) \<Rightarrow> string \<Rightarrow> string \<Rightarrow> js_exn + json option" where
  "getAuditTrail fetch subgraphUrl txHash =
     bindr (response_anchors (fetch (query_request subgraphUrl
              (anchors_query (''(where: { txHash: '' @ quoted txHash @ '' })''))))) (\<lambda>v.
     case v of
       None \<Rightarrow> Inl (TypeError ''Cannot read properties of undefined (reading length)'')
     | Some JNull \<Rightarrow> Inl (TypeError ''Cannot read properties of null (reading length)'')
     | Some (JArr (x # xs)) \<Rightarrow> Inr (Some (with_builder x))
     | Some _ \<Rightarrow> Inr None)"

text \<open>The two statistics; rates are exact decimals.\<close>

definition getBuilderScore :: "string \<Rightarrow> nat \<times> rat \<times> nat" where
  "getBuilderScore builderAddress = (1250, 94 / 100, 52)"

definition getNetworkStats :: "nat \<times> nat \<times> rat" where
  "getNetworkStats = (85420, 42, 89 / 100)"

section \<open>What comes back\<close>

text \<open>
  The type of an entry.  If a query returns, the answer was an array, and each entry is, in
  the same order, an object with a builder address, which is always the placeholder, also
  where the server sent one, and otherwise with the own properties of what the server sent.
\<close>

lemma ct_entries_typed:
  assumes "queryAnchors fetch url f = Inr es"
  shows "\<exists>xs. response_anchors (fetch (query_request url (anchors_query (where_args f)))) = Inr (Some (JArr xs)) \<and>
     list_all2 (\<lambda>x e. \<exists>fs. e = JObj fs \<and> jm_get ''builderAddress'' fs = Some (JStr ''0x'') \<and>
        (\<forall>k. k \<noteq> ''builderAddress'' \<longrightarrow> jm_get k fs = jm_get k (js_fields x))) xs es"
proof -
  obtain v xs where v: "response_anchors (fetch (query_request url (anchors_query (where_args f)))) = Inr v"
      "js_array v = Inr xs" and es: "es = map with_builder xs"
    using assms by (auto simp: queryAnchors_def result_simps)
  then have "v = Some (JArr xs)" by (auto simp: js_array_def split: option.splits json.splits)
  moreover have "list_all2 (\<lambda>x e. \<exists>fs. e = JObj fs \<and> jm_get ''builderAddress'' fs = Some (JStr ''0x'') \<and>
        (\<forall>k. k \<noteq> ''builderAddress'' \<longrightarrow> jm_get k fs = jm_get k (js_fields x))) xs es"
    unfolding es list_all2_map2 by (rule list_all2_refl) (simp add: with_builder_def)
  ultimately show ?thesis using v(1) by blast
qed

text \<open>A start time of zero puts no bound into the query.\<close>

lemma zero_start_dropped:
  "where_args (f\<lparr>af_startTime := Some 0\<rparr>) = where_args (f\<lparr>af_startTime := None\<rparr>)"
  by (simp add: where_args_def whereClause_def truthy_int_def)

end
