(* ===== verification/McpTools.thy ===== *)
theory McpTools
  imports TimeSynthesis PotSigner AdaptiveSwitch CtLog
begin

text \<open>
  The five tools of the MCP server (\<open>mcp/tools.ts\<close>), its call counters (\<open>mcp/telemetry.ts\<close>)
  and the replies of the server (\<open>mcp/index.ts\<close>).  The module's instances and its log are one
  state.  The integrity pipeline, whose source is not in the repository, the encoder, the hash
  and the texts of numbers, dates and JSON are one record of functions.  Every reading of the
  clock is an argument.  Text between quotes is ASCII: a dash of the source becomes a hyphen.
\<close>

section \<open>Telemetry\<close>

type_synonym counters = "(string, nat) jsmap"

definition telemetry_count :: "string \<Rightarrow> counters \<Rightarrow> nat" where
  "telemetry_count tool c = (case jm_get tool c of None \<Rightarrow> 0 | Some n \<Rightarrow> n)"

definition SUBGRAPH_URL :: string where
  "SUBGRAPH_URL = ''https://api.studio.thegraph.com/query/1744392/openttt-base-sepolia/v0.1.0''"

definition telemetry_request :: "string \<Rightarrow> nat \<Rightarrow> int \<Rightarrow> http_request" where
  "telemetry_request tool n now =
     \<lparr>rq_url = SUBGRAPH_URL, rq_method = ''POST'', rq_headers = [(''Content-Type'', ''application/json'')],
      rq_body = Some (JObj [(''query'', JStr ''{ _meta { block { number } } }''),
        (''extensions'', JObj [(''telemetry'', JObj [(''tool'', JStr tool), (''count'', JNum (of_nat n)),
           (''ts'', JNum (of_int now)), (''pkg'', JStr ''@helm-protocol/ttt-mcp''), (''v'', JStr ''0.1.0'')])])])\<rparr>"

text \<open>The counter, and the request that is sent and forgotten.\<close>

definition telemetryIncrement :: "int \<Rightarrow> string \<Rightarrow> counters \<Rightarrow> counters \<times> http_request" where
  "telemetryIncrement now tool c =
     (let n = telemetry_count tool c + 1 in (jm_set tool n c, telemetry_request tool n now))"

definition getTelemetryCounts :: "counters \<Rightarrow> counters" where
  "getTelemetryCounts c = c"

section \<open>State\<close>

definition POT_LOG_MAX :: nat where "POT_LOG_MAX = 10000"

record mcp_anchor =
  ma_potHash :: string
  ma_timestamp :: string
  ma_stratum :: int
  ma_mode :: string
  ma_chainId :: rat
  ma_poolAddress :: string
  ma_createdAt :: int

record 'k mcp_state =
  timeSynth :: time_synthesis
  adaptiveSwitch :: adaptive_switch
  potSigner :: "'k pot_signer"
  startedAt :: int
  potLog :: "mcp_anchor list"
  ms_counters :: counters

record 'k mcp_lib =
  ml_crypto :: "'k ed25519"
  ml_abi_encode :: "string list \<Rightarrow> int list \<Rightarrow> js_exn + bytes"
  ml_keccak256 :: "bytes \<Rightarrow> string"
  processForward :: "bytes \<Rightarrow> rat \<Rightarrow> string \<Rightarrow> js_exn + bytes list"
  processInverse :: "bytes list \<Rightarrow> int \<Rightarrow> rat \<Rightarrow> string \<Rightarrow> js_exn + bytes"
  show_num :: "rat \<Rightarrow> string"
  show_iso :: "int \<Rightarrow> string"
  pretty :: "json \<Rightarrow> string"

text \<open>The instances the module makes when it is loaded.\<close>

definition mcp_start :: "'k mcp_lib \<Rightarrow> 'k \<Rightarrow> int \<Rightarrow> js_exn + 'k mcp_state" where
  "mcp_start L fresh now =
     bindr (TimeSynthesis None) (\<lambda>ts. bindr (PotSigner (ml_crypto L) fresh None) (\<lambda>signer.
       Inr \<lparr>timeSynth = ts, adaptiveSwitch = AdaptiveSwitch None, potSigner = signer, startedAt = now,
            potLog = [], ms_counters = []\<rparr>))"

definition count_call :: "int \<Rightarrow> string \<Rightarrow> 'k mcp_state \<Rightarrow> 'k mcp_state" where
  "count_call now tool s = s\<lparr>ms_counters := fst (telemetryIncrement now tool (ms_counters s))\<rparr>"

text \<open>\<open>serialize\<close> turns every \<open>bigint\<close> into its text.\<close>

fun serialize_json :: "json \<Rightarrow> json" where
  "serialize_json (JBig i) = JStr (show_int i)"
| "serialize_json (JArr xs) = JArr (map serialize_json xs)"
| "serialize_json (JObj fs) = JObj (map (\<lambda>(k, v). (k, serialize_json v)) fs)"
| "serialize_json v = v"

definition jint :: "int \<Rightarrow> json" where "jint i = JNum (of_int i)"

section \<open>Generating\<close>

record generate_args =
  ga_txHash :: string
  ga_chainId :: rat
  ga_poolAddress :: string

text \<open>What the call meets: the sources, the random bytes and the clock at each place that reads it.\<close>

record generate_env =
  ge_results :: "time_reading settle list"
  ge_rand :: bytes
  ge_issued :: int
  ge_expCheck :: int
  ge_nonceTime :: int
  ge_signed :: int
  ge_created :: int

definition anchor_entry :: "string \<Rightarrow> proof_of_time \<Rightarrow> generate_args \<Rightarrow> adaptive_mode \<Rightarrow> int \<Rightarrow> mcp_anchor" where
  "anchor_entry potHash pot a mode now =
     \<lparr>ma_potHash = potHash, ma_timestamp = show_int (pot_timestamp pot), ma_stratum = pot_stratum pot,
      ma_mode = mode_text mode, ma_chainId = ga_chainId a, ma_poolAddress = ga_poolAddress a, ma_createdAt = now\<rparr>"

definition push_log :: "mcp_anchor \<Rightarrow> mcp_anchor list \<Rightarrow> mcp_anchor list" where
  "push_log e l = (let l' = l @ [e] in if length l' > POT_LOG_MAX then tl l' else l')"

definition generate_reply :: "string \<Rightarrow> proof_of_time \<Rightarrow> bytes list \<Rightarrow> pot_signature \<Rightarrow> json" where
  "generate_reply potHash pot grgShards sig =
     JObj [(''potHash'', JStr potHash), (''timestamp'', JStr (show_int (pot_timestamp pot))),
           (''stratum'', jint (pot_stratum pot)), (''uncertainty'', JNum (pot_uncertainty pot)),
           (''confidence'', JNum (pot_confidence pot)), (''sources'', JNum (of_nat (pot_sources pot))),
           (''nonce'', JStr (pot_nonce pot)), (''expiresAt'', JStr (show_int (expiresAt pot))),
           (''grgShards'', JArr (map (\<lambda>s. JStr (hex_encode s)) grgShards)),
           (''signature'', JObj [(''issuerPubKey'', JStr (issuerPubKey sig)),
                                 (''signature'', JStr (sig_signature sig)),
                                 (''issuedAt'', JStr (show_int (issuedAt sig)))])]"

definition potGenerate ::
    "'k mcp_lib \<Rightarrow> generate_env \<Rightarrow> generate_args \<Rightarrow> 'k mcp_state \<Rightarrow> json settle \<times> 'k mcp_state" where
  "potGenerate L env a s0 =
     (let s1 = count_call (ge_issued env) ''pot_generate'' s0 in
      case generateProofOfTime (ge_results env) (ge_rand env) (ge_issued env) (ge_expCheck env) (ge_nonceTime env)
             (timeSynth s1) of
        (Uncaught e, ts) \<Rightarrow> (Uncaught e, s1\<lparr>timeSynth := ts\<rparr>)
      | (Rejected e, ts) \<Rightarrow> (Rejected e, s1\<lparr>timeSynth := ts\<rparr>)
      | (Fulfilled pot, ts) \<Rightarrow>
          (case bindr (getOnChainHash (ml_abi_encode L) (ml_keccak256 L) pot) (\<lambda>potHash.
                bindr (processForward L (utf8_encode (ga_txHash a)) (ga_chainId a) (ga_poolAddress a)) (\<lambda>grgShards.
                Inr (potHash, grgShards))) of
             Inl e \<Rightarrow> (Rejected e, s1\<lparr>timeSynth := ts\<rparr>)
           | Inr (potHash, grgShards) \<Rightarrow>
               (let signature = signPot (ml_crypto L) (ge_signed env) potHash (potSigner s1);
                    entry = anchor_entry potHash pot a (getCurrentMode (adaptiveSwitch s1)) (ge_created env)
                in (Fulfilled (serialize_json (generate_reply potHash pot grgShards signature)),
                    s1\<lparr>timeSynth := ts, potLog := push_log entry (potLog s1)\<rparr>))))"

section \<open>Verifying\<close>

record given_signature =
  gs_issuerPubKey :: string
  gs_signature :: string
  gs_issuedAt :: string

record verify_args =
  va_potHash :: string
  va_grgShards :: "string list"
  va_chainId :: rat
  va_poolAddress :: string
  va_signature :: "given_signature option"

definition mode_label :: "adaptive_switch \<Rightarrow> string" where
  "mode_label sw = (if getCurrentMode sw = TURBO then ''turbo'' else ''full'')"

text \<open>The length of what the pipeline recovers; a throw counts as nothing.\<close>

definition recovered_size :: "'k mcp_lib \<Rightarrow> verify_args \<Rightarrow> nat" where
  "recovered_size L a =
     (case processInverse L (map hex_decode (va_grgShards a)) 0 (va_chainId a) (va_poolAddress a) of
        Inl e \<Rightarrow> 0 | Inr r \<Rightarrow> length r)"

definition given_signature_ok :: "'k mcp_lib \<Rightarrow> verify_args \<Rightarrow> js_exn + bool" where
  "given_signature_ok L a =
     (case va_signature a of
        None \<Rightarrow> Inr True
      | Some g \<Rightarrow>
          bindr (js_BigInt (Some (JStr (gs_issuedAt g)))) (\<lambda>issued.
          Inr (verifyPotSignature (ml_crypto L) (va_potHash a)
                 \<lparr>issuerPubKey = gs_issuerPubKey g, sig_signature = gs_signature g, issuedAt = issued\<rparr> None)))"

definition verify_failure :: "verify_args \<Rightarrow> adaptive_switch \<Rightarrow> int \<Rightarrow> json" where
  "verify_failure a sw now =
     JObj [(''valid'', JBool False),
           (''reason'', JStr ''HMAC integrity check failed - GRG shards tampered or mismatched context''),
           (''mode'', JStr (mode_label sw)), (''potHash'', JStr (va_potHash a)),
           (''reconstructedBytes'', JNum 0), (''verifiedAt'', jint now)]"

definition verify_reply :: "verify_args \<Rightarrow> adaptive_switch \<Rightarrow> nat \<Rightarrow> bool \<Rightarrow> int \<Rightarrow> json" where
  "verify_reply a sw recovered ed25519Valid now =
     JObj ([(''valid'', JBool ed25519Valid)]
       @ (if ed25519Valid then [] else [(''reason'', JStr ''Ed25519 signature verification failed'')])
       @ [(''mode'', JStr (mode_label sw)), (''potHash'', JStr (va_potHash a)),
          (''reconstructedBytes'', JNum (of_nat recovered)),
          (''checks'', JObj [(''hmac'', JBool True), (''ed25519'', JBool ed25519Valid)]),
          (''verifiedAt'', jint now)])"

definition potVerify ::
    "'k mcp_lib \<Rightarrow> int \<Rightarrow> verify_args \<Rightarrow> 'k mcp_state \<Rightarrow> json settle \<times> 'k mcp_state" where
  "potVerify L now a s0 =
     (let s1 = count_call now ''pot_verify'' s0; recovered = recovered_size L a in
      if recovered = 0 then (Fulfilled (serialize_json (verify_failure a (adaptiveSwitch s1) now)), s1)
      else case given_signature_ok L a of
             Inl e \<Rightarrow> (Rejected e, s1)
           | Inr ok \<Rightarrow> (Fulfilled (serialize_json (verify_reply a (adaptiveSwitch s1) recovered ok now)), s1))"

section \<open>Querying\<close>

record query_args =
  qa_startTime :: "rat option"
  qa_endTime :: "rat option"
  qa_limit :: "rat option"

definition js_trunc :: "rat \<Rightarrow> int" where
  "js_trunc r = (if r < 0 then \<lceil>r\<rceil> else \<lfloor>r\<rfloor>)"

text \<open>\<open>slice(n)\<close> of a list.\<close>

definition slice_from :: "rat \<Rightarrow> 'a list \<Rightarrow> 'a list" where
  "slice_from n xs =
     (let k = js_trunc n in if k < 0 then drop (length xs - nat (- k)) xs else drop (nat k) xs)"

definition query_limit :: "query_args \<Rightarrow> rat" where
  "query_limit a = min (case qa_limit a of None \<Rightarrow> 100 | Some n \<Rightarrow> n) 1000"

definition query_start :: "int \<Rightarrow> query_args \<Rightarrow> rat" where
  "query_start now a = (case qa_startTime a of None \<Rightarrow> of_int (now - 86400000) | Some t \<Rightarrow> t)"

definition query_end :: "int \<Rightarrow> query_args \<Rightarrow> rat" where
  "query_end now a = (case qa_endTime a of None \<Rightarrow> of_int now | Some t \<Rightarrow> t)"

definition local_entries :: "int \<Rightarrow> query_args \<Rightarrow> mcp_anchor list \<Rightarrow> mcp_anchor list" where
  "local_entries now a l =
     slice_from (- query_limit a)
       (filter (\<lambda>e. query_start now a \<le> of_int (ma_createdAt e) \<and> of_int (ma_createdAt e) \<le> query_end now a) l)"

definition potAnchors_query :: "'k mcp_lib \<Rightarrow> int \<Rightarrow> query_args \<Rightarrow> string" where
  "potAnchors_query L now a =
     ''{'' @ tline 6 ''potAnchors('' @ tline 8 (''first: '' @ show_num L (query_limit a) @ '','')
     @ tline 8 ''orderBy: blockTimestamp,'' @ tline 8 ''orderDirection: desc,''
     @ tline 8 (''where: { blockTimestamp_gte: '' @ quoted (show_int \<lfloor>query_start now a / 1000\<rfloor>)
                @ '', blockTimestamp_lte: '' @ quoted (show_int \<lfloor>query_end now a / 1000\<rfloor>) @ '' }'')
     @ tline 6 '') {'' @ tline 8 ''id'' @ tline 8 ''potHash'' @ tline 8 ''blockTimestamp'' @ tline 8 ''txHash''
     @ tline 6 ''}'' @ tline 4 ''}''"

text \<open>Optional chaining: \<open>undefined\<close> and \<open>null\<close> stop the chain.\<close>

definition opt_prop :: "string \<Rightarrow> json option \<Rightarrow> json option" where
  "opt_prop k v = (case v of None \<Rightarrow> None | Some j \<Rightarrow> (case js_prop k j of Inl e \<Rightarrow> None | Inr x \<Rightarrow> x))"

definition nullish_or :: "json \<Rightarrow> json option \<Rightarrow> json" where
  "nullish_or d v = (case v of None \<Rightarrow> d | Some j \<Rightarrow> if j = JNull then d else j)"

definition subgraph_entries :: "fetch_outcome \<Rightarrow> json" where
  "subgraph_entries out =
     (case out of
        FetchRejected e \<Rightarrow> JArr []
      | Fetched r \<Rightarrow>
          (if \<not> resp_ok r then JArr []
           else case bindr (rs_json r) (js_prop ''data'') of
                  Inl e \<Rightarrow> JArr []
                | Inr d \<Rightarrow> nullish_or (JArr []) (opt_prop ''potAnchors'' d)))"

definition anchor_json :: "mcp_anchor \<Rightarrow> json" where
  "anchor_json e =
     JObj [(''potHash'', JStr (ma_potHash e)), (''timestamp'', JStr (ma_timestamp e)), (''stratum'', jint (ma_stratum e)),
           (''mode'', JStr (ma_mode e)), (''chainId'', JNum (ma_chainId e)),
           (''poolAddress'', JStr (ma_poolAddress e)), (''createdAt'', jint (ma_createdAt e))]"

definition potQuery ::
    "'k mcp_lib \<Rightarrow> (http_request \<Rightarrow> fetch_outcome) \<Rightarrow> int \<Rightarrow> query_args \<Rightarrow> 'k mcp_state \<Rightarrow> json settle \<times> 'k mcp_state" where
  "potQuery L fetch now a s0 =
     (let s1 = count_call now ''pot_query'' s0
      in (Fulfilled (serialize_json (JObj
            [(''local'', JArr (map anchor_json (local_entries now a (potLog s1)))),
             (''subgraph'', subgraph_entries (fetch (query_request SUBGRAPH_URL (potAnchors_query L now a)))),
             (''totalLocal'', JNum (of_nat (length (potLog s1)))),
             (''query'', JObj [(''startTime'', JNum (query_start now a)), (''endTime'', JNum (query_end now a)),
                               (''limit'', JNum (query_limit a))])])), s1))"

section \<open>Statistics and health\<close>

datatype stats_period = Day | Week | Month

fun period_ms :: "stats_period \<Rightarrow> int" where
  "period_ms Day = 86400000"
| "period_ms Week = 604800000"
| "period_ms Month = 2592000000"

fun period_text :: "stats_period \<Rightarrow> string" where
  "period_text Day = ''day''"
| "period_text Week = ''week''"
| "period_text Month = ''month''"

definition period_entries :: "int \<Rightarrow> stats_period \<Rightarrow> mcp_anchor list \<Rightarrow> mcp_anchor list" where
  "period_entries now p l = filter (\<lambda>e. now - period_ms p \<le> ma_createdAt e) l"

definition mode_count :: "adaptive_mode \<Rightarrow> mcp_anchor list \<Rightarrow> nat" where
  "mode_count m es = length (filter (\<lambda>e. ma_mode e = mode_text m) es)"

text \<open>\<open>+x.toFixed(4)\<close>, of the exact quotient.\<close>

definition turbo_ratio :: "mcp_anchor list \<Rightarrow> rat" where
  "turbo_ratio es =
     (if length es > 0 then of_int (js_round (of_nat (mode_count TURBO es) / of_nat (length es) * 10000)) / 10000 else 0)"

definition potStats :: "'k mcp_lib \<Rightarrow> int \<Rightarrow> stats_period \<Rightarrow> 'k mcp_state \<Rightarrow> json settle \<times> 'k mcp_state" where
  "potStats L now p s0 =
     (let s1 = count_call now ''pot_stats'' s0; es = period_entries now p (potLog s1)
      in (Fulfilled (serialize_json (JObj
            [(''period'', JStr (period_text p)), (''totalSwaps'', JNum (of_nat (length es))),
             (''turboCount'', JNum (of_nat (mode_count TURBO es))), (''fullCount'', JNum (of_nat (mode_count FULL es))),
             (''turboRatio'', JNum (turbo_ratio es)),
             (''currentMode'', JStr (mode_text (getCurrentMode (adaptiveSwitch s1)))),
             (''windowStart'', JStr (show_iso L (now - period_ms p))), (''windowEnd'', JStr (show_iso L now))])), s1))"

text \<open>The race between the synthesis and a timer of five seconds: \<open>None\<close> when the timer wins.\<close>

definition health_time :: "time_reading settle list option \<Rightarrow> time_synthesis \<Rightarrow> (string \<times> nat) settle" where
  "health_time race ts =
     (case race of
        None \<Rightarrow> Fulfilled (''unhealthy'', 0)
      | Some results \<Rightarrow>
          (case synthesize results ts of
             Uncaught e \<Rightarrow> Uncaught e
           | Rejected e \<Rightarrow> Fulfilled (''unhealthy'', 0)
           | Fulfilled st \<Rightarrow> Fulfilled (if st_sources st \<ge> 2 then ''healthy'' else ''degraded'', st_sources st)))"

definition health_subgraph :: "fetch_outcome \<Rightarrow> json \<times> string" where
  "health_subgraph out =
     (case out of
        FetchRejected e \<Rightarrow> (JNum 0, ''unreachable'')
      | Fetched r \<Rightarrow>
          (if \<not> resp_ok r then (JNum 0, ''unknown'')
           else case bindr (rs_json r) (js_prop ''data'') of
                  Inl e \<Rightarrow> (JNum 0, ''unreachable'')
                | Inr d \<Rightarrow>
                    (let m = opt_prop ''_meta'' d in
                     (nullish_or (JNum 0) (opt_prop ''number'' (opt_prop ''block'' m)),
                      if js_truthy (opt_prop ''hasIndexingErrors'' m) then ''indexing_errors'' else ''synced''))))"

text \<open>\<open>toFixed(1)\<close>, with the sign written first.\<close>

definition to_fixed1 :: "rat \<Rightarrow> string" where
  "to_fixed1 r =
     (let n = js_round (\<bar>r\<bar> * 10) in
      (if r < 0 then ''-'' else []) @ show_int (n div 10) @ ''.'' @ show_int (n mod 10))"

definition potHealth ::
    "(http_request \<Rightarrow> fetch_outcome) \<Rightarrow> time_reading settle list option \<Rightarrow> int \<Rightarrow> 'k mcp_state
     \<Rightarrow> json settle \<times> 'k mcp_state" where
  "potHealth fetch race now s0 =
     (let s1 = count_call now ''pot_health'' s0 in
      case health_time race (timeSynth s1) of
        Uncaught e \<Rightarrow> (Uncaught e, s1)
      | Rejected e \<Rightarrow> (Rejected e, s1)
      | Fulfilled (timeStatus, synthSources) \<Rightarrow>
          (let (latestBlock, syncStatus) =
                 health_subgraph (fetch (query_request SUBGRAPH_URL ''{ _meta { block { number } hasIndexingErrors } }''));
               uptimeMs = now - startedAt s1
           in (Fulfilled (serialize_json (JObj
                 [(''status'', JStr (if timeStatus = ''healthy'' then ''ok'' else timeStatus)),
                  (''timeSources'', JObj [(''status'', JStr timeStatus), (''activeSources'', JNum (of_nat synthSources))]),
                  (''subgraph'', JObj [(''latestBlock'', latestBlock), (''syncStatus'', JStr syncStatus)]),
                  (''server'', JObj [(''uptime'', jint uptimeMs),
                     (''uptimeHuman'', JStr (to_fixed1 (of_int uptimeMs / 3600000) @ ''h'')),
                     (''potCount'', JNum (of_nat (length (potLog s1)))),
                     (''currentMode'', JStr (mode_text (getCurrentMode (adaptiveSwitch s1)))),
                     (''signerPubKey'', JStr (getPubKeyHex (potSigner s1)))])])), s1)))"

section \<open>The server\<close>

record mcp_reply =
  mr_text :: string
  mr_isError :: bool

text \<open>A tool's result becomes its text; a rejection becomes an error text; a throw in a callback is neither.\<close>

definition tool_reply :: "'k mcp_lib \<Rightarrow> json settle \<times> 'k mcp_state \<Rightarrow> mcp_reply option \<times> 'k mcp_state" where
  "tool_reply L = (\<lambda>(out, s).
     (case out of
        Fulfilled v \<Rightarrow> Some \<lparr>mr_text = pretty L v, mr_isError = False\<rparr>
      | Rejected e \<Rightarrow> Some \<lparr>mr_text = ''Error: '' @ exn_message e, mr_isError = True\<rparr>
      | Uncaught e \<Rightarrow> None, s))"

datatype mcp_request =
    ReqGenerate generate_env generate_args
  | ReqVerify int verify_args
  | ReqQuery "http_request \<Rightarrow> fetch_outcome" int query_args
  | ReqStats int stats_period
  | ReqHealth "http_request \<Rightarrow> fetch_outcome" "time_reading settle list option" int

fun mcp_handle :: "'k mcp_lib \<Rightarrow> mcp_request \<Rightarrow> 'k mcp_state \<Rightarrow> mcp_reply option \<times> 'k mcp_state" where
  "mcp_handle L (ReqGenerate env a) s = tool_reply L (potGenerate L env a s)"
| "mcp_handle L (ReqVerify now a) s = tool_reply L (potVerify L now a s)"
| "mcp_handle L (ReqQuery fetch now a) s = tool_reply L (potQuery L fetch now a s)"
| "mcp_handle L (ReqStats now p) s = tool_reply L (potStats L now p s)"
| "mcp_handle L (ReqHealth fetch race now) s = tool_reply L (potHealth fetch race now s)"

definition mcp_run :: "'k mcp_lib \<Rightarrow> mcp_request list \<Rightarrow> 'k mcp_state \<Rightarrow> 'k mcp_state" where
  "mcp_run L rs s = fold (\<lambda>r st. snd (mcp_handle L r st)) rs s"

section \<open>A generated proof verifies\<close>

lemma serialize_generate_reply: "serialize_json (generate_reply h pot shards sig) = generate_reply h pot shards sig"
  by (simp add: generate_reply_def jint_def)

lemma potGenerate_Fulfilled:
  assumes "potGenerate L env a s0 = (Fulfilled v, s1)"
  shows "\<exists>pot h shards. processForward L (utf8_encode (ga_txHash a)) (ga_chainId a) (ga_poolAddress a) = Inr shards \<and>
           v = generate_reply h pot shards (signPot (ml_crypto L) (ge_signed env) h (potSigner s0))"
  using assms unfolding potGenerate_def
  by (auto simp: Let_def result_simps serialize_generate_reply count_call_def
      split: prod.splits settle.splits sum.splits)

lemma verify_reply_valid:
  "jm_get ''valid'' (js_fields (serialize_json (verify_reply a sw n ok now))) = Some (JBool ok)"
  by (simp add: verify_reply_def jm_get_def)

lemma verify_failure_valid:
  "jm_get ''valid'' (js_fields (serialize_json (verify_failure a sw now))) = Some (JBool False)"
  by (simp add: verify_failure_def jm_get_def)

definition own_signature :: "pot_signature \<Rightarrow> given_signature" where
  "own_signature sig =
     \<lparr>gs_issuerPubKey = issuerPubKey sig, gs_signature = sig_signature sig, gs_issuedAt = show_int (issuedAt sig)\<rparr>"

text \<open>
  C25. What \<open>pot_verify\<close> says of a generated proof.  The reply of \<open>pot_generate\<close> carries the shards that the
  pipeline made of the transaction hash.  Its hash and signature, handed back with any shards, any
  chain and any pool, never make \<open>pot_verify\<close> throw, on any server and at any time; the signature
  always passes, and the answer is valid exactly if the pipeline, asked with the length 0, recovers at
  least one byte from those shards.  So shards of any other transaction that the pipeline accepts
  do as well as the proof's own.
\<close>

theorem mcp_generated_verifies:
  assumes laws: "ed25519_laws (ml_crypto L)" and key: "signer_ok (ml_crypto L) (potSigner s0)"
    and gen: "potGenerate L env a s0 = (Fulfilled v, s1)"
  shows "\<exists>h shards sig.
     processForward L (utf8_encode (ga_txHash a)) (ga_chainId a) (ga_poolAddress a) = Inr shards \<and>
     jm_get ''potHash'' (js_fields v) = Some (JStr h) \<and>
     jm_get ''grgShards'' (js_fields v) = Some (JArr (map (JStr \<circ> hex_encode) shards)) \<and>
     jm_get ''signature'' (js_fields v) = Some (JObj [(''issuerPubKey'', JStr (gs_issuerPubKey sig)),
        (''signature'', JStr (gs_signature sig)), (''issuedAt'', JStr (gs_issuedAt sig))]) \<and>
     (\<forall>given chain pool now s2. \<exists>w. fst (potVerify L now \<lparr>va_potHash = h, va_grgShards = map hex_encode given, va_chainId = chain,
              va_poolAddress = pool, va_signature = Some sig\<rparr> s2) = Fulfilled w \<and>
        jm_get ''valid'' (js_fields w) =
          Some (JBool (case processInverse L given 0 chain pool of Inl e \<Rightarrow> False | Inr recovered \<Rightarrow> recovered \<noteq> [])))"
proof -
  obtain pot h shards where fwd: "processForward L (utf8_encode (ga_txHash a)) (ga_chainId a) (ga_poolAddress a) = Inr shards"
    and v: "v = generate_reply h pot shards (signPot (ml_crypto L) (ge_signed env) h (potSigner s0))"
    using potGenerate_Fulfilled [OF gen] by blast
  define sig where "sig = signPot (ml_crypto L) (ge_signed env) h (potSigner s0)"
  have "\<exists>w. fst (potVerify L now \<lparr>va_potHash = h, va_grgShards = map hex_encode given, va_chainId = chain,
              va_poolAddress = pool, va_signature = Some (own_signature sig)\<rparr> s2) = Fulfilled w \<and>
        jm_get ''valid'' (js_fields w) =
          Some (JBool (case processInverse L given 0 chain pool of Inl e \<Rightarrow> False | Inr recovered \<Rightarrow> recovered \<noteq> []))"
    for given chain pool now s2
  proof -
    let ?a = "\<lparr>va_potHash = h, va_grgShards = map hex_encode given, va_chainId = chain,
              va_poolAddress = pool, va_signature = Some (own_signature sig)\<rparr>"
    have ok: "given_signature_ok L ?a = Inr True"
      using laws key by (simp add: given_signature_ok_def own_signature_def sig_def verifyPotSignature_def signPot_def
          signer_ok_def ed25519_laws_def)
    have "recovered_size L ?a = (case processInverse L given 0 chain pool of Inl e \<Rightarrow> 0 | Inr r \<Rightarrow> length r)"
      by (simp add: recovered_size_def comp_def)
    then show ?thesis
      using ok by (auto simp: potVerify_def Let_def verify_reply_valid verify_failure_valid split: sum.splits)
  qed
  then show ?thesis
    by (intro exI [of _ h] exI [of _ shards] exI [of _ "own_signature sig"])
       (simp add: v fwd generate_reply_def jm_get_def own_signature_def sig_def comp_def)
qed

section \<open>What the calls keep\<close>

fun request_tool :: "mcp_request \<Rightarrow> string" where
  "request_tool (ReqGenerate env a) = ''pot_generate''"
| "request_tool (ReqVerify now a) = ''pot_verify''"
| "request_tool (ReqQuery fetch now a) = ''pot_query''"
| "request_tool (ReqStats now p) = ''pot_stats''"
| "request_tool (ReqHealth fetch race now) = ''pot_health''"

lemma count_call_fields [simp]:
  "timeSynth (count_call now t s) = timeSynth s" "adaptiveSwitch (count_call now t s) = adaptiveSwitch s"
  "potSigner (count_call now t s) = potSigner s" "potLog (count_call now t s) = potLog s"
  "startedAt (count_call now t s) = startedAt s"
  "ms_counters (count_call now t s) = jm_set t (telemetry_count t (ms_counters s) + 1) (ms_counters s)"
  by (simp_all add: count_call_def telemetryIncrement_def Let_def)

lemma snd_tool_reply [simp]: "snd (tool_reply L r) = snd r"
  by (simp add: tool_reply_def split: prod.splits)

lemma potGenerate_state:
  "adaptiveSwitch (snd (potGenerate L env a s)) = adaptiveSwitch s"
  "potSigner (snd (potGenerate L env a s)) = potSigner s"
  "ms_counters (snd (potGenerate L env a s)) = ms_counters (count_call (ge_issued env) ''pot_generate'' s)"
  "potLog (snd (potGenerate L env a s)) = potLog s \<or>
   (\<exists>h pot. potLog (snd (potGenerate L env a s)) =
      push_log (anchor_entry h pot a (currentMode (adaptiveSwitch s)) (ge_created env)) (potLog s))"
  unfolding potGenerate_def
  by (auto simp: Let_def getCurrentMode_def simp del: count_call_fields(6)
      split: prod.splits settle.splits sum.splits)

lemma other_tools_state:
  "snd (potVerify L now va s) = count_call now ''pot_verify'' s"
  "snd (potQuery L fetch now qa s) = count_call now ''pot_query'' s"
  "snd (potStats L now p s) = count_call now ''pot_stats'' s"
  "snd (potHealth fetch race now s) = count_call now ''pot_health'' s"
  by (simp_all add: potVerify_def potQuery_def potStats_def potHealth_def Let_def case_prod_beta
      split: sum.splits settle.splits prod.splits)

definition log_ok :: "'k mcp_state \<Rightarrow> bool" where
  "log_ok s \<longleftrightarrow> length (potLog s) \<le> POT_LOG_MAX \<and> (\<forall>e \<in> set (potLog s). ma_mode e = ''FULL'') \<and>
     currentMode (adaptiveSwitch s) = FULL"

interpretation log: bounded_log push_log POT_LOG_MAX
  by unfold_locales (simp_all add: push_log_def POT_LOG_MAX_def)

lemma handle_log_ok: "log_ok s \<Longrightarrow> log_ok (snd (mcp_handle L r s))"
proof (cases r)
  case (ReqGenerate env a)
  assume s: "log_ok s"
  let ?s = "snd (potGenerate L env a s)"
  have "length (potLog ?s) \<le> POT_LOG_MAX \<and> (\<forall>e \<in> set (potLog ?s). ma_mode e = ''FULL'')"
    using potGenerate_state(4) [of L env a s] log.push_length [of "potLog s"] log.push_set [of "potLog s"] s
    by (fastforce simp: log_ok_def anchor_entry_def)
  then show ?thesis using s by (simp add: ReqGenerate log_ok_def potGenerate_state(1))
qed (simp_all add: log_ok_def other_tools_state)

lemma handle_counters:
  "ms_counters (snd (mcp_handle L r s)) =
     jm_set (request_tool r) (telemetry_count (request_tool r) (ms_counters s) + 1) (ms_counters s)"
  by (cases r) (simp_all add: other_tools_state potGenerate_state(3))

lemma run_counters:
  "telemetry_count t (ms_counters (mcp_run L rs s)) =
     telemetry_count t (ms_counters s) + length (filter (\<lambda>r. request_tool r = t) rs)"
proof (induction rs arbitrary: s)
  case (Cons r rs)
  have "telemetry_count t (ms_counters (snd (mcp_handle L r s))) =
      telemetry_count t (ms_counters s) + (if request_tool r = t then 1 else 0)"
    by (simp add: handle_counters telemetry_count_def)
  then show ?case using Cons [of "snd (mcp_handle L r s)"] by (simp add: mcp_run_def)
qed (simp add: mcp_run_def)

interpretation handled: kept "\<lambda>r s. snd (mcp_handle L r s)" log_ok for L
  by unfold_locales (rule handle_log_ok)

lemma no_turbo:
  "(\<forall>e \<in> set es. ma_mode e = ''FULL'') \<Longrightarrow> turbo_ratio es = 0 \<and> mode_count FULL es = length es"
  by (simp add: turbo_ratio_def mode_count_def filter_True js_round_of_int [of 0, simplified] cong: filter_cong)

text \<open>
  What a server keeps over any sequence of calls, with any answers of the network.  The log
  never exceeds 10000 entries; every entry is in the mode FULL, because no tool ever gives
  the switch a block, so the turbo ratio of every period is 0 and all swaps are full; and
  the counter of each tool is the number of its calls.
\<close>

theorem mcp_state_kept:
  fixes s0 rs L fresh t0
  assumes "mcp_start L fresh t0 = Inr s0"
  defines "s \<equiv> mcp_run L rs s0"
  shows "length (potLog s) \<le> 10000 \<and> currentMode (adaptiveSwitch s) = FULL \<and>
         turbo_ratio (period_entries now p (potLog s)) = 0 \<and>
         mode_count FULL (period_entries now p (potLog s)) = length (period_entries now p (potLog s)) \<and>
         telemetry_count tool (getTelemetryCounts (ms_counters s)) = length (filter (\<lambda>r. request_tool r = tool) rs)"
proof -
  have init: "potLog s0 = []" "adaptiveSwitch s0 = AdaptiveSwitch None" "ms_counters s0 = []"
    using assms(1) by (auto simp: mcp_start_def bindr_Inr)
  then have "log_ok s0" by (simp add: log_ok_def AdaptiveSwitch_def)
  then have ok: "log_ok s" unfolding s_def mcp_run_def by (rule handled.run)
  then have "\<forall>e \<in> set (period_entries now p (potLog s)). ma_mode e = ''FULL''"
    by (simp add: log_ok_def period_entries_def)
  then show ?thesis
    using ok no_turbo run_counters [of tool L rs s0]
    by (simp add: s_def log_ok_def POT_LOG_MAX_def init telemetry_count_def getTelemetryCounts_def)
qed

definition toy_mcp :: "nat mcp_lib" where
  "toy_mcp = \<lparr>ml_crypto = toy_ed25519, ml_abi_encode = (\<lambda>ts vs. Inr [1]), ml_keccak256 = (\<lambda>b. ''0xab''),
     processForward = (\<lambda>d c p. Inr [d]), processInverse = (\<lambda>sh k c p. Inr (concat sh)),
     show_num = (\<lambda>r. []), show_iso = (\<lambda>i. []), pretty = (\<lambda>v. [])\<rparr>"

lemma toy_mcp_starts: "\<exists>s0. mcp_start toy_mcp 3 0 = Inr s0 \<and> potSigner s0 = \<lparr>privateKey = 3, pubKeyHex = hex_encode [2, 2, 2]\<rparr>
    \<and> usedNonces (timeSynth s0) = [] \<and> ts_sources (timeSynth s0) \<noteq> []"
  by (simp add: mcp_start_def TimeSynthesis_eq DEFAULT_SOURCE_NAMES_def named_sources_def PotSigner_def toy_mcp_def toy_ed25519_def numeral_3_eq_3)

lemma mcp_state_kept_witness:
  "\<exists>s0. mcp_start toy_mcp 3 0 = Inr s0 \<and>
     telemetry_count ''pot_stats'' (getTelemetryCounts (ms_counters
       (mcp_run toy_mcp [ReqStats 1 Day, ReqHealth (\<lambda>q. FetchRejected (JsError [])) None 2, ReqStats 3 Week] s0))) = 2"
proof -
  obtain s0 where s0: "mcp_start toy_mcp 3 0 = Inr s0" using toy_mcp_starts by blast
  show ?thesis
    using s0 mcp_state_kept [OF s0, of _ _ _ "''pot_stats''"] by (intro exI [of _ s0]) simp
qed

text \<open>A call that one source answers.\<close>

definition toy_call :: generate_env where
  "toy_call = \<lparr>ge_results = [Fulfilled \<lparr>tr_timestamp = 1000, tr_uncertainty = 1, tr_stratum = 2, tr_source = ''a''\<rparr>],
     ge_rand = [7], ge_issued = 0, ge_expCheck = 0, ge_nonceTime = 0, ge_signed = 0, ge_created = 0\<rparr>"

lemma toy_mcp_generates:
  "usedNonces (timeSynth s0) = [] \<Longrightarrow> ts_sources (timeSynth s0) \<noteq> [] \<Longrightarrow>
   \<exists>v s1. potGenerate toy_mcp toy_call \<lparr>ga_txHash = ''0x1'', ga_chainId = 1, ga_poolAddress = ''p''\<rparr> s0 = (Fulfilled v, s1)"
  by (simp add: potGenerate_def toy_call_def generateProofOfTime_def select_time_def verifyProofOfTime_def Let_def
      nonce_cache_step_def toy_mcp_def getOnChainHash_def js_round_def reading_entry_def MAX_NONCE_CACHE_def jm_has_def
      getToleranceForStratum_def reading_tolerance_def tdiv_def)

text \<open>The shards of another transaction do.\<close>

lemma mcp_generated_verifies_witness:
  "\<exists>s0 v s1 h sig w. mcp_start toy_mcp 3 0 = Inr s0 \<and>
     potGenerate toy_mcp toy_call \<lparr>ga_txHash = ''0x1'', ga_chainId = 1, ga_poolAddress = ''p''\<rparr> s0 = (Fulfilled v, s1) \<and>
     jm_get ''potHash'' (js_fields v) = Some (JStr h) \<and>
     fst (potVerify toy_mcp 5 \<lparr>va_potHash = h, va_grgShards = map hex_encode [[1, 2, 3]], va_chainId = 9, va_poolAddress = ''q'',
            va_signature = Some sig\<rparr> s1) = Fulfilled w \<and>
     jm_get ''valid'' (js_fields w) = Some (JBool True)"
proof -
  obtain s0 where s0: "mcp_start toy_mcp 3 0 = Inr s0" "usedNonces (timeSynth s0) = []" "ts_sources (timeSynth s0) \<noteq> []"
    and k: "potSigner s0 = \<lparr>privateKey = 3, pubKeyHex = hex_encode [2, 2, 2]\<rparr>" using toy_mcp_starts by blast
  obtain v s1 where g: "potGenerate toy_mcp toy_call \<lparr>ga_txHash = ''0x1'', ga_chainId = 1, ga_poolAddress = ''p''\<rparr> s0 = (Fulfilled v, s1)"
    using toy_mcp_generates [OF s0(2,3)] by blast
  have "ed25519_laws (ml_crypto toy_mcp)" "signer_ok (ml_crypto toy_mcp) (potSigner s0)"
    by (simp_all add: toy_mcp_def toy_ed25519_def ed25519_laws_def signer_ok_def k numeral_3_eq_3)
  from mcp_generated_verifies [OF this g] obtain h sig where h: "jm_get ''potHash'' (js_fields v) = Some (JStr h)"
    and w: "\<exists>w. fst (potVerify toy_mcp 5 \<lparr>va_potHash = h, va_grgShards = map hex_encode [[1, 2, 3]], va_chainId = 9,
              va_poolAddress = ''q'', va_signature = Some sig\<rparr> s1) = Fulfilled w \<and>
        jm_get ''valid'' (js_fields w) =
          Some (JBool (case processInverse toy_mcp [[1, 2, 3]] 0 9 ''q'' of Inl e \<Rightarrow> False | Inr recovered \<Rightarrow> recovered \<noteq> []))"
    by blast
  show ?thesis using s0(1) g h w by (auto simp: toy_mcp_def)
qed

section \<open>What a query returns\<close>

text \<open>The entries of the window, oldest first.\<close>

definition window_entries :: "int \<Rightarrow> query_args \<Rightarrow> mcp_anchor list \<Rightarrow> mcp_anchor list" where
  "window_entries now a l =
     filter (\<lambda>e. query_start now a \<le> of_int (ma_createdAt e) \<and> of_int (ma_createdAt e) \<le> query_end now a) l"

lemma slice_tail:
  "slice_from (- r) xs = drop (if 1 \<le> r then length xs - nat \<lfloor>r\<rfloor> else nat \<lfloor>- r\<rfloor>) xs"
proof -
  have "js_trunc (- r) = (if 0 < r then - \<lfloor>r\<rfloor> else \<lfloor>- r\<rfloor>)"
    by (simp add: js_trunc_def ceiling_minus)
  moreover have "\<lfloor>r\<rfloor> = 0" if "0 < r" "\<not> 1 \<le> r" using that by (simp add: floor_eq_iff)
  moreover have "\<lfloor>- r\<rfloor> < 0" if "0 < r" using that by (simp add: floor_less_iff)
  moreover have "1 \<le> \<lfloor>r\<rfloor>" if "1 \<le> r" using that by (simp add: le_floor_iff)
  moreover have "0 \<le> \<lfloor>- r\<rfloor>" if "r \<le> 0" using that by (simp add: le_floor_iff)
  ultimately show ?thesis by (fastforce simp: slice_from_def Let_def)
qed

lemma potQuery_local:
  "\<exists>v. potQuery L fetch now a s = (Fulfilled v, count_call now ''pot_query'' s) \<and>
       jm_get ''local'' (js_fields v) = Some (JArr (map anchor_json (local_entries now a (potLog s))))"
proof -
  have "serialize_json (anchor_json e) = anchor_json e" for e by (simp add: anchor_json_def jint_def)
  then show ?thesis by (simp add: potQuery_def Let_def jm_get_def comp_def)
qed

text \<open>
  What a query returns of the log.  The local entries are a tail of the window's, the newest; for
  a limit of at least one there are as many as the window has up to the limit, and never
  more than 1000, whatever was asked; but a limit below one is no limit: zero returns the
  whole window, and a negative one cuts off the oldest entries only.
\<close>

theorem mcp_query_newest:
  "\<exists>v es old. potQuery L fetch now a s = (Fulfilled v, count_call now ''pot_query'' s) \<and>
     jm_get ''local'' (js_fields v) = Some (JArr (map anchor_json es)) \<and>
     window_entries now a (potLog s) = old @ es \<and>
     length es = (if 1 \<le> query_limit a then min (length (old @ es)) (nat \<lfloor>query_limit a\<rfloor>)
                  else length (old @ es) - nat \<lfloor>- query_limit a\<rfloor>) \<and>
     query_limit a \<le> 1000"
proof -
  let ?w = "window_entries now a (potLog s)" and ?r = "query_limit a"
  let ?n = "if 1 \<le> ?r then length ?w - nat \<lfloor>?r\<rfloor> else nat \<lfloor>- ?r\<rfloor>"
  have es: "local_entries now a (potLog s) = drop ?n ?w"
    unfolding local_entries_def window_entries_def [symmetric] by (rule slice_tail)
  have "length (drop ?n ?w) = (if 1 \<le> ?r then min (length ?w) (nat \<lfloor>?r\<rfloor>) else length ?w - nat \<lfloor>- ?r\<rfloor>)"
    by auto
  moreover have "?w = take ?n ?w @ drop ?n ?w" by simp
  moreover have "?r \<le> 1000" by (simp add: query_limit_def)
  ultimately show ?thesis
    using potQuery_local [of L fetch now a s] unfolding es by (metis append_take_drop_id)
qed

end
