(* ===== verification/McpAsync.thy ===== *)
theory McpAsync
  imports McpTools "HOL-Library.Multiset"
begin

text \<open>
  The MCP server with calls in flight (\<open>mcp/tools.ts\<close>).  The tools are asynchronous: a call
  runs up to an \<open>await\<close>, and other calls run before it goes on.  A generation has three such
  pieces (the counter; the synthesis, when the sources have answered; the rest, when its
  promise has resolved); a query asks the subgraph and waits for its answer; a health check first
  waits for the synthesis or its timer.  The wait for the subgraph is the code's: the timer of five
  seconds, the headers, and the body.  The pieces are interleaved in every order by an inductive
  relation.
\<close>

section \<open>Pieces\<close>

definition generate_synth :: "generate_env \<Rightarrow> 'k mcp_state \<Rightarrow> proof_of_time settle \<times> 'k mcp_state" where
  "generate_synth env s =
     (case generateProofOfTime (ge_results env) (ge_rand env) (ge_issued env) (ge_expCheck env) (ge_nonceTime env)
             (timeSynth s) of
        (out, ts) \<Rightarrow> (out, s\<lparr>timeSynth := ts\<rparr>))"

definition generate_entry :: "'k mcp_lib \<Rightarrow> generate_env \<Rightarrow> generate_args \<Rightarrow> proof_of_time \<Rightarrow> 'k mcp_state
    \<Rightarrow> js_exn + json \<times> mcp_anchor" where
  "generate_entry L env a pot s =
     bindr (getOnChainHash (ml_abi_encode L) (ml_keccak256 L) pot) (\<lambda>potHash.
     bindr (processForward L (utf8_encode (ga_txHash a)) (ga_chainId a) (ga_poolAddress a)) (\<lambda>grgShards.
     Inr (serialize_json (generate_reply potHash pot grgShards
            (signPot (ml_crypto L) (ge_signed env) potHash (potSigner s))),
          anchor_entry potHash pot a (getCurrentMode (adaptiveSwitch s)) (ge_created env))))"

definition generate_finish ::
    "'k mcp_lib \<Rightarrow> generate_env \<Rightarrow> generate_args \<Rightarrow> proof_of_time \<Rightarrow> 'k mcp_state \<Rightarrow> json settle \<times> 'k mcp_state" where
  "generate_finish L env a pot s =
     (case generate_entry L env a pot s of
        Inl e \<Rightarrow> (Rejected e, s)
      | Inr (reply, entry) \<Rightarrow> (Fulfilled reply, s\<lparr>potLog := push_log entry (potLog s)\<rparr>))"

text \<open>Run without interruption, the pieces are the tool.\<close>

lemma potGenerate_pieces:
  "potGenerate L env a s =
     (case generate_synth env (count_call (ge_issued env) ''pot_generate'' s) of
        (Fulfilled pot, s1) \<Rightarrow> generate_finish L env a pot s1
      | (Rejected e, s1) \<Rightarrow> (Rejected e, s1)
      | (Uncaught e, s1) \<Rightarrow> (Uncaught e, s1))"
  unfolding potGenerate_def generate_synth_def generate_finish_def generate_entry_def
  by (auto simp: Let_def bindr_def getCurrentMode_def split: prod.splits settle.splits sum.splits)

text \<open>A query filters the log before its \<open>fetch\<close>, and counts it after.\<close>

definition query_finish ::
    "'k mcp_lib \<Rightarrow> fetch_outcome \<Rightarrow> int \<Rightarrow> query_args \<Rightarrow> mcp_anchor list \<Rightarrow> 'k mcp_state \<Rightarrow> json" where
  "query_finish L out now a found s =
     serialize_json (JObj
       [(''local'', JArr (map anchor_json found)), (''subgraph'', subgraph_entries out),
        (''totalLocal'', JNum (of_nat (length (potLog s)))),
        (''query'', JObj [(''startTime'', JNum (query_start now a)), (''endTime'', JNum (query_end now a)),
                          (''limit'', JNum (query_limit a))])])"

lemma potQuery_pieces:
  "potQuery L fetch now a s =
     (let s1 = count_call now ''pot_query'' s
      in (Fulfilled (query_finish L (fetch (query_request SUBGRAPH_URL (potAnchors_query L now a))) now a
                       (local_entries now a (potLog s1)) s1), s1))"
  by (simp add: potQuery_def query_finish_def Let_def)

text \<open>A health check has three: the race of the synthesis with its timer, and the subgraph.\<close>

definition health_finish :: "fetch_outcome \<Rightarrow> int \<Rightarrow> string \<Rightarrow> nat \<Rightarrow> 'k mcp_state \<Rightarrow> json" where
  "health_finish out now timeStatus synthSources s =
     (let (latestBlock, syncStatus) = health_subgraph out; uptimeMs = now - startedAt s
      in serialize_json (JObj
           [(''status'', JStr (if timeStatus = ''healthy'' then ''ok'' else timeStatus)),
            (''timeSources'', JObj [(''status'', JStr timeStatus), (''activeSources'', JNum (of_nat synthSources))]),
            (''subgraph'', JObj [(''latestBlock'', latestBlock), (''syncStatus'', JStr syncStatus)]),
            (''server'', JObj [(''uptime'', jint uptimeMs),
               (''uptimeHuman'', JStr (to_fixed1 (of_int uptimeMs / 3600000) @ ''h'')),
               (''potCount'', JNum (of_nat (length (potLog s)))),
               (''currentMode'', JStr (mode_text (getCurrentMode (adaptiveSwitch s)))),
               (''signerPubKey'', JStr (getPubKeyHex (potSigner s)))])]))"

lemma potHealth_pieces:
  "potHealth fetch race now s =
     (let s1 = count_call now ''pot_health'' s in
      case health_time race (timeSynth s1) of
        Uncaught e \<Rightarrow> (Uncaught e, s1)
      | Rejected e \<Rightarrow> (Rejected e, s1)
      | Fulfilled (timeStatus, synthSources) \<Rightarrow>
          (Fulfilled (health_finish (fetch (query_request SUBGRAPH_URL ''{ _meta { block { number } hasIndexingErrors } }''))
                        now timeStatus synthSources s1), s1))"
  by (simp add: potHealth_def health_finish_def Let_def split: settle.splits prod.splits)

section \<open>Waiting for the subgraph\<close>

text \<open>
  What can happen to a \<open>fetch\<close> under the timer that aborts it: the headers arrive, the connection
  fails, the timer fires, the body arrives (or fails, or does not parse).  The status of a response is
  known with its headers; the timer is cleared at that moment, and the body is read only of
  a response that is ok.
\<close>

datatype fetch_event =
    FeHeaders int string
  | FeFails js_exn
  | FeTimer
  | FeBody "js_exn + json"

datatype fetch_wait =
    WaitHeaders
  | WaitBody int string
  | FetchDone fetch_outcome

definition aborted :: js_exn where "aborted = JsError ''This operation was aborted''"

definition status_ok :: "int \<Rightarrow> bool" where "status_ok st \<longleftrightarrow> 200 \<le> st \<and> st \<le> 299"

text \<open>The body of a response that is not ok is never looked at.\<close>

fun fetch_step :: "fetch_event \<Rightarrow> fetch_wait \<Rightarrow> fetch_wait" where
  "fetch_step (FeHeaders st t) WaitHeaders =
     (if status_ok st then WaitBody st t
      else FetchDone (Fetched \<lparr>rs_status = st, rs_statusText = t, rs_json = Inr JNull\<rparr>))"
| "fetch_step (FeFails e) WaitHeaders = FetchDone (FetchRejected e)"
| "fetch_step FeTimer WaitHeaders = FetchDone (FetchRejected aborted)"
| "fetch_step (FeBody b) (WaitBody st t) = FetchDone (Fetched \<lparr>rs_status = st, rs_statusText = t, rs_json = b\<rparr>)"
| "fetch_step _ w = w"

definition fetch_run :: "fetch_event list \<Rightarrow> fetch_wait" where
  "fetch_run evs = fold fetch_step evs WaitHeaders"

fun is_body :: "fetch_event \<Rightarrow> bool" where
  "is_body (FeBody b) = True"
| "is_body _ = False"

text \<open>The first body among the events.\<close>

fun body_of :: "fetch_event list \<Rightarrow> (js_exn + json) option" where
  "body_of [] = None"
| "body_of (FeBody b # evs) = Some b"
| "body_of (e # evs) = body_of evs"

lemma fetch_step_done [simp]: "fetch_step e (FetchDone out) = FetchDone out"
  by (cases e) simp_all

lemma fold_fetch_done [simp]: "fold fetch_step evs (FetchDone out) = FetchDone out"
  by (induction evs) simp_all

lemma fold_fetch_body:
  "fold fetch_step evs (WaitBody st t) =
     (case body_of evs of None \<Rightarrow> WaitBody st t
      | Some b \<Rightarrow> FetchDone (Fetched \<lparr>rs_status = st, rs_statusText = t, rs_json = b\<rparr>))"
  by (induction evs rule: body_of.induct) simp_all

lemma body_of_None: "body_of evs = None \<longleftrightarrow> list_all (\<lambda>e. \<not> is_body e) evs"
  by (induction evs rule: body_of.induct) simp_all

lemma fetch_run_eq:
  "fetch_run evs = (case dropWhile is_body evs of
     [] \<Rightarrow> WaitHeaders
   | e # post \<Rightarrow> fold fetch_step post (fetch_step e WaitHeaders))"
  unfolding fetch_run_def
proof (induction evs)
  case (Cons e evs)
  then show ?case by (cases e) simp_all
qed simp

lemma dropWhile_split: "dropWhile P xs = y # ys \<Longrightarrow> \<exists>pre. xs = pre @ y # ys \<and> list_all P pre \<and> \<not> P y"
  by (induction xs) (auto split: if_splits intro: exI [of _ "_ # _"])


section \<open>Interleavings\<close>

datatype mcp_task =
    AwaitSources generate_args
  | AwaitProof generate_env generate_args proof_of_time
  | AwaitQuery int query_args "mcp_anchor list" fetch_wait
  | AwaitRace
  | AwaitMeta string nat fetch_wait

record 'k mcp_server =
  sv_state :: "'k mcp_state"
  sv_tasks :: "mcp_task multiset"
  sv_called :: "string list"
  sv_logged :: "mcp_anchor list"
  sv_queries :: "json list"
  sv_healths :: "json list"

text \<open>
  \<open>sv_called\<close>, \<open>sv_logged\<close>, \<open>sv_queries\<close> and \<open>sv_healths\<close> record what has happened: the calls, the
  entries in the order they were pushed, the answers of the queries and of the health checks.  The
  two tools without an \<open>await\<close> run in one piece.  An event of a \<open>fetch\<close> moves its wait; a call
  goes on when the wait is done.  The race of a health check ends with an answer of the synthesis or,
  \<open>None\<close>, with its timer.  A date that throws in a callback of the sources ends the process: there is
  no step for it.
\<close>

inductive mcp_step :: "'k mcp_lib \<Rightarrow> 'k mcp_server \<Rightarrow> 'k mcp_server \<Rightarrow> bool" for L where
  generate_call: "mcp_step L v (v\<lparr>sv_state := count_call now ''pot_generate'' (sv_state v),
     sv_tasks := add_mset (AwaitSources a) (sv_tasks v), sv_called := sv_called v @ [''pot_generate'']\<rparr>)"
| sources_answer: "AwaitSources a \<in># sv_tasks v \<Longrightarrow> generate_synth env (sv_state v) = (Fulfilled pot, s) \<Longrightarrow>
     mcp_step L v (v\<lparr>sv_state := s, sv_tasks := add_mset (AwaitProof env a pot) (sv_tasks v - {#AwaitSources a#})\<rparr>)"
| sources_fail: "AwaitSources a \<in># sv_tasks v \<Longrightarrow> generate_synth env (sv_state v) = (Rejected e, s) \<Longrightarrow>
     mcp_step L v (v\<lparr>sv_state := s, sv_tasks := sv_tasks v - {#AwaitSources a#}\<rparr>)"
| proof_logged: "AwaitProof env a pot \<in># sv_tasks v \<Longrightarrow> generate_entry L env a pot (sv_state v) = Inr (reply, entry) \<Longrightarrow>
     mcp_step L v (v\<lparr>sv_state := snd (generate_finish L env a pot (sv_state v)),
       sv_tasks := sv_tasks v - {#AwaitProof env a pot#}, sv_logged := sv_logged v @ [entry]\<rparr>)"
| proof_fails: "AwaitProof env a pot \<in># sv_tasks v \<Longrightarrow> generate_entry L env a pot (sv_state v) = Inl e \<Longrightarrow>
     mcp_step L v (v\<lparr>sv_tasks := sv_tasks v - {#AwaitProof env a pot#}\<rparr>)"
| verify_call: "mcp_step L v (v\<lparr>sv_state := snd (potVerify L now va (sv_state v)), sv_called := sv_called v @ [''pot_verify'']\<rparr>)"
| stats_call: "mcp_step L v (v\<lparr>sv_state := snd (potStats L now p (sv_state v)), sv_called := sv_called v @ [''pot_stats'']\<rparr>)"
| query_call: "s = count_call now ''pot_query'' (sv_state v) \<Longrightarrow>
     mcp_step L v (v\<lparr>sv_state := s,
       sv_tasks := add_mset (AwaitQuery now a (local_entries now a (potLog s)) WaitHeaders) (sv_tasks v),
       sv_called := sv_called v @ [''pot_query'']\<rparr>)"
| query_event: "AwaitQuery now a found w \<in># sv_tasks v \<Longrightarrow>
     mcp_step L v (v\<lparr>sv_tasks := add_mset (AwaitQuery now a found (fetch_step e w)) (sv_tasks v - {#AwaitQuery now a found w#})\<rparr>)"
| query_answer: "AwaitQuery now a found (FetchDone out) \<in># sv_tasks v \<Longrightarrow>
     mcp_step L v (v\<lparr>sv_tasks := sv_tasks v - {#AwaitQuery now a found (FetchDone out)#},
       sv_queries := sv_queries v @ [query_finish L out now a found (sv_state v)]\<rparr>)"
| health_call: "mcp_step L v (v\<lparr>sv_state := count_call now ''pot_health'' (sv_state v),
     sv_tasks := add_mset AwaitRace (sv_tasks v), sv_called := sv_called v @ [''pot_health'']\<rparr>)"
| health_race: "AwaitRace \<in># sv_tasks v \<Longrightarrow> health_time race (timeSynth (sv_state v)) = Fulfilled (timeStatus, n) \<Longrightarrow>
     mcp_step L v (v\<lparr>sv_tasks := add_mset (AwaitMeta timeStatus n WaitHeaders) (sv_tasks v - {#AwaitRace#})\<rparr>)"
| health_event: "AwaitMeta timeStatus n w \<in># sv_tasks v \<Longrightarrow>
     mcp_step L v (v\<lparr>sv_tasks := add_mset (AwaitMeta timeStatus n (fetch_step e w)) (sv_tasks v - {#AwaitMeta timeStatus n w#})\<rparr>)"
| health_answer: "AwaitMeta timeStatus n (FetchDone out) \<in># sv_tasks v \<Longrightarrow>
     mcp_step L v (v\<lparr>sv_tasks := sv_tasks v - {#AwaitMeta timeStatus n (FetchDone out)#},
       sv_healths := sv_healths v @ [health_finish out now timeStatus n (sv_state v)]\<rparr>)"

definition server_start :: "'k mcp_state \<Rightarrow> 'k mcp_server" where
  "server_start s = \<lparr>sv_state = s, sv_tasks = {#}, sv_called = [], sv_logged = [], sv_queries = [], sv_healths = []\<rparr>"

inductive mcp_reach :: "'k mcp_lib \<Rightarrow> 'k mcp_state \<Rightarrow> 'k mcp_server \<Rightarrow> bool" for L s0 where
  start: "mcp_reach L s0 (server_start s0)"
| step: "mcp_reach L s0 v \<Longrightarrow> mcp_step L v v' \<Longrightarrow> mcp_reach L s0 v'"

section \<open>The invariant\<close>

lemma generate_synth_fields:
  assumes "generate_synth env s = (out, s')"
  shows "potLog s' = potLog s" "adaptiveSwitch s' = adaptiveSwitch s" "ms_counters s' = ms_counters s"
    "synthesis_ok (timeSynth s) \<Longrightarrow> synthesis_ok (timeSynth s')"
  using assms synthesis_step_ok [of "timeSynth s" "OpGenerate (ge_results env) (ge_rand env) (ge_issued env) (ge_expCheck env) (ge_nonceTime env)"]
  by (auto simp: generate_synth_def split: prod.splits)

lemma local_entries_length: "length (local_entries now a l) \<le> length l"
  unfolding local_entries_def slice_tail using length_filter_le by (simp add: le_diff_conv le_trans trans_le_add1)

definition pending_ok :: "nat \<Rightarrow> mcp_task \<Rightarrow> bool" where
  "pending_ok n t = (case t of AwaitQuery now a found w \<Rightarrow> length found \<le> n | _ \<Rightarrow> True)"

lemma pending_tasks [simp]:
  "pending_ok n (AwaitSources a)" "pending_ok n (AwaitProof env a pot)" "pending_ok n AwaitRace"
  "pending_ok n (AwaitMeta st k w)" "pending_ok n (AwaitQuery now qa found w) \<longleftrightarrow> length found \<le> n"
  by (simp_all add: pending_ok_def)

text \<open>The entries of an answer, and its count.\<close>

definition query_counts :: "json \<Rightarrow> nat \<Rightarrow> nat \<Rightarrow> bool" where
  "query_counts v k n \<longleftrightarrow>
     (\<exists>es. jm_get ''local'' (js_fields v) = Some (JArr es) \<and> length es = k) \<and>
     jm_get ''totalLocal'' (js_fields v) = Some (JNum (of_nat n))"

definition server_ok :: "'k mcp_server \<Rightarrow> bool" where
  "server_ok v \<longleftrightarrow>
     potLog (sv_state v) = newest POT_LOG_MAX (sv_logged v) \<and>
     currentMode (adaptiveSwitch (sv_state v)) = FULL \<and> synthesis_ok (timeSynth (sv_state v)) \<and>
     (\<forall>e \<in> set (sv_logged v). ma_mode e = ''FULL'') \<and>
     (\<forall>t \<in># sv_tasks v. pending_ok (length (potLog (sv_state v))) t) \<and>
     (\<forall>q \<in> set (sv_queries v). \<exists>k n. query_counts q k n \<and> k \<le> n \<and> n \<le> POT_LOG_MAX)"

lemma generate_finish_state:
  "generate_entry L env a pot s = Inr (reply, entry) \<Longrightarrow>
   snd (generate_finish L env a pot s) = s\<lparr>potLog := push_log entry (potLog s)\<rparr>"
  by (simp add: generate_finish_def)

lemma generate_entry_mode:
  "generate_entry L env a pot s = Inr (reply, entry) \<Longrightarrow> ma_mode entry = mode_text (currentMode (adaptiveSwitch s))"
  by (auto simp: generate_entry_def bindr_Inr anchor_entry_def getCurrentMode_def)

lemma query_finish_counts:
  "query_counts (query_finish L out now a found s) (length found) (length (potLog s))"
  by (simp add: query_counts_def query_finish_def jm_get_def)

lemma pending_mono: "pending_ok m t \<Longrightarrow> m \<le> n \<Longrightarrow> pending_ok n t"
  by (auto simp: pending_ok_def split: mcp_task.splits)

lemma server_ok_length: "server_ok v \<Longrightarrow> length (potLog (sv_state v)) \<le> POT_LOG_MAX"
  by (simp add: server_ok_def length_newest)

lemma step_ok: "mcp_step L v v' \<Longrightarrow> server_ok v \<Longrightarrow> server_ok v'"
proof (induction rule: mcp_step.induct)
  case (sources_answer a v env pot s)
  then show ?case
    using generate_synth_fields [OF sources_answer(2)]
    by (auto simp: server_ok_def dest: in_diffD)
next
  case (sources_fail a v env e s)
  then show ?case
    using generate_synth_fields [OF sources_fail(2)] by (auto simp: server_ok_def dest: in_diffD)
next
  case (proof_logged env a pot v reply entry)
  let ?l = "potLog (sv_state v)"
  have len: "length ?l \<le> length (push_log entry ?l)"
    using log.push_length server_ok_length [OF proof_logged(3)] by blast
  have "ma_mode entry = ''FULL''"
    using generate_entry_mode [OF proof_logged(2)] proof_logged(3) by (simp add: server_ok_def)
  moreover have "push_log entry ?l = newest POT_LOG_MAX (sv_logged v @ [entry])"
    using proof_logged(3) by (simp add: server_ok_def log.push_newest)
  moreover have "pending_ok (length (push_log entry ?l)) t" if "t \<in># sv_tasks v - {#AwaitProof env a pot#}" for t
    using that proof_logged(3) pending_mono [OF _ len] by (auto simp: server_ok_def dest: in_diffD)
  ultimately show ?case
    using proof_logged(3) generate_finish_state [OF proof_logged(2)] by (simp add: server_ok_def)
next
  case (query_call s now v a)
  then show ?case
    using local_entries_length [of now a "potLog (sv_state v)"] by (auto simp: server_ok_def)
next
  case (query_event now a found w v e)
  then show ?case by (auto simp: server_ok_def dest: in_diffD)
next
  case (query_answer now a found out v)
  have "length found \<le> length (potLog (sv_state v))"
    using query_answer by (auto simp: server_ok_def)
  then have "\<exists>k n. query_counts (query_finish L out now a found (sv_state v)) k n \<and> k \<le> n \<and> n \<le> POT_LOG_MAX"
    using query_finish_counts server_ok_length [OF query_answer(2)] by blast
  then show ?case
    using query_answer by (auto simp: server_ok_def dest: in_diffD)
qed (auto simp: server_ok_def other_tools_state dest: in_diffD)

text \<open>Each piece that starts a call counts it, once.\<close>

lemma step_counters:
  "mcp_step L v v' \<Longrightarrow> \<forall>t. telemetry_count t (ms_counters (sv_state v)) = count_list (sv_called v) t \<Longrightarrow>
   telemetry_count t (ms_counters (sv_state v')) = count_list (sv_called v') t"
proof (induction rule: mcp_step.induct)
  case (sources_answer a v env pot s)
  then show ?case using generate_synth_fields(3) [OF sources_answer(2)] by simp
next
  case (sources_fail a v env e s)
  then show ?case using generate_synth_fields(3) [OF sources_fail(2)] by simp
next
  case (proof_logged env a pot v reply entry)
  then show ?case using generate_finish_state [OF proof_logged(2)] by simp
qed (auto simp: other_tools_state telemetry_count_def)

lemma reach_ok:
  assumes "mcp_start L fresh t0 = Inr s0" "mcp_reach L s0 v"
  shows "server_ok v \<and> (\<forall>t. telemetry_count t (ms_counters (sv_state v)) = count_list (sv_called v) t)"
  using assms(2)
proof induction
  case start
  show ?case
    using assms(1)
    by (auto simp: server_ok_def server_start_def mcp_start_def bindr_Inr newest_def telemetry_count_def AdaptiveSwitch_def
        dest: TimeSynthesis_fresh)
next
  case (step v v')
  then show ?case using step_ok step_counters by blast
qed

text \<open>Every entry comes from a call of its own.\<close>

fun generating :: "mcp_task \<Rightarrow> bool" where
  "generating (AwaitSources a) = True"
| "generating (AwaitProof env a pot) = True"
| "generating _ = False"

definition generations_ok :: "'k mcp_server \<Rightarrow> bool" where
  "generations_ok v \<longleftrightarrow>
     length (sv_logged v) + size (filter_mset generating (sv_tasks v)) \<le> count_list (sv_called v) ''pot_generate''"

lemma step_generations: "mcp_step L v v' \<Longrightarrow> generations_ok v \<Longrightarrow> generations_ok v'"
  by (induction rule: mcp_step.induct) (auto simp: generations_ok_def dest!: multi_member_split)

lemma reach_generations: "mcp_reach L s0 v \<Longrightarrow> generations_ok v"
  by (induction rule: mcp_reach.induct) (auto simp: generations_ok_def server_start_def intro: step_generations [unfolded generations_ok_def])

text \<open>
  C26. What the server keeps when its calls are interleaved, with any answers of the
  network.  The log holds the newest 10000 of the entries pushed, in the order of pushing, never
  more than there were calls to generate; its mode is FULL and every turbo ratio 0; the nonce
  cache is within its capacity; the counter of a tool is the number of calls that began,
  finished or not; and although a query counts the log after its entries were taken, no
  answer lists more of them than it counts.
\<close>

theorem mcp_interleaving:
  assumes "mcp_start L fresh t0 = Inr s0" and "mcp_reach L s0 v"
  shows "potLog (sv_state v) = drop (length (sv_logged v) - 10000) (sv_logged v) \<and>
     length (sv_logged v) \<le> telemetry_count ''pot_generate'' (getTelemetryCounts (ms_counters (sv_state v))) \<and>
     currentMode (adaptiveSwitch (sv_state v)) = FULL \<and> turbo_ratio (period_entries now p (potLog (sv_state v))) = 0 \<and>
     length (usedNonces (timeSynth (sv_state v))) \<le> 10000 \<and>
     telemetry_count tool (getTelemetryCounts (ms_counters (sv_state v))) = count_list (sv_called v) tool \<and>
     (\<forall>q \<in> set (sv_queries v). \<exists>es n. jm_get ''local'' (js_fields q) = Some (JArr es) \<and>
        jm_get ''totalLocal'' (js_fields q) = Some (JNum (of_nat n)) \<and> length es \<le> n \<and> n \<le> 10000)"
proof -
  have ok: "server_ok v" and counts: "\<forall>t. telemetry_count t (ms_counters (sv_state v)) = count_list (sv_called v) t"
    using reach_ok [OF assms] by simp_all
  have log: "potLog (sv_state v) = drop (length (sv_logged v) - 10000) (sv_logged v)"
    using ok by (simp add: server_ok_def newest_def POT_LOG_MAX_def)
  have "\<forall>e \<in> set (period_entries now p (potLog (sv_state v))). ma_mode e = ''FULL''"
    using ok newest_in by (fastforce simp: server_ok_def period_entries_def)
  moreover have "length (sv_logged v) \<le> count_list (sv_called v) ''pot_generate''"
    using reach_generations [OF assms(2)] by (simp add: generations_ok_def)
  moreover have "length (usedNonces (timeSynth (sv_state v))) \<le> 10000"
    using ok by (simp add: server_ok_def synthesis_ok_def nonce_cache_ok_def MAX_NONCE_CACHE_def)
  moreover have "\<forall>q \<in> set (sv_queries v). \<exists>es n. jm_get ''local'' (js_fields q) = Some (JArr es) \<and>
        jm_get ''totalLocal'' (js_fields q) = Some (JNum (of_nat n)) \<and> length es \<le> n \<and> n \<le> 10000"
    using ok by (fastforce simp: server_ok_def query_counts_def POT_LOG_MAX_def)
  ultimately show ?thesis
    using ok log counts no_turbo by (simp add: server_ok_def getTelemetryCounts_def)
qed

text \<open>A query overtaken by a call for statistics, and given up when its timer fires.\<close>

lemma mcp_interleaving_witness:
  "\<exists>s0 v. mcp_start toy_mcp 3 0 = Inr s0 \<and> mcp_reach toy_mcp s0 v \<and> sv_called v = [''pot_query'', ''pot_stats''] \<and>
     (\<forall>t. telemetry_count t (getTelemetryCounts (ms_counters (sv_state v))) = count_list (sv_called v) t) \<and>
     sv_queries v \<noteq> [] \<and> potLog (sv_state v) = drop (length (sv_logged v) - 10000) (sv_logged v)"
proof -
  obtain s0 where s0: "mcp_start toy_mcp 3 0 = Inr s0" using toy_mcp_starts by blast
  let ?a = "\<lparr>qa_startTime = None, qa_endTime = None, qa_limit = None\<rparr>"
  let ?f = "local_entries 1 ?a (potLog (count_call 1 ''pot_query'' s0))"
  have r1: "mcp_reach toy_mcp s0 ((server_start s0)\<lparr>sv_state := count_call 1 ''pot_query'' s0,
      sv_tasks := {#AwaitQuery 1 ?a ?f WaitHeaders#}, sv_called := [''pot_query'']\<rparr>)" (is "mcp_reach _ _ ?v1")
    using mcp_reach.step [OF mcp_reach.start [of toy_mcp s0] query_call [OF refl, where now = 1 and a = ?a]]
    by (simp add: server_start_def)
  have r2: "mcp_reach toy_mcp s0 (?v1\<lparr>sv_state := snd (potStats toy_mcp 2 Day (sv_state ?v1)),
      sv_called := sv_called ?v1 @ [''pot_stats'']\<rparr>)" (is "mcp_reach _ _ ?v2")
    using mcp_reach.step [OF r1 stats_call] .
  have r2b: "mcp_reach toy_mcp s0 (?v2\<lparr>sv_tasks := add_mset (AwaitQuery 1 ?a ?f (fetch_step FeTimer WaitHeaders))
      (sv_tasks ?v2 - {#AwaitQuery 1 ?a ?f WaitHeaders#})\<rparr>)" (is "mcp_reach _ _ ?v2b")
    by (rule mcp_reach.step [OF r2 query_event]) simp
  have r3: "mcp_reach toy_mcp s0 (?v2b\<lparr>sv_tasks := sv_tasks ?v2b - {#AwaitQuery 1 ?a ?f (FetchDone (FetchRejected aborted))#},
      sv_queries := sv_queries ?v2b @ [query_finish toy_mcp (FetchRejected aborted) 1 ?a ?f (sv_state ?v2b)]\<rparr>)"
      (is "mcp_reach _ _ ?v3")
    by (rule mcp_reach.step [OF r2b query_answer]) simp
  have "\<forall>t. telemetry_count t (getTelemetryCounts (ms_counters (sv_state ?v3))) = count_list (sv_called ?v3) t"
    "potLog (sv_state ?v3) = drop (length (sv_logged ?v3) - 10000) (sv_logged ?v3)"
    using mcp_interleaving [OF s0 r3] by blast+
  then show ?thesis using s0 r3 by (intro exI [of _ s0] exI [of _ ?v3]) (simp add: server_start_def)
qed

end
