(* ===== verification/FrameProtocol.thy ===== *)
theory FrameProtocol
  imports PotVerifier
begin

text \<open>
  The frame verifier with its in-memory cache (\<open>src/pot_verifier.ts\<close>, \<open>src/pot_frame.ts\<close>,
  \<open>src/tls_binding.ts\<close>) inside a network that an attacker controls.  The states are reached by
  an inductive step relation: the issuer signs records, honest peers frame records for their
  sessions, time passes, and the attacker delivers any bytes on any session at any moment,
  with two limits, which are what the cryptography promises: it cannot make a signature of
  the issuer on a record the issuer did not sign, and it cannot make the key that a session
  exports for a record no peer of that session framed.
\<close>

section \<open>Records\<close>

text \<open>The signed part of a frame: the 79 bytes after the binding key; its time and its nonce.\<close>

definition frame_record :: "bytes \<Rightarrow> bytes" where
  "frame_record frame = take 79 (drop 32 frame)"

definition record_ms :: "bytes \<Rightarrow> int" where
  "record_ms m = int (be_val (subarray 3 11 m)) div 1000000"

definition record_nonce :: "bytes \<Rightarrow> bytes" where
  "record_nonce m = subarray 15 47 m"

lemma subarray_take_drop: "a \<le> b \<Longrightarrow> b \<le> 79 \<Longrightarrow> subarray a b (take 79 xs) = subarray a b xs"
  by (simp add: subarray_def drop_take min_def)

lemma decoded_record:
  assumes "decodePotFrame frame = Inr f"
  shows "take 79 (potRecord f) = frame_record frame" "ed25519Sig f = subarray 111 175 frame"
    "bindingKey f = take 32 frame" "frame_ms f = record_ms (frame_record frame)"
    "fr_nonce f = record_nonce (frame_record frame)"
proof -
  have len: "length frame = 175" using decoded_lengths [OF assms] by simp
  then have rec: "subarray 32 175 frame = drop 32 frame" by (simp add: subarray_def)
  have f: "potRecord f = drop 32 frame \<and> bindingKey f = subarray 0 32 frame \<and>
      fr_timestamp f = int (be_val (subarray 3 11 (drop 32 frame))) \<and>
      fr_nonce f = subarray 15 47 (drop 32 frame) \<and> ed25519Sig f = subarray 79 143 (drop 32 frame)"
    using assms len rec by (auto simp: decodePotFrame_def Let_def POT_FRAME_SIZE_def BINDING_KEY_SIZE_def)
  show "take 79 (potRecord f) = frame_record frame" "bindingKey f = take 32 frame"
    using f by (simp_all add: frame_record_def subarray_take)
  show "ed25519Sig f = subarray 111 175 frame" using f by (simp add: subarray_def)
  show "frame_ms f = record_ms (frame_record frame)" "fr_nonce f = record_nonce (frame_record frame)"
    using f by (simp_all add: frame_ms_def record_ms_def record_nonce_def frame_record_def subarray_take_drop)
qed

section \<open>The network\<close>

datatype frame_event =
    Issued bytes
  | Sent nat bytes
  | Delivered nat bytes int bool

record frame_net =
  fn_events :: "frame_event list"
  fn_clock :: int
  fn_cache :: memory_cache

text \<open>What the attacker can put on a session.\<close>

definition deliverable ::
    "(bytes \<Rightarrow> bytes \<Rightarrow> bytes \<Rightarrow> bool) \<Rightarrow> bytes \<Rightarrow> (nat \<Rightarrow> tls_socket) \<Rightarrow> frame_event list \<Rightarrow> nat \<Rightarrow> bytes \<Rightarrow> bool" where
  "deliverable sig_ok issuer socket evs s frame \<longleftrightarrow>
     (sig_ok issuer (frame_record frame) (subarray 111 175 frame) \<longrightarrow> Issued (frame_record frame) \<in> set evs) \<and>
     (exportKeyingMaterial (socket s) 32 TTTPS_EXPORTER_LABEL (frame_record frame) = Inr (take 32 frame)
        \<longrightarrow> Sent s (frame_record frame) \<in> set evs)"

text \<open>
  The clock of the verifier does not go back.  Nothing is asked of the issuer: it may sign any record,
  whatever its time and its nonce, and the same one twice.
\<close>

inductive frame_reach ::
    "(bytes \<Rightarrow> bytes \<Rightarrow> bytes \<Rightarrow> bool) \<Rightarrow> bytes \<Rightarrow> (nat \<Rightarrow> tls_socket) \<Rightarrow> frame_net \<Rightarrow> bool"
  for sig_ok issuer socket where
  start: "frame_reach sig_ok issuer socket \<lparr>fn_events = [], fn_clock = t, fn_cache = MemoryNonceCache None\<rparr>"
| tick: "frame_reach sig_ok issuer socket st \<Longrightarrow> fn_clock st \<le> t \<Longrightarrow> frame_reach sig_ok issuer socket (st\<lparr>fn_clock := t\<rparr>)"
| issue: "frame_reach sig_ok issuer socket st \<Longrightarrow>
     frame_reach sig_ok issuer socket (st\<lparr>fn_events := fn_events st @ [Issued m]\<rparr>)"
| send: "frame_reach sig_ok issuer socket st \<Longrightarrow>
     frame_reach sig_ok issuer socket (st\<lparr>fn_events := fn_events st @ [Sent s m]\<rparr>)"
| deliver: "frame_reach sig_ok issuer socket st \<Longrightarrow> deliverable sig_ok issuer socket (fn_events st) s frame \<Longrightarrow>
     r = memory_verify sig_ok issuer (socket s) frame (fn_clock st) (fn_cache st) \<Longrightarrow>
     frame_reach sig_ok issuer socket
       (st\<lparr>fn_events := fn_events st @ [Delivered s frame (fn_clock st) (frame_accepted r)], fn_cache := snd r\<rparr>)"

section \<open>The invariant\<close>

text \<open>What one acceptance shows.\<close>

lemma memory_accept_record:
  assumes "frame_accepted (memory_verify sig_ok issuer sock frame now c)"
  defines "m \<equiv> frame_record frame"
  shows "sig_ok issuer m (subarray 111 175 frame)"
    and "exportKeyingMaterial sock 32 TTTPS_EXPORTER_LABEL m = Inr (take 32 frame)"
    and "now - record_ms m \<le> 60000"
    and "fst (memory_check now (hex_encode (record_nonce m)) c)"
    and "snd (memory_verify sig_ok issuer sock frame now c) = snd (memory_check now (hex_encode (record_nonce m)) c)"
proof -
  obtain f where d: "decodePotFrame frame = Inr f"
    using assms(1) unfolding memory_verify_def by (blast dest: accepted_decodes)
  have a: "frame_checks sig_ok issuer sock frame f" "now - frame_ms f \<le> tier_tolerance (fr_tier f)"
    using assms(1) unfolding memory_accepted_iff [OF d] by (simp_all add: frame_ms_def)
  show "sig_ok issuer m (subarray 111 175 frame)" "exportKeyingMaterial sock 32 TTTPS_EXPORTER_LABEL m = Inr (take 32 frame)"
    using a(1) decoded_record [OF d] by (simp_all add: m_def frame_checks_def)
  show "now - record_ms m \<le> 60000"
    using a(2) tolerance_bound [of "fr_tier f"] decoded_record(4) [OF d] by (simp add: m_def)
  show "fst (memory_check now (hex_encode (record_nonce m)) c)"
    "snd (memory_verify sig_ok issuer sock frame now c) = snd (memory_check now (hex_encode (record_nonce m)) c)"
    using memory_accept [OF d assms(1)] decoded_record(5) [OF d] by (simp_all add: m_def)
qed

lemma memory_verify_ok: "memory_ok ttl c \<Longrightarrow> memory_ok ttl (snd (memory_verify sig_ok issuer sock frame now c))"
  using memory_verify_cache [of sig_ok issuer sock frame now c] by (metis memory.inv_check)

lemma memory_verify_live:
  assumes "memory_ok ttl c" and "memory_live k d n c" and "now \<le> d"
  shows "memory_live k d n (snd (memory_verify sig_ok issuer sock frame now c))"
proof -
  have "memory_live (Suc k) d n c" using assms(2) by (simp add: memory_live_def)
  then have "memory_live k d n (snd (memory_check now x c))" for x
    by (rule memory.live_step [OF assms(1) _ assms(3)])
  then show ?thesis using memory_verify_cache [of sig_ok issuer sock frame now c] assms(2) by metis
qed

text \<open>Each acceptance left its nonce in the cache, for two minutes.\<close>

definition accepted_live :: "frame_net \<Rightarrow> bool" where
  "accepted_live st \<longleftrightarrow>
     (\<forall>s frame t. Delivered s frame t True \<in> set (fn_events st) \<longrightarrow> t \<le> fn_clock st \<and>
        (fn_clock st \<le> t + 120000 \<longrightarrow>
           memory_live 0 (t + 120000) (hex_encode (record_nonce (frame_record frame))) (fn_cache st)))"

lemma reach_cache_ok: "frame_reach sig_ok issuer socket st \<Longrightarrow> memory_ok 120000 (fn_cache st)"
  by (induction rule: frame_reach.induct) (simp_all add: memory_verify_ok, simp add: memory_ok_def MemoryNonceCache_def)

lemma reach_live: "frame_reach sig_ok issuer socket st \<Longrightarrow> accepted_live st"
proof (induction rule: frame_reach.induct)
  case (deliver st s frame r)
  let ?c = "fn_cache st" and ?t = "fn_clock st" and ?n = "hex_encode (record_nonce (frame_record frame))"
  have ok: "memory_ok 120000 ?c" by (rule reach_cache_ok) (rule deliver.hyps)
  have keep: "memory_live 0 d n (snd r)" if "memory_live 0 d n ?c" "?t \<le> d" for d n
    unfolding deliver.hyps(3) by (rule memory_verify_live [OF ok that])
  have new: "memory_live 0 (?t + 120000) ?n (snd r)" if "frame_accepted r"
    using memory_accept_record(4,5) [OF that [unfolded deliver.hyps(3)]] memory.fresh_live [OF ok, of ?t ?n 0]
    unfolding deliver.hyps(3) by simp
  show ?case using deliver.IH keep new by (fastforce simp: accepted_live_def)
qed (fastforce simp: accepted_live_def)+

text \<open>A nonce is accepted again only after its two minutes.\<close>

lemma accepted_again:
  assumes reach: "frame_reach sig_ok issuer socket st" and old: "Delivered s frame t True \<in> set (fn_events st)"
    and acc: "frame_accepted (memory_verify sig_ok issuer sock frame' (fn_clock st) (fn_cache st))"
    and same: "record_nonce (frame_record frame') = record_nonce (frame_record frame)"
  shows "t + 120000 < fn_clock st \<and> t + 60000 < record_ms (frame_record frame')"
proof -
  note a = memory_accept_record [OF acc]
  have live: "memory_live 0 (t + 120000) (hex_encode (record_nonce (frame_record frame'))) (fn_cache st)"
    if "fn_clock st \<le> t + 120000"
    using reach_live [OF reach] old that unfolding accepted_live_def same by blast
  have late: "t + 120000 < fn_clock st"
  proof (rule ccontr)
    assume "\<not> t + 120000 < fn_clock st"
    then have le: "fn_clock st \<le> t + 120000" by simp
    show False using memory.live_rejected [OF reach_cache_ok [OF reach] live [OF le] le] a(4) by blast
  qed
  then show ?thesis using a(3) by linarith
qed

text \<open>Where an acceptance comes from: the events before it.\<close>

lemma reach_origin:
  assumes "frame_reach sig_ok issuer socket st"
  shows "i < length (fn_events st) \<Longrightarrow> fn_events st ! i = Delivered s frame t True \<Longrightarrow>
     Issued (frame_record frame) \<in> set (take i (fn_events st)) \<and>
     Sent s (frame_record frame) \<in> set (take i (fn_events st)) \<and> t \<le> record_ms (frame_record frame) + 60000"
  using assms
proof (induction arbitrary: i)
  case (deliver st s' frame' r)
  show ?case
  proof (cases "i < length (fn_events st)")
    case True
    then show ?thesis using deliver by (simp add: nth_append)
  next
    case False
    then have "frame_accepted r" "s = s'" "frame = frame'" "t = fn_clock st" "i = length (fn_events st)"
      using deliver.prems by (auto simp: nth_append less_Suc_eq)
    then show ?thesis
      using memory_accept_record(1-3) [of sig_ok issuer "socket s" frame "fn_clock st" "fn_cache st"] deliver.hyps(2,3)
      by (simp add: deliverable_def)
  qed
qed (auto simp: nth_append less_Suc_eq split: if_splits)

text \<open>And what two acceptances of one nonce show.\<close>

lemma reach_again:
  assumes "frame_reach sig_ok issuer socket st"
  shows "i < k \<Longrightarrow> k < length (fn_events st) \<Longrightarrow> fn_events st ! i = Delivered s frame t True \<Longrightarrow>
     fn_events st ! k = Delivered s' frame' t' True \<Longrightarrow> record_nonce (frame_record frame') = record_nonce (frame_record frame) \<Longrightarrow>
     t + 120000 < t' \<and> t + 60000 < record_ms (frame_record frame')"
  using assms
proof (induction arbitrary: i k)
  case (deliver st s0 frame0 r)
  show ?case
  proof (cases "k < length (fn_events st)")
    case True
    then show ?thesis using deliver by (simp add: nth_append)
  next
    case False
    then have "k = length (fn_events st)" using deliver.prems(2) by simp
    moreover from this have "frame_accepted r" "s' = s0" "frame' = frame0" "t' = fn_clock st"
      "Delivered s frame t True \<in> set (fn_events st)"
      using deliver.prems by (auto simp: nth_append in_set_conv_nth)
    ultimately show ?thesis
      using accepted_again [OF deliver.hyps(1)] deliver.prems(5) deliver.hyps(3) by blast
  qed
qed (auto simp: nth_append less_Suc_eq split: if_splits)

text \<open>
  C11. Agreement between issuer, peer and verifier, against an attacker who controls the network, an
  issuer that may sign anything, and a clock that does not go back.  In every reachable state, each
  frame that was accepted on a session carries a record that the issuer had signed before and that a
  peer of that very session had framed before, no more than a minute after the time the record
  states.  If a nonce is accepted once more, on whatever session, then more than two minutes
  later, and in a record that states a time more than a minute after the first acceptance.
  So a record dated at most a minute ahead of its first acceptance is accepted at most once,
  and a nonce is accepted twice only for such a record, dated into the future, or for two records.
\<close>

theorem frame_agreement:
  assumes "frame_reach sig_ok issuer socket st"
    and "i < length (fn_events st)" and "fn_events st ! i = Delivered s frame t True"
  shows "(\<exists>j<i. fn_events st ! j = Issued (frame_record frame)) \<and>
     (\<exists>j<i. fn_events st ! j = Sent s (frame_record frame)) \<and>
     t \<le> record_ms (frame_record frame) + 60000 \<and>
     (\<forall>k s' frame' t'. i < k \<longrightarrow> k < length (fn_events st) \<longrightarrow> fn_events st ! k = Delivered s' frame' t' True \<longrightarrow>
        record_nonce (frame_record frame') = record_nonce (frame_record frame) \<longrightarrow>
        t + 120000 < t' \<and> t + 60000 < record_ms (frame_record frame') \<and>
        (frame_record frame' \<noteq> frame_record frame \<or> t + 60000 < record_ms (frame_record frame)))"
proof -
  have o: "Issued (frame_record frame) \<in> set (take i (fn_events st))" "Sent s (frame_record frame) \<in> set (take i (fn_events st))"
    "t \<le> record_ms (frame_record frame) + 60000"
    using reach_origin [OF assms(1) assms(2,3)] by blast+
  then have "(\<exists>j<i. fn_events st ! j = Issued (frame_record frame)) \<and> (\<exists>j<i. fn_events st ! j = Sent s (frame_record frame))"
    by (auto simp: in_set_conv_nth)
  moreover have "t + 120000 < t' \<and> t + 60000 < record_ms (frame_record frame')"
    if "i < k" "k < length (fn_events st)" "fn_events st ! k = Delivered s' frame' t' True"
      "record_nonce (frame_record frame') = record_nonce (frame_record frame)" for k s' frame' t'
    by (rule reach_again [OF assms(1) that(1,2) assms(3) that(3,4)])
  ultimately show ?thesis using o(3) by metis
qed

text \<open>A state with an acceptance is reachable.\<close>

definition sample_sig :: "bytes \<Rightarrow> bytes \<Rightarrow> bytes \<Rightarrow> bool" where
  "sample_sig k m s = (s = replicate 64 7)"

lemma sample_frame_accepted:
  "frame_accepted (memory_verify sample_sig [] (sample_socket 9) sample_frame 850000 (MemoryNonceCache None))"
  unfolding memory_accepted_iff [OF sample_decodes]
  by (simp add: frame_checks_def sample_decodes)
     (simp add: sample_parsed_def sample_socket_def sample_sig_def tier_tolerance_def TTTPS_TIER_TOLERANCE_MS_def
        MemoryNonceCache_def memory_has_def)

lemma sample_reach:
  "\<exists>c. frame_reach sample_sig [] (\<lambda>s. sample_socket 9)
     \<lparr>fn_events = [Issued (frame_record sample_frame), Sent 0 (frame_record sample_frame),
        Delivered 0 sample_frame 850000 True], fn_clock = 850000, fn_cache = c\<rparr>"
proof -
  let ?R = "frame_reach sample_sig [] (\<lambda>s. sample_socket 9)" and ?m = "frame_record sample_frame"
  have "?R \<lparr>fn_events = [Issued ?m], fn_clock = 850000, fn_cache = MemoryNonceCache None\<rparr>"
    using frame_reach.issue [OF frame_reach.start [of sample_sig "[]" _ 850000], where m = ?m] by simp
  from frame_reach.send [OF this, of 0 ?m]
  have "?R \<lparr>fn_events = [Issued ?m, Sent 0 ?m], fn_clock = 850000, fn_cache = MemoryNonceCache None\<rparr>"
    by simp
  from frame_reach.deliver [OF this _ refl, of 0 sample_frame] show ?thesis
    by (auto simp: deliverable_def sample_frame_accepted)
qed

lemma frame_agreement_witness:
  "\<exists>st. frame_reach sample_sig [] (\<lambda>s. sample_socket 9) st \<and> fn_events st ! 2 = Delivered 0 sample_frame 850000 True \<and>
     (\<exists>j<2. fn_events st ! j = Sent 0 (frame_record sample_frame))"
proof -
  let ?evs = "[Issued (frame_record sample_frame), Sent 0 (frame_record sample_frame), Delivered 0 sample_frame 850000 True]"
  obtain c where r: "frame_reach sample_sig [] (\<lambda>s. sample_socket 9) \<lparr>fn_events = ?evs, fn_clock = 850000, fn_cache = c\<rparr>"
    using sample_reach by blast
  have "\<exists>j<2. fn_events \<lparr>fn_events = ?evs, fn_clock = 850000, fn_cache = c\<rparr> ! j = Sent 0 (frame_record sample_frame)"
    using frame_agreement [OF r, of 2 0 sample_frame 850000] by simp
  with r show ?thesis by fastforce
qed

end
