(* ===== verification/ClientTypes.thy ===== *)
theory ClientTypes
  imports TimeTypes Signers TrustStore
begin

text \<open>
  The configuration and the reports of the client that uses the library (\<open>src/types.ts\<close>).  The
  client itself is not in the repository, so these records have no operations here.
\<close>

section \<open>Configuration\<close>

text \<open>A network is named, or given whole.\<close>

datatype network_choice = NamedNetwork string | GivenNetwork network_config

record client_config =
  tc_signer :: "signer_config option"
  tc_privateKey :: "string option"
  tc_network :: "network_choice option"
  tc_tier :: "tier_type option"
  tc_rpcUrl :: "string option"
  tc_timeSources :: "string list option"
  tc_contractAddress :: "string option"
  tc_protocolFeeRate :: "rat option"
  tc_fallbackPriceUsd :: "int option"
  tc_poolAddress :: "string option"
  tc_protocolFeeRecipient :: "string option"
  tc_enableGracefulShutdown :: "bool option"
  tc_maxLatencyHistory :: "int option"

text \<open>The signer of \<open>ethers\<close> is of any type.\<close>

record 'signer auto_mint_config =
  am_chainId :: int
  am_poolAddress :: string
  am_rpcUrl :: string
  am_privateKey :: "string option"
  am_signer :: "'signer option"
  am_contractAddress :: string
  am_feeCollectorAddress :: "string option"
  am_tier :: tier_type
  am_timeSources :: "string list"
  am_protocolFeeRate :: rat
  am_protocolFeeRecipient :: string
  am_fallbackPriceUsd :: "int option"
  am_maxLatencyHistory :: "int option"
  am_potSignerKeyPath :: "string option"

section \<open>Reports\<close>

record mint_result =
  mt_tokenId :: string
  mt_grgHash :: string
  mt_timestamp :: int
  mt_txHash :: string
  mt_protocolFeePaid :: int
  mt_proofOfTime :: "proof_of_time option"

record health_checks =
  hh_initialized :: bool
  hh_rpcConnected :: bool
  hh_signerAvailable :: bool
  hh_balanceSufficient :: bool
  hh_ntpSourcesOk :: bool

record health_metrics =
  hm_mintCount :: int
  hm_mintFailures :: int
  hm_successRate :: rat
  hm_totalFeesPaid :: string
  hm_avgMintLatencyMs :: rat
  hm_lastMintAt :: "string option"
  hm_uptimeMs :: int

record health_status =
  ht_healthy :: bool
  ht_checks :: health_checks
  ht_metrics :: health_metrics
  ht_alerts :: "string list"

end
