(* ===== verification/Scripts.thy ===== *)
theory Scripts
  imports Errors SwapTypes
begin

text \<open>
  The scripts that set the test network up (\<open>contracts/scripts/setup_pool.ts\<close>,
  \<open>deploy_base_sepolia.ts\<close>).  A script is a function of its state that may throw; what it
  has sent stays in the state.  The chain is an argument: it answers each transaction with the
  address it deploys, or the receipt, or an exception.
\<close>

section \<open>Scripts\<close>

type_synonym ('s, 'a) script = "'s \<Rightarrow> (js_exn + 'a) \<times> 's"

definition script_bind :: "('s, 'a) script \<Rightarrow> ('a \<Rightarrow> ('s, 'b) script) \<Rightarrow> ('s, 'b) script" where
  "script_bind m f s = (case m s of (Inl e, s1) \<Rightarrow> (Inl e, s1) | (Inr a, s1) \<Rightarrow> f a s1)"

definition script_lift :: "js_exn + 'a \<Rightarrow> ('s, 'a) script" where
  "script_lift r s = (r, s)"

text \<open>\<open>try\<close> with a handler that only prints.\<close>

definition script_try :: "('s, 'a) script \<Rightarrow> ('s, unit) script" where
  "script_try m s = (Inr (), snd (m s))"

lemma script_bind_Inr:
  "script_bind m f s = (Inr b, s2) \<longleftrightarrow> (\<exists>a s1. m s = (Inr a, s1) \<and> f a s1 = (Inr b, s2))"
  by (auto simp: script_bind_def split: prod.splits sum.splits)

text \<open>What every part keeps, the whole keeps, thrown or not.\<close>

definition script_keeps :: "('s \<Rightarrow> bool) \<Rightarrow> ('s, 'a) script \<Rightarrow> bool" where
  "script_keeps P m \<longleftrightarrow> (\<forall>s. P s \<longrightarrow> P (snd (m s)))"

lemma keeps_bind: "script_keeps P m \<Longrightarrow> (\<And>a. script_keeps P (f a)) \<Longrightarrow> script_keeps P (script_bind m f)"
  unfolding script_keeps_def script_bind_def by (metis (mono_tags, lifting) case_prod_conv prod.collapse snd_conv sum.case_eq_if)

lemma keeps_lift: "script_keeps P (script_lift r)"
  by (simp add: script_keeps_def script_lift_def)

lemma keeps_try: "script_keeps P m \<Longrightarrow> script_keeps P (script_try m)"
  by (simp add: script_keeps_def script_try_def)

section \<open>Setting the pool up\<close>

definition POOL_MANAGER :: string where
  "POOL_MANAGER = ''0x05E73354cFDd6745C338b50BcFDfA3Aa6fA03408''"

definition USDC_ADDRESS :: string where
  "USDC_ADDRESS = ''0x036CbD53842c5426634e7929541eC2318f3dCF7e''"

definition POOL_FEE :: int where "POOL_FEE = 3000"
definition TICK_SPACING :: int where "TICK_SPACING = 60"
definition TICK_LOWER :: int where "TICK_LOWER = -887220"
definition TICK_UPPER :: int where "TICK_UPPER = 887220"
definition MaxUint256 :: int where "MaxUint256 = 2 ^ 256 - 1"

definition ZeroAddress :: string where
  "ZeroAddress = ''0x0000000000000000000000000000000000000000''"

text \<open>\<open>parseUnits\<close> of a whole number.\<close>

definition parseUnits :: "int \<Rightarrow> nat \<Rightarrow> int" where
  "parseUnits n decimals = n * 10 ^ decimals"

text \<open>The price's square root, exact to eighteen places, in units of \<open>2 ^ 96\<close>.\<close>

definition encodeSqrtPriceX96 :: "rat \<Rightarrow> int" where
  "encodeSqrtPriceX96 price =
     (let sqrtPriceScaled = \<lfloor>sqrt (of_rat price) * 10 ^ 18\<rfloor> in tdiv (sqrtPriceScaled * 2 ^ 96) (10 ^ 18))"

definition sortTokens :: "string \<Rightarrow> string \<Rightarrow> string \<times> string" where
  "sortTokens tokenA tokenB =
     (if js_less (toLowerCase tokenA) (toLowerCase tokenB) then (tokenA, tokenB) else (tokenB, tokenA))"

datatype setup_tx =
    DeployTestTTT
  | DeployPoolHelper string
  | InitializePool pool_key int
  | ApproveToken string string int
  | AddLiquidity pool_key int int int

record deployment_contracts =
  dc_testTTT :: string
  dc_poolHelper :: string
  dc_poolManager :: string
  dc_usdc :: string
  dc_tttHookSimple :: string
  dc_ttt1155 :: string

record deployment_info =
  di_network :: string
  di_chainId :: string
  di_deployer :: string
  di_contracts :: deployment_contracts
  di_poolKey :: pool_key
  di_poolId :: string
  di_timestamp :: string

record setup_state =
  currentNonce :: int
  st_sent :: "(int \<times> setup_tx) list"
  st_written :: "deployment_info option"

text \<open>
  What the script meets: the deployer, the balance reads that can throw, the nonce, the chain,
  the hash of a pool key, the chain id, the file system, and the texts of the network and the time.
\<close>

record setup_env =
  se_deployer :: "string option"
  se_balances :: "js_exn + unit"
  se_nonce :: "js_exn + int"
  se_chain :: "int \<Rightarrow> setup_tx \<Rightarrow> js_exn + string"
  se_pool_id :: "pool_key \<Rightarrow> string"
  se_chainId :: "js_exn + int"
  se_write :: "js_exn option"
  se_network :: string
  se_timestamp :: string

definition send_tx :: "setup_env \<Rightarrow> setup_tx \<Rightarrow> (setup_state, string) script" where
  "send_tx E tx s = (se_chain E (currentNonce s) tx, s\<lparr>st_sent := st_sent s @ [(currentNonce s, tx)]\<rparr>)"

definition next_nonce :: "'a \<Rightarrow> (setup_state, 'a) script" where
  "next_nonce a s = (Inr a, s\<lparr>currentNonce := currentNonce s + 1\<rparr>)"

definition send_next :: "setup_env \<Rightarrow> setup_tx \<Rightarrow> (setup_state, string) script" where
  "send_next E tx = script_bind (send_tx E tx) next_nonce"

definition pool_price :: "bool \<Rightarrow> rat" where
  "pool_price tttIsCurrency0 = (if tttIsCurrency0 then 1 / 10 ^ 14 else 10 ^ 14)"

definition setup_key :: "string \<Rightarrow> pool_key" where
  "setup_key testTTTAddress =
     (let (c0, c1) = sortTokens testTTTAddress USDC_ADDRESS
      in \<lparr>currency0 = c0, currency1 = c1, pk_fee = POOL_FEE, tickSpacing = TICK_SPACING, pk_hooks = ZeroAddress\<rparr>)"

definition token_is_currency0 :: "pool_key \<Rightarrow> string \<Rightarrow> bool" where
  "token_is_currency0 key token \<longleftrightarrow> toLowerCase (currency0 key) = toLowerCase token"

definition setup_info :: "setup_env \<Rightarrow> string \<Rightarrow> int \<Rightarrow> string \<Rightarrow> string \<Rightarrow> deployment_info" where
  "setup_info E deployer chain testTTT poolHelper =
     \<lparr>di_network = se_network E, di_chainId = show_int chain, di_deployer = deployer,
      di_contracts = \<lparr>dc_testTTT = testTTT, dc_poolHelper = poolHelper, dc_poolManager = POOL_MANAGER, dc_usdc = USDC_ADDRESS,
        dc_tttHookSimple = ''0x8C633b05b833a476925F7d9818da6E215760F2c7'',
        dc_ttt1155 = ''0xde357135cA493e59680182CDE9E1c6A4dA400811''\<rparr>,
      di_poolKey = setup_key testTTT, di_poolId = se_pool_id E (setup_key testTTT),
      di_timestamp = se_timestamp E\<rparr>"

definition write_info :: "setup_env \<Rightarrow> deployment_info \<Rightarrow> (setup_state, unit) script" where
  "write_info E info s = (case se_write E of Some e \<Rightarrow> (Inl e, s) | None \<Rightarrow> (Inr (), s\<lparr>st_written := Some info\<rparr>))"

definition setup_main :: "setup_env \<Rightarrow> string \<Rightarrow> (setup_state, unit) script" where
  "setup_main E deployer =
     script_bind (send_next E DeployTestTTT) (\<lambda>testTTT.
     script_bind (send_next E (DeployPoolHelper POOL_MANAGER)) (\<lambda>poolHelper.
     let key = setup_key testTTT in
     script_bind (send_next E (InitializePool key (encodeSqrtPriceX96 (pool_price (token_is_currency0 key testTTT))))) (\<lambda>_.
     script_bind (send_next E (ApproveToken testTTT poolHelper MaxUint256)) (\<lambda>_.
     script_bind (send_next E (ApproveToken USDC_ADDRESS poolHelper MaxUint256)) (\<lambda>_.
     script_bind (script_try (send_tx E (AddLiquidity key TICK_LOWER TICK_UPPER (parseUnits 30000 0)))) (\<lambda>_.
     script_bind (script_lift (se_chainId E)) (\<lambda>chain.
       write_info E (setup_info E deployer chain testTTT poolHelper))))))))"

definition setup_pool :: "setup_env \<Rightarrow> (js_exn + unit) \<times> setup_state" where
  "setup_pool E =
     (let s0 = \<lparr>currentNonce = 0, st_sent = [], st_written = None\<rparr> in
      case se_deployer E of
        None \<Rightarrow> (Inl (JsError ''No deployer found. Set DEPLOYER_PRIVATE_KEY in .env''), s0)
      | Some deployer \<Rightarrow>
          (case bindr (se_balances E) (\<lambda>_. se_nonce E) of
             Inl e \<Rightarrow> (Inl e, s0)
           | Inr nonce \<Rightarrow> setup_main E deployer (s0\<lparr>currentNonce := nonce\<rparr>)))"

section \<open>What the setup sends\<close>

definition setup_txs :: "string \<Rightarrow> string \<Rightarrow> setup_tx list" where
  "setup_txs testTTT poolHelper =
     (let key = setup_key testTTT in
      [DeployTestTTT, DeployPoolHelper POOL_MANAGER,
       InitializePool key (encodeSqrtPriceX96 (pool_price (token_is_currency0 key testTTT))),
       ApproveToken testTTT poolHelper MaxUint256, ApproveToken USDC_ADDRESS poolHelper MaxUint256,
       AddLiquidity key (- 887220) 887220 30000])"

definition setup_plan :: "int \<Rightarrow> string \<Rightarrow> string \<Rightarrow> (int \<times> setup_tx) list" where
  "setup_plan n testTTT poolHelper = zip [n, n + 1, n + 2, n + 3, n + 4, n + 5] (setup_txs testTTT poolHelper)"

lemmas script_simps =
  script_bind_def script_lift_def script_try_def send_next_def send_tx_def next_nonce_def write_info_def

lemma parseUnits_0: "parseUnits n 0 = n"
  by (simp add: parseUnits_def)

text \<open>The chain answers the first transactions of a plan.\<close>

definition answered :: "setup_env \<Rightarrow> (int \<times> setup_tx) list \<Rightarrow> bool" where
  "answered E plan \<longleftrightarrow> (\<forall>(n, tx) \<in> set plan. \<exists>a. se_chain E n tx = Inr a)"

lemma answered_simps [simp]:
  "answered E []" "answered E ((n, tx) # plan) \<longleftrightarrow> (\<exists>a. se_chain E n tx = Inr a) \<and> answered E plan"
  by (auto simp: answered_def)

lemma send_next_bind:
  "script_bind (send_next E tx) f \<lparr>currentNonce = n, st_sent = l, st_written = w\<rparr> =
     (case se_chain E n tx of
        Inl e \<Rightarrow> (Inl e, \<lparr>currentNonce = n, st_sent = l @ [(n, tx)], st_written = w\<rparr>)
      | Inr a \<Rightarrow> f a \<lparr>currentNonce = n + 1, st_sent = l @ [(n, tx)], st_written = w\<rparr>)"
  by (simp add: script_bind_def send_next_def send_tx_def next_nonce_def split: sum.split)

lemma send_try_bind:
  "script_bind (script_try (send_tx E tx)) f \<lparr>currentNonce = n, st_sent = l, st_written = w\<rparr> =
     f () \<lparr>currentNonce = n, st_sent = l @ [(n, tx)], st_written = w\<rparr>"
  by (simp add: script_bind_def script_try_def send_tx_def)

definition setup_effect :: "setup_env \<Rightarrow> string \<Rightarrow> int \<Rightarrow> string \<Rightarrow> string \<Rightarrow> (js_exn + unit) \<times> setup_state \<Rightarrow> bool" where
  "setup_effect E deployer n ttt helper rs \<longleftrightarrow>
     (\<exists>k \<le> 6. st_sent (snd rs) = take k (setup_plan n ttt helper) \<and> answered E (take (min 5 (k - 1)) (setup_plan n ttt helper))) \<and>
     (fst rs = Inr () \<longleftrightarrow> answered E (take 5 (setup_plan n ttt helper)) \<and> (\<exists>c. se_chainId E = Inr c) \<and> se_write E = None) \<and>
     (fst rs = Inr () \<longrightarrow>
        se_chain E n DeployTestTTT = Inr ttt \<and> se_chain E (n + 1) (DeployPoolHelper POOL_MANAGER) = Inr helper) \<and>
     st_written (snd rs) =
       (if fst rs = Inr () then Some (setup_info E deployer (projr (se_chainId E)) ttt helper) else None)"

lemma setup_main_effect:
  "\<exists>ttt helper. setup_effect E deployer n ttt helper
     (setup_main E deployer \<lparr>currentNonce = n, st_sent = [], st_written = None\<rparr>)"
proof (cases "se_chain E n DeployTestTTT")
  case (Inl e)
  have "setup_effect E deployer n [] [] (setup_main E deployer \<lparr>currentNonce = n, st_sent = [], st_written = None\<rparr>)"
    unfolding setup_effect_def
    by (intro conjI exI [of _ 1]) (simp_all add: Inl setup_main_def script_simps setup_plan_def setup_txs_def Let_def)
  then show ?thesis by blast
next
  case ttt: (Inr ttt)
  show ?thesis
  proof (cases "se_chain E (n + 1) (DeployPoolHelper POOL_MANAGER)")
    case (Inl e)
    have "setup_effect E deployer n ttt [] (setup_main E deployer \<lparr>currentNonce = n, st_sent = [], st_written = None\<rparr>)"
      unfolding setup_effect_def
      by (intro conjI exI [of _ 2]) (simp_all add: Inl ttt setup_main_def script_simps setup_plan_def setup_txs_def Let_def)
    then show ?thesis by blast
  next
    case helper: (Inr helper)
    let ?key = "setup_key ttt"
    let ?t3 = "InitializePool ?key (encodeSqrtPriceX96 (pool_price (token_is_currency0 ?key ttt)))"
    note defs = setup_main_def send_next_bind send_try_bind script_lift_def write_info_def script_bind_def [of "script_lift r" for r]
      setup_plan_def setup_txs_def Let_def parseUnits_0 TICK_LOWER_def TICK_UPPER_def ttt helper
      add.commute [of n 2] add.commute [of n 3] add.commute [of n 4] add.commute [of n 5]
    have "setup_effect E deployer n ttt helper (setup_main E deployer \<lparr>currentNonce = n, st_sent = [], st_written = None\<rparr>)"
    proof (cases "se_chain E (2 + n) ?t3")
      case (Inl e)
      then show ?thesis unfolding setup_effect_def by (intro conjI exI [of _ 3]) (simp_all add: defs)
    next
      case t3: (Inr r3)
      show ?thesis
      proof (cases "se_chain E (3 + n) (ApproveToken ttt helper MaxUint256)")
        case (Inl e)
        then show ?thesis unfolding setup_effect_def by (intro conjI exI [of _ 4]) (simp_all add: defs t3)
      next
        case t4: (Inr r4)
        show ?thesis
        proof (cases "se_chain E (4 + n) (ApproveToken USDC_ADDRESS helper MaxUint256)")
          case (Inl e)
          then show ?thesis unfolding setup_effect_def by (intro conjI exI [of _ 5]) (simp_all add: defs t3 t4)
        next
          case (Inr r5)
          then show ?thesis unfolding setup_effect_def
            by (intro conjI exI [of _ 6]) (simp_all add: defs t3 t4 split: sum.split option.split)
        qed
      qed
    qed
    then show ?thesis by blast
  qed
qed

section \<open>The pool\<close>

lemma setup_key_sorted:
  assumes "toLowerCase ttt \<noteq> toLowerCase USDC_ADDRESS"
  shows "js_less (toLowerCase (currency0 (setup_key ttt))) (toLowerCase (currency1 (setup_key ttt)))"
    and "currency0 (setup_key ttt) = (if token_is_currency0 (setup_key ttt) ttt then ttt else USDC_ADDRESS)"
    and "currency1 (setup_key ttt) = (if token_is_currency0 (setup_key ttt) ttt then USDC_ADDRESS else ttt)"
  using assms js_less_total [OF assms] by (auto simp: setup_key_def sortTokens_def token_is_currency0_def)

lemma sqrt_price: "sqrt (of_rat (pool_price b)) = (if b then 1 / 10 ^ 7 else 10 ^ 7)"
  by (rule real_sqrt_unique) (simp_all add: pool_price_def of_rat_divide of_rat_power field_simps)

lemma pool_price_encoded:
  "encodeSqrtPriceX96 (pool_price True) = 7922816251426433759354"
  "encodeSqrtPriceX96 (pool_price False) = 10000000 * 2 ^ 96"
  by (simp_all add: encodeSqrtPriceX96_def sqrt_price tdiv_nonneg Let_def)

text \<open>What the file says when there is one.\<close>

lemma setup_written:
  assumes "st_written (snd (setup_pool E)) = Some d"
  shows "\<exists>n. se_nonce E = Inr n \<and> se_chain E n DeployTestTTT = Inr (dc_testTTT (di_contracts d)) \<and>
     dc_usdc (di_contracts d) = USDC_ADDRESS \<and> di_poolKey d = setup_key (dc_testTTT (di_contracts d))"
proof (cases "se_deployer E")
  case None
  then show ?thesis using assms by (simp add: setup_pool_def)
next
  case (Some dep)
  then obtain n where n: "se_nonce E = Inr n"
    and run: "setup_pool E = setup_main E dep \<lparr>currentNonce = n, st_sent = [], st_written = None\<rparr>"
    using assms by (cases "se_balances E"; cases "se_nonce E") (auto simp: setup_pool_def bindr_def Let_def)
  obtain ttt helper where e: "setup_effect E dep n ttt helper (setup_pool E)"
    using setup_main_effect [of E dep n] unfolding run by blast
  then have "fst (setup_pool E) = Inr ()" and d: "d = setup_info E dep (projr (se_chainId E)) ttt helper"
    using assms by (auto simp: setup_effect_def split: if_splits)
  then have "se_chain E n DeployTestTTT = Inr ttt" using e by (simp add: setup_effect_def)
  then show ?thesis using n by (simp add: d setup_info_def)
qed

text \<open>
  What setting the pool up does.  Whatever the chain answers, the transactions sent are the
  beginning of one plan of six, with consecutive nonces; the deployment file is written, and the
  script succeeds, exactly if the first five are answered, the chain id is read and the file can be
  written: adding the liquidity may fail.  The pool of the plan has its currencies sorted, and
  its price is 1/100 whichever of the two is the token.
\<close>

theorem setup_pool_effects:
  assumes "se_deployer E = Some d" and "se_balances E = Inr ()" and "se_nonce E = Inr n"
    and "\<forall>a. se_chain E n DeployTestTTT = Inr a \<longrightarrow> toLowerCase a \<noteq> toLowerCase USDC_ADDRESS"
  shows "\<exists>ttt helper plan key.
     plan = setup_plan n ttt helper \<and> key = setup_key ttt \<and>
     (\<exists>k \<le> 6. st_sent (snd (setup_pool E)) = take k plan) \<and>
     (fst (setup_pool E) = Inr () \<longleftrightarrow> answered E (take 5 plan) \<and> (\<exists>c. se_chainId E = Inr c) \<and> se_write E = None) \<and>
     (\<forall>info. st_written (snd (setup_pool E)) = Some info \<longleftrightarrow>
        fst (setup_pool E) = Inr () \<and> info = setup_info E d (projr (se_chainId E)) ttt helper) \<and>
     (fst (setup_pool E) = Inr () \<longrightarrow>
        js_less (toLowerCase (currency0 key)) (toLowerCase (currency1 key)) \<and>
        {currency0 key, currency1 key} = {ttt, USDC_ADDRESS} \<and>
        plan ! 2 = (n + 2, InitializePool key (if currency0 key = ttt then 7922816251426433759354 else 10000000 * 2 ^ 96)))"
proof -
  have run: "setup_pool E = setup_main E d \<lparr>currentNonce = n, st_sent = [], st_written = None\<rparr>"
    using assms by (simp add: setup_pool_def)
  obtain ttt helper where e: "setup_effect E d n ttt helper (setup_pool E)"
    using setup_main_effect [of E d n] unfolding run by blast
  let ?key = "setup_key ttt"
  have key: "js_less (toLowerCase (currency0 ?key)) (toLowerCase (currency1 ?key)) \<and>
        {currency0 ?key, currency1 ?key} = {ttt, USDC_ADDRESS} \<and>
        setup_plan n ttt helper ! 2 =
          (n + 2, InitializePool ?key (if currency0 ?key = ttt then 7922816251426433759354 else 10000000 * 2 ^ 96))"
    if "fst (setup_pool E) = Inr ()"
  proof -
    have "se_chain E n DeployTestTTT = Inr ttt" using e that by (simp add: setup_effect_def)
    then have ne: "toLowerCase ttt \<noteq> toLowerCase USDC_ADDRESS" using assms(4) by blast
    then have "currency0 ?key = ttt \<longleftrightarrow> token_is_currency0 ?key ttt" using setup_key_sorted(2) [OF ne] by auto
    then show ?thesis
      using setup_key_sorted [OF ne] by (auto simp: setup_plan_def setup_txs_def Let_def pool_price_encoded)
  qed
  have sent: "\<exists>k \<le> 6. st_sent (snd (setup_pool E)) = take k (setup_plan n ttt helper)"
    using e unfolding setup_effect_def by blast
  have written: "st_written (snd (setup_pool E)) = Some info \<longleftrightarrow>
      fst (setup_pool E) = Inr () \<and> info = setup_info E d (projr (se_chainId E)) ttt helper" for info
    using e by (auto simp: setup_effect_def)
  have ok: "fst (setup_pool E) = Inr () \<longleftrightarrow>
      answered E (take 5 (setup_plan n ttt helper)) \<and> (\<exists>c. se_chainId E = Inr c) \<and> se_write E = None"
    using e unfolding setup_effect_def by blast
  show ?thesis
    by (rule exI [of _ ttt], rule exI [of _ helper], rule exI [of _ "setup_plan n ttt helper"], rule exI [of _ ?key])
       (use sent written ok key in simp)
qed

text \<open>A chain that refuses the liquidity.\<close>

definition toy_setup :: setup_env where
  "toy_setup = \<lparr>se_deployer = Some ''0xD'', se_balances = Inr (), se_nonce = Inr 7,
     se_chain = (\<lambda>n tx. case tx of DeployTestTTT \<Rightarrow> Inr ''0xA'' | AddLiquidity key l u d \<Rightarrow> Inl (JsError ''reverted'')
                      | _ \<Rightarrow> Inr ''0xB''),
     se_pool_id = currency0, se_chainId = Inr 84532, se_write = None,
     se_network = ''baseSepolia'', se_timestamp = []\<rparr>"

lemma toy_answered: "answered toy_setup (take 5 (setup_plan n ttt helper))"
  by (simp add: setup_plan_def setup_txs_def Let_def toy_setup_def)

lemma setup_pool_effects_witness:
  "fst (setup_pool toy_setup) = Inr () \<and> (\<exists>info. st_written (snd (setup_pool toy_setup)) = Some info)"
  using setup_pool_effects [of toy_setup "''0xD''" 7] toy_answered
  by (fastforce simp: toy_setup_def toLowerCase_def js_lower_char_def USDC_ADDRESS_def)

end
