(* ===== verification/SwapBots.thy ===== *)
theory SwapBots
  imports Scripts
begin

text \<open>
  The scripts that make traffic on the test network (\<open>contracts/scripts/swap_bot.ts\<close>,
  \<open>verify_swap_bot.ts\<close>, \<open>single_verify.ts\<close>).  What the chain answers to the calls of a cycle
  is an argument, a function of the number of the cycle; what a bot sends is a list of actions.
\<close>

section \<open>The swap bot\<close>

definition SWAP_INTERVAL_MS :: int where "SWAP_INTERVAL_MS = 30000"
definition MAX_SWAPS :: nat where "MAX_SWAPS = 10"
definition SWAP_AMOUNT :: int where "SWAP_AMOUNT = parseUnits 10 18"

datatype bot_action =
    BotApprove string string int
  | BotSwap pool_key bool int
  | BotVerify string string int
  | BotStats
  | BotWait int

text \<open>\<open>None\<close> says that the call and its receipt came back.\<close>

record bot_env =
  be_deployer :: "string option"
  be_deployment :: "(js_exn + deployment_info) option"
  be_allowance :: "string \<Rightarrow> js_exn + int"
  be_approve :: "string \<Rightarrow> js_exn option"
  be_swap :: "nat \<Rightarrow> js_exn option"
  be_verify :: "nat \<Rightarrow> js_exn option"
  be_stats :: "js_exn + (int \<times> int \<times> int)"

record bot =
  swapCount :: nat
  bt_direction :: bool
  bt_sent :: "bot_action list"

definition bot_send :: "bot_action \<Rightarrow> bot \<Rightarrow> bot" where
  "bot_send a b = b\<lparr>bt_sent := bt_sent b @ [a]\<rparr>"

text \<open>The approval of one token, where its allowance is below a limit.\<close>

definition ensure_approval :: "bot_env \<Rightarrow> string \<Rightarrow> string \<Rightarrow> int \<Rightarrow> (bot, unit) script" where
  "ensure_approval E token spender limit b =
     (case be_allowance E token of
        Inl e \<Rightarrow> (Inl e, b)
      | Inr allowance \<Rightarrow>
          (if allowance < limit then
             ((case be_approve E token of Some e \<Rightarrow> Inl e | None \<Rightarrow> Inr ()),
              bot_send (BotApprove token spender MaxUint256) b)
           else (Inr (), b)))"

text \<open>A cycle catches every exception, and ends with the other direction.\<close>

definition executeSwapCycle :: "bot_env \<Rightarrow> string \<Rightarrow> deployment_info \<Rightarrow> bool \<Rightarrow> bot \<Rightarrow> bot" where
  "executeSwapCycle E deployer d tttIsCurrency0 b =
     (let k = swapCount b;
          b1 = b\<lparr>swapCount := k + 1\<rparr>;
          zeroForOne = (if tttIsCurrency0 then bt_direction b1 else \<not> bt_direction b1);
          amountSpecified = - SWAP_AMOUNT;
          b2 = bot_send (BotSwap (di_poolKey d) zeroForOne amountSpecified) b1;
          b3 = (if be_swap E k \<noteq> None then b2
                else let v = bot_send (BotVerify deployer (di_poolId d) amountSpecified) b2
                     in if be_verify E k \<noteq> None then v else bot_send BotStats v)
      in b3\<lparr>bt_direction := \<not> bt_direction b3\<rparr>)"

function bot_loop :: "bot_env \<Rightarrow> string \<Rightarrow> deployment_info \<Rightarrow> bool \<Rightarrow> nat \<Rightarrow> bot \<Rightarrow> bot" where
  "bot_loop E deployer d is0 i b =
     (if i < MAX_SWAPS then
        let b1 = executeSwapCycle E deployer d is0 b in
        if swapCount b1 \<ge> MAX_SWAPS then b1
        else bot_loop E deployer d is0 (i + 1) (if i < MAX_SWAPS - 1 then bot_send (BotWait SWAP_INTERVAL_MS) b1 else b1)
      else b)"
  by pat_completeness auto
termination by (relation "measure (\<lambda>(E, deployer, d, is0, i, b). MAX_SWAPS - i)") auto

declare bot_loop.simps [simp del]

text \<open>The summary: what it calls the swaps executed, and the statistics of the contract.\<close>

definition bot_main :: "bot_env \<Rightarrow> string \<Rightarrow> deployment_info \<Rightarrow> (bot, nat \<times> (int \<times> int \<times> int)) script" where
  "bot_main E deployer d =
     (let c = di_contracts d in
      script_bind (ensure_approval E (dc_testTTT c) (dc_poolHelper c) (SWAP_AMOUNT * 100)) (\<lambda>_.
      script_bind (ensure_approval E (dc_usdc c) (dc_poolHelper c) (parseUnits 10000 6)) (\<lambda>_ b.
        let b1 = bot_loop E deployer d (token_is_currency0 (di_poolKey d) (dc_testTTT c)) 0 b
        in (bindr (be_stats E) (\<lambda>stats. Inr (swapCount b1, stats)), b1))))"

definition swap_bot :: "bot_env \<Rightarrow> (js_exn + nat \<times> (int \<times> int \<times> int)) \<times> bot" where
  "swap_bot E =
     (let b = \<lparr>swapCount = 0, bt_direction = True, bt_sent = []\<rparr> in
      case be_deployer E of
        None \<Rightarrow> (Inl (JsError ''No deployer found. Set DEPLOYER_PRIVATE_KEY in .env''), b)
      | Some deployer \<Rightarrow>
          (case be_deployment E of
             None \<Rightarrow> (Inl (JsError ''deployment_base_sepolia.json not found. Run setup_pool.ts first.''), b)
           | Some (Inl e) \<Rightarrow> (Inl e, b)
           | Some (Inr d) \<Rightarrow> bot_main E deployer d b))"

section \<open>The cycles\<close>

text \<open>What cycle \<open>k\<close> sends.\<close>

definition cycle_calls :: "bot_env \<Rightarrow> string \<Rightarrow> deployment_info \<Rightarrow> bool \<Rightarrow> nat \<Rightarrow> bot_action list" where
  "cycle_calls E deployer d is0 k =
     BotSwap (di_poolKey d) (is0 = even k) (- (10 ^ 19)) #
     (if be_swap E k \<noteq> None then []
      else BotVerify deployer (di_poolId d) (- (10 ^ 19)) # (if be_verify E k \<noteq> None then [] else [BotStats]))"

lemma cycle_step:
  assumes "bt_direction b = even (swapCount b)"
  shows "executeSwapCycle E deployer d is0 b =
     \<lparr>swapCount = swapCount b + 1, bt_direction = even (swapCount b + 1),
      bt_sent = bt_sent b @ cycle_calls E deployer d is0 (swapCount b)\<rparr>"
  using assms by (cases b) (auto simp: executeSwapCycle_def Let_def bot_send_def cycle_calls_def SWAP_AMOUNT_def parseUnits_def)

lemma bot_loop_sent:
  "i < 10 \<Longrightarrow> bot_loop E deployer d is0 i \<lparr>swapCount = i, bt_direction = even i, bt_sent = l\<rparr> =
     \<lparr>swapCount = 10, bt_direction = True,
      bt_sent = l @ concat (map (\<lambda>k. cycle_calls E deployer d is0 k @ [BotWait 30000]) [i..<9]) @ cycle_calls E deployer d is0 9\<rparr>"
proof (induction "9 - i" arbitrary: i l)
  case 0
  then have "i = 9" by simp
  then show ?case by (subst bot_loop.simps) (simp add: cycle_step MAX_SWAPS_def)
next
  case (Suc n)
  then have i: "i < 9" by simp
  have "bot_loop E deployer d is0 i \<lparr>swapCount = i, bt_direction = even i, bt_sent = l\<rparr> =
        bot_loop E deployer d is0 (i + 1) \<lparr>swapCount = i + 1, bt_direction = even (i + 1),
          bt_sent = l @ cycle_calls E deployer d is0 i @ [BotWait 30000]\<rparr>"
    using i by (subst bot_loop.simps) (simp add: cycle_step MAX_SWAPS_def bot_send_def SWAP_INTERVAL_MS_def)
  also have "\<dots> = \<lparr>swapCount = 10, bt_direction = True,
      bt_sent = (l @ cycle_calls E deployer d is0 i @ [BotWait 30000]) @
        concat (map (\<lambda>k. cycle_calls E deployer d is0 k @ [BotWait 30000]) [i + 1..<9]) @ cycle_calls E deployer d is0 9\<rparr>"
    by (rule Suc.hyps(1)) (use Suc.hyps(2) i in simp_all)
  finally show ?case using i by (simp add: upt_conv_Cons)
qed

text \<open>The token and the amount that a swap gives, the amount in raw units.\<close>

fun swap_gives :: "bot_action \<Rightarrow> (string \<times> int) option" where
  "swap_gives (BotSwap key z amount) = Some (if z then currency0 key else currency1 key, - amount)"
| "swap_gives _ = None"

fun verify_amount :: "bot_action \<Rightarrow> int option" where
  "verify_amount (BotVerify sender pool swapDelta) = Some swapDelta"
| "verify_amount _ = None"

fun wait_time :: "bot_action \<Rightarrow> int option" where
  "wait_time (BotWait ms) = Some ms"
| "wait_time _ = None"

abbreviation gives :: "bot_action list \<Rightarrow> (string \<times> int) list" where "gives \<equiv> List.map_filter swap_gives"
abbreviation verified :: "bot_action list \<Rightarrow> int list" where "verified \<equiv> List.map_filter verify_amount"
abbreviation waited :: "bot_action list \<Rightarrow> int list" where "waited \<equiv> List.map_filter wait_time"

lemma ensure_approval_sent:
  assumes "ensure_approval E token spender limit b = (Inr u, b1)"
  shows "swapCount b1 = swapCount b \<and> bt_direction b1 = bt_direction b \<and>
     gives (bt_sent b1) = gives (bt_sent b) \<and> verified (bt_sent b1) = verified (bt_sent b) \<and> waited (bt_sent b1) = waited (bt_sent b)"
  using assms by (auto simp: ensure_approval_def bot_send_def map_filter_append map_filter_simps
      split: sum.splits if_splits option.splits)

lemma cycle_calls_parts:
  "gives (cycle_calls E dep d is0 k) =
     [(if is0 = even k then currency0 (di_poolKey d) else currency1 (di_poolKey d), 10 ^ 19)]"
  "verified (cycle_calls E dep d is0 k) = (if be_swap E k = None then [- (10 ^ 19)] else [])"
  "waited (cycle_calls E dep d is0 k) = []"
  by (simp_all add: cycle_calls_def map_filter_simps)

lemma bot_main_done:
  assumes "bot_main E dep d \<lparr>swapCount = 0, bt_direction = True, bt_sent = []\<rparr> = (Inr (n, stats), b)"
    and "is0 = token_is_currency0 (di_poolKey d) (dc_testTTT (di_contracts d))"
  shows "n = 10 \<and> gives (bt_sent b) =
       map (\<lambda>k. (if is0 = even k then currency0 (di_poolKey d) else currency1 (di_poolKey d), 10 ^ 19)) [0..<10] \<and>
     verified (bt_sent b) = concat (map (\<lambda>k. if be_swap E k = None then [- (10 ^ 19)] else []) [0..<10]) \<and>
     waited (bt_sent b) = replicate 9 30000"
proof -
  let ?c = "di_contracts d"
  obtain b1 b2 where
      a1: "ensure_approval E (dc_testTTT ?c) (dc_poolHelper ?c) (SWAP_AMOUNT * 100)
        \<lparr>swapCount = 0, bt_direction = True, bt_sent = []\<rparr> = (Inr (), b1)"
    and a2: "ensure_approval E (dc_usdc ?c) (dc_poolHelper ?c) (parseUnits 10000 6) b1 = (Inr (), b2)"
    and run: "b = bot_loop E dep d is0 0 b2" "n = swapCount b"
    using assms by (auto simp: bot_main_def script_bind_Inr bindr_Inr Let_def)
  note sent = ensure_approval_sent [OF a1] ensure_approval_sent [OF a2]
  obtain l where b2: "b2 = \<lparr>swapCount = 0, bt_direction = even (0 :: nat), bt_sent = l\<rparr>"
    and l: "gives l = []" "verified l = []" "waited l = []"
    using sent by (cases b2) (simp add: map_filter_simps)
  have b: "b = \<lparr>swapCount = 10, bt_direction = True,
      bt_sent = l @ concat (map (\<lambda>k. cycle_calls E dep d is0 k @ [BotWait 30000]) [0..<9]) @ cycle_calls E dep d is0 9\<rparr>"
    unfolding run b2 by (rule bot_loop_sent) simp
  have ten: "[0..<10] = [0..<9] @ [9 :: nat]" by (simp add: upt_rec)
  show ?thesis
    using run(2) unfolding b ten
    by (simp add: map_filter_append map_filter_concat map_filter_simps l cycle_calls_parts comp_def map_replicate_const)
qed

text \<open>
  The traffic of the swap bot in the pool of the setup.  If the bot, run on the file that the
  setup wrote, comes to its summary, it reports ten swaps, whatever failed; it offered, in turn,
  the token and USDC, each time \<open>10 ^ 19\<close> raw units: ten tokens of 18 decimals, but ten million
  million USDC of 6; it verified exactly the swaps that came back, with that amount; and it
  waited nine times half a minute.
\<close>

theorem pool_traffic:
  assumes "st_written (snd (setup_pool SE)) = Some d"
    and "\<forall>n a. se_chain SE n DeployTestTTT = Inr a \<longrightarrow> toLowerCase a \<noteq> toLowerCase USDC_ADDRESS"
    and "be_deployment E = Some (Inr d)" and "swap_bot E = (Inr (n, stats), b)"
  shows "n = 10 \<and>
     gives (bt_sent b) = map (\<lambda>k. (if even k then dc_testTTT (di_contracts d) else USDC_ADDRESS, 10 ^ 19)) [0..<10] \<and>
     verified (bt_sent b) = concat (map (\<lambda>k. if be_swap E k = None then [- (10 ^ 19)] else []) [0..<10]) \<and>
     waited (bt_sent b) = replicate 9 30000"
proof -
  let ?t = "dc_testTTT (di_contracts d)" let ?is0 = "token_is_currency0 (di_poolKey d) ?t"
  obtain m where m: "se_chain SE m DeployTestTTT = Inr ?t" and key: "di_poolKey d = setup_key ?t"
    using setup_written [OF assms(1)] by blast
  have ne: "toLowerCase ?t \<noteq> toLowerCase USDC_ADDRESS" using assms(2) m by blast
  obtain dep where "bot_main E dep d \<lparr>swapCount = 0, bt_direction = True, bt_sent = []\<rparr> = (Inr (n, stats), b)"
    using assms(3,4) by (cases "be_deployer E") (auto simp: swap_bot_def Let_def)
  note main = bot_main_done [OF this refl]
  have eq: "(if ?is0 = even k then currency0 (di_poolKey d) else currency1 (di_poolKey d)) = (if even k then ?t else USDC_ADDRESS)" for k
    using setup_key_sorted(2,3) [OF ne] by (simp add: key)
  show ?thesis using main unfolding eq by blast
qed

definition toy_bot :: bot_env where
  "toy_bot = \<lparr>be_deployer = Some ''0xD'', be_deployment = Some (Inr (setup_info toy_setup ''0xD'' 84532 ''0xA'' ''0xB'')),
     be_allowance = (\<lambda>t. Inr 0), be_approve = (\<lambda>t. None),
     be_swap = (\<lambda>k. if odd k then Some (JsError ''reverted'') else None), be_verify = (\<lambda>k. None), be_stats = Inr (5, 0, 5)\<rparr>"

lemma toy_setup_written: "st_written (snd (setup_pool toy_setup)) = Some (setup_info toy_setup ''0xD'' 84532 ''0xA'' ''0xB'')"
  by (simp add: setup_pool_def setup_main_def send_next_bind send_try_bind script_lift_def write_info_def
      script_bind_def [of "script_lift r" for r] toy_setup_def Let_def)

lemma toy_bot_runs: "\<exists>n b. swap_bot toy_bot = (Inr (n, (5, 0, 5)), b)"
  by (simp add: swap_bot_def bot_main_def script_bind_def ensure_approval_def toy_bot_def Let_def SWAP_AMOUNT_def parseUnits_def
      bot_send_def)

lemma pool_traffic_witness:
  "\<exists>b. swap_bot toy_bot = (Inr (10, (5, 0, 5)), b) \<and> gives (bt_sent b) ! 1 = (USDC_ADDRESS, 10 ^ 19) \<and> length (verified (bt_sent b)) = 5"
proof -
  obtain n b where run: "swap_bot toy_bot = (Inr (n, (5, 0, 5)), b)" using toy_bot_runs by blast
  have "toLowerCase ''0xA'' \<noteq> toLowerCase USDC_ADDRESS" by (simp add: toLowerCase_def js_lower_char_def USDC_ADDRESS_def)
  then have "\<forall>n a. se_chain toy_setup n DeployTestTTT = Inr a \<longrightarrow> toLowerCase a \<noteq> toLowerCase USDC_ADDRESS"
    by (simp add: toy_setup_def)
  moreover have "be_deployment toy_bot = Some (Inr (setup_info toy_setup ''0xD'' 84532 ''0xA'' ''0xB''))" by (simp add: toy_bot_def)
  ultimately have "n = 10 \<and> gives (bt_sent b) = map (\<lambda>k. (if even k then dc_testTTT (di_contracts (setup_info toy_setup ''0xD'' 84532 ''0xA'' ''0xB''))
        else USDC_ADDRESS, 10 ^ 19)) [0..<10] \<and>
     verified (bt_sent b) = concat (map (\<lambda>k. if be_swap toy_bot k = None then [- (10 ^ 19)] else []) [0..<10])"
    using pool_traffic [OF toy_setup_written _ _ run] by blast
  then show ?thesis using run by (simp add: toy_bot_def upt_rec)
qed

section \<open>The verification bot\<close>

definition MAX_CALLS :: nat where "MAX_CALLS = 20"
definition CALL_INTERVAL_MS :: int where "CALL_INTERVAL_MS = 15000"

definition swap_delta_of :: "nat \<Rightarrow> int" where
  "swap_delta_of i = parseUnits (10 + int (i mod 5) * 5) 18"

record verify_bot =
  successCount :: nat
  failCount :: nat
  vb_sent :: "bot_action list"

definition vb_send :: "bot_action \<Rightarrow> verify_bot \<Rightarrow> verify_bot" where
  "vb_send a v = v\<lparr>vb_sent := vb_sent v @ [a]\<rparr>"

definition lacks_role :: "js_exn \<Rightarrow> bool" where
  "lacks_role e = js_includes ''AccessControl'' (exn_message e)"

text \<open>\<open>call i\<close> is what the call number \<open>i\<close> and its receipt throw.\<close>

function verify_loop :: "(nat \<Rightarrow> js_exn option) \<Rightarrow> string \<Rightarrow> string \<Rightarrow> nat \<Rightarrow> verify_bot \<Rightarrow> verify_bot" where
  "verify_loop call deployer pool i v =
     (if i < MAX_CALLS then
        let v1 = vb_send (BotVerify deployer pool (swap_delta_of i)) v;
            next_call = (\<lambda>w. verify_loop call deployer pool (i + 1)
              (if i < MAX_CALLS - 1 then vb_send (BotWait CALL_INTERVAL_MS) w else w))
        in case call i of
             None \<Rightarrow> next_call (v1\<lparr>successCount := successCount v1 + 1\<rparr>)
           | Some e \<Rightarrow>
               (let v2 = v1\<lparr>failCount := failCount v1 + 1\<rparr>
                in if lacks_role e then v2 else next_call v2)
      else v)"
  by pat_completeness auto
termination by (relation "measure (\<lambda>(call, deployer, pool, i, v). MAX_CALLS - i)") auto

declare verify_loop.simps [simp del]

definition verify_swap_bot :: "(nat \<Rightarrow> js_exn option) \<Rightarrow> string \<Rightarrow> string \<Rightarrow> verify_bot" where
  "verify_swap_bot call deployer pool =
     verify_loop call deployer pool 0 \<lparr>successCount = 0, failCount = 0, vb_sent = []\<rparr>"

text \<open>The amount of \<open>single_verify\<close>, for a random number of \<open>[0, 1)\<close>.\<close>

definition single_verify_delta :: "rat \<Rightarrow> int" where
  "single_verify_delta random = parseUnits (5 + \<lfloor>random * 45\<rfloor>) 18"

lemma single_verify_range:
  "0 \<le> r \<Longrightarrow> r < 1 \<Longrightarrow> 5 * 10 ^ 18 \<le> single_verify_delta r \<and> single_verify_delta r \<le> 49 * 10 ^ 18"
proof -
  assume r: "0 \<le> r" "r < 1"
  then have "0 \<le> \<lfloor>r * 45\<rfloor>" "\<lfloor>r * 45\<rfloor> < 45" by (simp_all add: floor_less_iff)
  then show ?thesis by (simp add: single_verify_delta_def parseUnits_def)
qed

definition fatal :: "(nat \<Rightarrow> js_exn option) \<Rightarrow> nat \<Rightarrow> bool" where
  "fatal call k \<longleftrightarrow> (\<exists>e. call k = Some e \<and> lacks_role e)"

definition calls_from :: "(nat \<Rightarrow> js_exn option) \<Rightarrow> nat \<Rightarrow> nat \<Rightarrow> verify_bot \<Rightarrow> verify_bot \<Rightarrow> bool" where
  "calls_from call i m v w \<longleftrightarrow>
     verified (vb_sent w) = verified (vb_sent v) @ map swap_delta_of [i..<m] \<and>
     successCount w = successCount v + length (filter (\<lambda>k. call k = None) [i..<m]) \<and>
     failCount w = failCount v + length (filter (\<lambda>k. call k \<noteq> None) [i..<m]) \<and>
     (\<forall>k. i \<le> k \<longrightarrow> k + 1 < m \<longrightarrow> \<not> fatal call k) \<and> (m < 20 \<longrightarrow> i < m \<and> fatal call (m - 1))"

lemma verify_loop_calls: "i \<le> 20 \<Longrightarrow> \<exists>m. i \<le> m \<and> m \<le> 20 \<and> calls_from call i m v (verify_loop call dep pool i v)"
proof (induction "20 - i" arbitrary: i v)
  case 0
  then show ?case by (intro exI [of _ 20]) (simp add: verify_loop.simps MAX_CALLS_def calls_from_def)
next
  case (Suc n)
  then have i: "i < 20" and n: "n = 20 - (i + 1)" by simp_all
  define v1 where "v1 = vb_send (BotVerify dep pool (swap_delta_of i)) v"
  define v2 where "v2 = (if call i = None then v1\<lparr>successCount := successCount v1 + 1\<rparr> else v1\<lparr>failCount := failCount v1 + 1\<rparr>)"
  define v3 where "v3 = (if i < 19 then vb_send (BotWait 15000) v2 else v2)"
  have loop: "verify_loop call dep pool i v = (if fatal call i then v2 else verify_loop call dep pool (i + 1) v3)"
    using i by (subst verify_loop.simps) (auto simp: Let_def MAX_CALLS_def CALL_INTERVAL_MS_def v3_def v2_def v1_def fatal_def split: option.splits)
  have v3: "verified (vb_sent v3) = verified (vb_sent v) @ [swap_delta_of i]" "verified (vb_sent v2) = verified (vb_sent v) @ [swap_delta_of i]"
    "successCount v3 = successCount v2" "failCount v3 = failCount v2"
    "successCount v2 = successCount v + (if call i = None then 1 else 0)" "failCount v2 = failCount v + (if call i = None then 0 else 1)"
    by (simp_all add: v3_def v2_def v1_def vb_send_def map_filter_append map_filter_simps)
  show ?case
  proof (cases "fatal call i")
    case True
    then show ?thesis using i loop v3 by (intro exI [of _ "i + 1"]) (auto simp: calls_from_def)
  next
    case False
    obtain m where m: "i + 1 \<le> m" "m \<le> 20" "calls_from call (i + 1) m v3 (verify_loop call dep pool (i + 1) v3)"
      using Suc.hyps(1) [of "i + 1" v3] n i by auto
    then have "[i..<m] = i # [i + 1..<m]" by (simp add: upt_conv_Cons)
    then have "calls_from call i m v (verify_loop call dep pool i v)"
      using m(1,3) loop v3 False by (auto simp: calls_from_def le_eq_less_or_eq [of i])
    then show ?thesis using m by (intro exI [of _ m]) simp
  qed
qed

text \<open>
  How far the verification bot goes.  It makes twenty calls, or stops after the first one
  that fails for want of the role; the amounts go round 10, 15, 20, 25 and 30 tokens; and what it
  reports counts every call once, by how it came back.
\<close>

theorem verify_bot_stops:
  "\<exists>m \<le> 20. (let v = verify_swap_bot call deployer pool in
     verified (vb_sent v) = map (\<lambda>i. (10 + 5 * int (i mod 5)) * 10 ^ 18) [0..<m] \<and>
     successCount v = length (filter (\<lambda>k. call k = None) [0..<m]) \<and> successCount v + failCount v = m \<and>
     (\<forall>k e. k + 1 < m \<longrightarrow> call k = Some e \<longrightarrow> \<not> lacks_role e) \<and>
     (m < 20 \<longrightarrow> 0 < m \<and> (\<exists>e. call (m - 1) = Some e \<and> lacks_role e)))"
proof -
  obtain m where m: "m \<le> 20" and c: "calls_from call 0 m \<lparr>successCount = 0, failCount = 0, vb_sent = []\<rparr> (verify_swap_bot call deployer pool)"
    using verify_loop_calls [of 0 call _ deployer pool] unfolding verify_swap_bot_def by blast
  have "length (filter (\<lambda>k. call k = None) [0..<m]) + length (filter (\<lambda>k. call k \<noteq> None) [0..<m]) = m"
    using sum_length_filter_compl [of "\<lambda>k. call k = None" "[0..<m]"] by simp
  moreover have "map swap_delta_of [0..<m] = map (\<lambda>i. (10 + 5 * int (i mod 5)) * 10 ^ 18) [0..<m]"
    by (simp add: swap_delta_of_def parseUnits_def)
  ultimately show ?thesis
    using m c by (intro exI [of _ m]) (simp add: calls_from_def fatal_def map_filter_simps Let_def)
qed

section \<open>The whole verification bot\<close>

text \<open>
  \<open>main\<close> of \<open>verify_swap_bot.ts\<close>: the reads before the loop, any of which may throw, the loop,
  and the reads after it.  It prints the mode it expects, the counts and the ether spent.
\<close>

record verify_env =
  ve_deployer :: "string option"
  ve_balance :: "js_exn + int"
  ve_tokenId :: "js_exn + int"
  ve_tttBalance :: "string \<Rightarrow> int \<Rightarrow> js_exn + int"
  ve_minBalance :: "js_exn + int"
  ve_turboFee :: "js_exn + int"
  ve_fullFee :: "js_exn + int"
  ve_initStats :: "js_exn + int \<times> int \<times> int"
  ve_poolId :: string
  ve_call :: "nat \<Rightarrow> js_exn option"
  ve_finalStats :: "js_exn + int \<times> int \<times> int"
  ve_finalBalance :: "js_exn + int"

record verify_summary =
  vs_expected :: string
  vs_success :: nat
  vs_fail :: nat
  vs_stats :: "int \<times> int \<times> int"
  vs_spent :: int

definition verify_reads :: "verify_env \<Rightarrow> js_exn + string \<times> int \<times> string" where
  "verify_reads E =
     bindr (need (JsError ''No deployer found. Set DEPLOYER_PRIVATE_KEY in .env'') (ve_deployer E)) (\<lambda>deployer.
     bindr (ve_balance E) (\<lambda>balance.
     bindr (ve_tokenId E) (\<lambda>tokenId.
     bindr (ve_tttBalance E deployer tokenId) (\<lambda>tttBalance.
     bindr (ve_minBalance E) (\<lambda>minBalance.
     bindr (ve_turboFee E) (\<lambda>_.
     bindr (ve_fullFee E) (\<lambda>_.
     bindr (ve_initStats E) (\<lambda>_.
     Inr (deployer, balance, if minBalance \<le> tttBalance then ''TURBO'' else ''FULL'')))))))))"

definition verify_bot_main :: "verify_env \<Rightarrow> (verify_bot, verify_summary) script" where
  "verify_bot_main E =
     script_bind (script_lift (verify_reads E)) (\<lambda>(deployer, balance, expected) v.
       let w = verify_loop (ve_call E) deployer (ve_poolId E) 0 v
       in (bindr (ve_finalStats E) (\<lambda>stats.
           bindr (ve_finalBalance E) (\<lambda>finalBalance.
           Inr \<lparr>vs_expected = expected, vs_success = successCount w, vs_fail = failCount w, vs_stats = stats,
                vs_spent = balance - finalBalance\<rparr>)), w))"

definition fresh_verify_bot :: verify_bot where
  "fresh_verify_bot = \<lparr>successCount = 0, failCount = 0, vb_sent = []\<rparr>"

text \<open>
  A run of the bot.  Where a read before the loop throws, nothing is sent and nothing printed.
  Otherwise the calls are those of the loop, whether or not the reads after it throw; and a run that
  comes to its summary has made at most twenty calls, each counted once.
\<close>

theorem verify_main_outcome:
  "(\<forall>e. verify_reads E = Inl e \<longrightarrow> verify_bot_main E fresh_verify_bot = (Inl e, fresh_verify_bot)) \<and>
   (\<forall>d b m. verify_reads E = Inr (d, b, m) \<longrightarrow>
      snd (verify_bot_main E fresh_verify_bot) = verify_swap_bot (ve_call E) d (ve_poolId E)) \<and>
   (\<forall>s w. verify_bot_main E fresh_verify_bot = (Inr s, w) \<longrightarrow>
      vs_success s + vs_fail s = length (verified (vb_sent w)) \<and> length (verified (vb_sent w)) \<le> 20 \<and>
      (vs_expected s = ''TURBO'' \<or> vs_expected s = ''FULL''))"
proof (intro conjI allI impI)
  fix s w
  assume run: "verify_bot_main E fresh_verify_bot = (Inr s, w)"
  then obtain d b where r: "verify_reads E = Inr (d, b, vs_expected s)"
    and w: "w = verify_loop (ve_call E) d (ve_poolId E) 0 fresh_verify_bot"
    and s: "vs_success s = successCount w" "vs_fail s = failCount w"
    by (auto simp: verify_bot_main_def script_bind_Inr script_lift_def Let_def bindr_Inr)
  obtain m where m: "m \<le> 20" and c: "calls_from (ve_call E) 0 m fresh_verify_bot w"
    using verify_loop_calls [of 0] unfolding w by blast
  have "length (filter (\<lambda>k. ve_call E k = None) [0..<m]) + length (filter (\<lambda>k. ve_call E k \<noteq> None) [0..<m]) = m"
    using sum_length_filter_compl [of "\<lambda>k. ve_call E k = None" "[0..<m]"] by simp
  then have "vs_success s + vs_fail s = m" "length (verified (vb_sent w)) = m"
    using c s by (simp_all add: calls_from_def fresh_verify_bot_def)
  then show "vs_success s + vs_fail s = length (verified (vb_sent w))" "length (verified (vb_sent w)) \<le> 20"
    using m by simp_all
  show "vs_expected s = ''TURBO'' \<or> vs_expected s = ''FULL''"
    using r by (auto simp: verify_reads_def bindr_Inr split: if_splits)
qed (auto simp: verify_bot_main_def script_bind_def script_lift_def Let_def verify_swap_bot_def fresh_verify_bot_def)

end
