(* ===== verification/Demos.thy ===== *)
theory Demos
  imports X402 PotSigner
begin

text \<open>
  Two of the examples, run whole: a payment with a proof in its header, its replay and its
  alteration (\<open>examples/x402-pot/x402_pot_example.ts\<close>), and the second phase of
  \<open>examples/05-flashbots-protect.ts\<close>, which synthesizes, generates, signs and verifies.
  Every reading of the clock is an argument.  A dash of the source's texts becomes a hyphen.
\<close>

section \<open>A payment header\<close>

record example_pot =
  ep_timestamp :: string
  ep_hmac :: string
  ep_nonce :: string
  ep_sources :: int
  ep_confidence :: rat
  ep_expiresAt :: string

record x402_header =
  xh_scheme :: string
  xh_network :: string
  xh_maxAmountRequired :: string
  xh_resource :: string
  xh_description :: string
  xh_mimeType :: string
  xh_payTo :: string
  xh_maxTimeoutSeconds :: int
  xh_asset :: string
  xh_pot :: "example_pot option"

definition buildPaymentHeader :: "http_pot \<Rightarrow> string \<Rightarrow> x402_header" where
  "buildPaymentHeader pot payTo =
     \<lparr>xh_scheme = ''exact'', xh_network = ''base-mainnet'', xh_maxAmountRequired = ''1000000'',
      xh_resource = ''https://api.example.com/v1/inference'',
      xh_description = ''AI inference call - PoT-attested payment'', xh_mimeType = ''application/json'',
      xh_payTo = payTo, xh_maxTimeoutSeconds = 30, xh_asset = ''0x833589fCD6eDb6E08f4c7C32D4f71b54bdA02913'',
      xh_pot = Some \<lparr>ep_timestamp = show_int (hp_timestamp pot), ep_hmac = hp_hmac pot, ep_nonce = hp_nonce pot,
        ep_sources = hp_sources pot, ep_confidence = hp_confidence pot, ep_expiresAt = show_int (hp_expiresAt pot)\<rparr>\<rparr>"

text \<open>The receiver's proof has no readings.\<close>

definition header_pot :: "example_pot \<Rightarrow> js_exn + http_pot" where
  "header_pot raw =
     bindr (js_BigInt (Some (JStr (ep_timestamp raw)))) (\<lambda>timestamp.
     bindr (js_BigInt (Some (JStr (ep_expiresAt raw)))) (\<lambda>expires.
     Inr \<lparr>hp_timestamp = timestamp, hp_confidence = ep_confidence raw, hp_stratum = 2, hp_sources = ep_sources raw,
          hp_sourceReadings = [], hp_nonce = ep_nonce raw, hp_expiresAt = expires, hp_hmac = ep_hmac raw\<rparr>))"

definition result_valid :: "(js_exn + http_verify_result) \<times> http_client \<Rightarrow> (js_exn + bool) \<times> http_client" where
  "result_valid r = (bindr (fst r) (\<lambda>v. Inr (hv_valid v)), snd r)"

definition verify_header ::
    "(string \<Rightarrow> string \<Rightarrow> bytes) \<Rightarrow> int \<Rightarrow> int \<Rightarrow> x402_header \<Rightarrow> http_client \<Rightarrow> (js_exn + bool) \<times> http_client" where
  "verify_header hmac t_exp t_now header c =
     (case xh_pot header of
        None \<Rightarrow> (Inr False, c)
      | Some raw \<Rightarrow>
          (case header_pot raw of
             Inl e \<Rightarrow> (Inl e, c)
           | Inr pot \<Rightarrow> result_valid (verifyPoT hmac t_exp t_now pot c)))"

definition tampered_pot :: "example_pot \<Rightarrow> js_exn + example_pot" where
  "tampered_pot raw =
     bindr (js_BigInt (Some (JStr (ep_timestamp raw)))) (\<lambda>t.
     Inr (raw\<lparr>ep_timestamp := show_int (t + 1000000000)\<rparr>))"

record demo_times =
  dt_generated :: int
  dt_accept :: "int \<times> int"
  dt_replay :: "int \<times> int"
  dt_tamper :: "int \<times> int"

text \<open>The three answers printed: for the payment, its replay and its alteration.\<close>

definition x402_demo ::
    "(string \<Rightarrow> string \<Rightarrow> bytes) \<Rightarrow> time_reading settle list \<Rightarrow> bytes \<Rightarrow> demo_times \<Rightarrow> js_exn + bool \<times> bool \<times> bool" where
  "x402_demo hmac results rand clock =
     (let ttt = HttpOnlyClient None (Some 3000) (Some 60) None in
      bindr (generatePoT hmac results rand (dt_generated clock) ttt) (\<lambda>pot.
      let header = buildPaymentHeader pot ''0x1234567890abcdef1234567890abcdef12345678'';
          (r1, ttt1) = verify_header hmac (fst (dt_accept clock)) (snd (dt_accept clock)) header ttt in
      bindr r1 (\<lambda>accepted.
      bindr (fst (verify_header hmac (fst (dt_replay clock)) (snd (dt_replay clock)) header ttt1)) (\<lambda>replayAccepted.
      bindr (bindr (tampered_pot (the (xh_pot header))) header_pot) (\<lambda>tampered.
      bindr (fst (result_valid (verifyPoT hmac (fst (dt_tamper clock)) (snd (dt_tamper clock)) tampered
                (HttpOnlyClient None None None None)))) (\<lambda>tamperedAccepted.
      Inr (accepted, replayAccepted, tamperedAccepted)))))))"

lemma header_pot_built:
  "header_pot (the (xh_pot (buildPaymentHeader pot payTo))) =
     Inr (pot\<lparr>hp_stratum := 2, hp_sourceReadings := []\<rparr>)"
  by (simp add: buildPaymentHeader_def header_pot_def)

lemma header_pot_tampered:
  "bindr (tampered_pot (the (xh_pot (buildPaymentHeader pot payTo)))) header_pot =
     Inr (pot\<lparr>hp_timestamp := hp_timestamp pot + 1000000000, hp_stratum := 2, hp_sourceReadings := []\<rparr>)"
  by (simp add: buildPaymentHeader_def header_pot_def tampered_pot_def)

text \<open>One verification of a proof without readings, by a client with the secret of its HMAC's length.\<close>

lemma verify_bare:
  assumes "hp_sourceReadings pot = []" and "t_exp \<le> hp_expiresAt pot"
    and "length (hex_decode (hp_hmac pot)) = length (hmac (hmacSecret c)
           (canonical_msg (hp_timestamp pot) (hp_nonce pot) (hp_expiresAt pot) (hp_sources pot)))"
    and "hc_usedNonces c = []"
  shows "result_valid (verifyPoT hmac t_exp t_now pot c) =
     (let same = (hex_decode (hp_hmac pot) = hmac (hmacSecret c)
           (canonical_msg (hp_timestamp pot) (hp_nonce pot) (hp_expiresAt pot) (hp_sources pot)))
      in (Inr same, if same then c\<lparr>hc_usedNonces := [(hp_nonce pot, t_now)]\<rparr> else c))"
  using assms by (auto simp: verifyPoT_def result_valid_def computeHmac_def timingSafeEqual_def nonce_cache_step_def
      jm_has_def jm_put_fifo_def jm_set_def MAX_NONCE_CACHE_def Let_def)

lemma verify_bare_again:
  assumes "t_exp \<le> hp_expiresAt pot" and "hc_usedNonces c = [(hp_nonce pot, t)]"
    and "hex_decode (hp_hmac pot) = hmac (hmacSecret c)
           (canonical_msg (hp_timestamp pot) (hp_nonce pot) (hp_expiresAt pot) (hp_sources pot))"
  shows "fst (result_valid (verifyPoT hmac t_exp t_now pot c)) = Inr False"
  using assms by (auto simp: verifyPoT_def result_valid_def computeHmac_def timingSafeEqual_def nonce_cache_step_def
      jm_has_def MAX_NONCE_CACHE_def Let_def)

text \<open>
  C36. The payment example keeps what it says.  Whenever a source answers, and the rest happens within
  the minute that the proof is valid, the payment is accepted and its replay refused; and the proof
  moved by a second is accepted exactly if the keyed hash, whose digests have 32 bytes, gives the
  canonical message of the proof and that of the moved one, which differ, the same digest.
\<close>

theorem x402_demo_outcome:
  assumes digest: "\<And>s m. length (hmac s m) = 32"
    and gen: "fulfilled_values results \<noteq> []"
    and clk: "fst (dt_accept clock) \<le> dt_generated clock + 60000" "fst (dt_replay clock) \<le> dt_generated clock + 60000"
      "fst (dt_tamper clock) \<le> dt_generated clock + 60000"
  shows "\<exists>pot. generatePoT hmac results rand (dt_generated clock) (HttpOnlyClient None (Some 3000) (Some 60) None) = Inr pot \<and>
     (let msg = \<lambda>t. canonical_msg t (hp_nonce pot) (hp_expiresAt pot) (hp_sources pot);
          t = hp_timestamp pot
      in msg t \<noteq> msg (t + 1000000000) \<and>
         x402_demo hmac results rand clock =
           Inr (True, False, hmac SANDBOX_HMAC_SECRET (msg t) = hmac SANDBOX_HMAC_SECRET (msg (t + 1000000000))))"
proof -
  let ?c = "HttpOnlyClient None (Some 3000) (Some 60) None" let ?now = "dt_generated clock"
  let ?msg = "\<lambda>p. canonical_msg (hp_timestamp p) (hp_nonce p) (hp_expiresAt p) (hp_sources p)"
  obtain pot where g: "generatePoT hmac results rand ?now ?c = Inr pot" and e: "hp_expiresAt pot = ?now + 60000"
    using gen by (simp add: generatePoT_def Let_def HttpOnlyClient_def case_prod_beta)
  have h: "hex_decode (hp_hmac pot) = hmac SANDBOX_HMAC_SECRET (?msg pot)"
    using generatePoT_Inr [OF g] by (simp add: computeHmac_def HttpOnlyClient_def)
  let ?p = "pot\<lparr>hp_stratum := 2, hp_sourceReadings := []\<rparr>"
  let ?t = "pot\<lparr>hp_timestamp := hp_timestamp pot + 1000000000, hp_stratum := 2, hp_sourceReadings := []\<rparr>"
  have first: "result_valid (verifyPoT hmac (fst (dt_accept clock)) (snd (dt_accept clock)) ?p ?c)
      = (Inr True, ?c\<lparr>hc_usedNonces := [(hp_nonce pot, snd (dt_accept clock))]\<rparr>)"
    by (subst verify_bare) (use clk(1) e h in \<open>simp_all add: digest HttpOnlyClient_def\<close>)
  have second: "fst (result_valid (verifyPoT hmac (fst (dt_replay clock)) (snd (dt_replay clock)) ?p
      (?c\<lparr>hc_usedNonces := [(hp_nonce pot, snd (dt_accept clock))]\<rparr>))) = Inr False"
    by (rule verify_bare_again) (use clk(2) e h in \<open>simp_all add: HttpOnlyClient_def\<close>)
  have third: "fst (result_valid (verifyPoT hmac (fst (dt_tamper clock)) (snd (dt_tamper clock)) ?t (HttpOnlyClient None None None None)))
      = Inr (hmac SANDBOX_HMAC_SECRET (?msg pot) = hmac SANDBOX_HMAC_SECRET (?msg ?t))"
    by (subst verify_bare) (use clk(3) e h in \<open>simp_all add: digest HttpOnlyClient_def Let_def\<close>)
  have "?msg pot \<noteq> ?msg ?t" by (simp add: canonical_fields)
  moreover have "x402_demo hmac results rand clock =
      Inr (True, False, hmac SANDBOX_HMAC_SECRET (?msg pot) = hmac SANDBOX_HMAC_SECRET (?msg ?t))"
    using first second third header_pot_built [of pot] header_pot_tampered [of pot]
    by (simp add: x402_demo_def g verify_header_def Let_def) (simp add: buildPaymentHeader_def)
  ultimately show ?thesis using g by (intro exI [of _ pot]) (simp add: Let_def)
qed

text \<open>A hash of 32 bytes that tells messages of different length apart: the moved proof is refused.\<close>

definition length_hmac :: "string \<Rightarrow> string \<Rightarrow> bytes" where
  "length_hmac secret msg = replicate 32 (word_of_nat (length msg))"

lemma length_hmac_moved:
  "length_hmac secret (canonical_msg 1000 nonce expires sources) \<noteq> length_hmac secret (canonical_msg 1000001000 nonce expires sources)"
proof -
  have "length (show_int 1000) = 4" "length (show_int 1000001000) = 10"
    by (simp_all add: show_int_def nat_digits.simps)
  then have "length_hmac secret (canonical_msg 1000 nonce expires sources) = length_hmac secret (canonical_msg 1000001000 nonce expires sources) \<longleftrightarrow>
      (word_of_nat 4 :: byte) = word_of_nat 10"
    by (simp add: length_hmac_def canonical_msg_def)
  then show ?thesis by simp
qed

lemma x402_demo_outcome_witness:
  "x402_demo length_hmac [Fulfilled (sample_reading ''nist'' 1000)] [7]
     \<lparr>dt_generated = 0, dt_accept = (10, 11), dt_replay = (20, 21), dt_tamper = (30, 31)\<rparr> = Inr (True, False, False)"
proof -
  let ?clock = "\<lparr>dt_generated = 0, dt_accept = (10, 11), dt_replay = (20, 21), dt_tamper = (30, 31)\<rparr>"
  let ?r = "[Fulfilled (sample_reading ''nist'' 1000)]" and ?c = "HttpOnlyClient None (Some 3000) (Some 60) None"
  have hyps: "length (length_hmac s m) = 32" "fulfilled_values ?r \<noteq> []"
    "fst (dt_accept ?clock) \<le> dt_generated ?clock + 60000" "fst (dt_replay ?clock) \<le> dt_generated ?clock + 60000"
    "fst (dt_tamper ?clock) \<le> dt_generated ?clock + 60000" for s m
    by (simp_all add: length_hmac_def)
  obtain pot where g: "generatePoT length_hmac ?r [7] (dt_generated ?clock) ?c = Inr pot"
    and run: "let msg = \<lambda>t. canonical_msg t (hp_nonce pot) (hp_expiresAt pot) (hp_sources pot); t = hp_timestamp pot
      in msg t \<noteq> msg (t + 1000000000) \<and> x402_demo length_hmac ?r [7] ?clock =
        Inr (True, False, length_hmac SANDBOX_HMAC_SECRET (msg t) = length_hmac SANDBOX_HMAC_SECRET (msg (t + 1000000000)))"
    using x402_demo_outcome [where hmac = length_hmac and rand = "[7]", OF hyps] by blast
  have t: "hp_timestamp pot = 1000"
    using g by (auto simp: generatePoT_def select_time_def HttpOnlyClient_def sample_reading_def Let_def)
  then show ?thesis using run length_hmac_moved by (simp add: t Let_def)
qed

section \<open>Generating, signing, verifying\<close>

definition flashbots_sources :: "string list" where
  "flashbots_sources = [''nist'', ''google'', ''cloudflare'', ''apple'']"

text \<open>
  What the phase meets: the answers of the two rounds of sources, the random bytes, the
  clock, and the key of the signer.
\<close>

record 'k phase_env =
  fb_first :: "time_reading settle list"
  fb_second :: "time_reading settle list"
  fb_rand :: bytes
  fb_issued :: int
  fb_checked :: "int \<times> int"
  fb_signed :: int
  fb_verified :: "int \<times> int"
  fb_key :: 'k

text \<open>The lines \<open>Verify\<close> and \<open>Integrity\<close> it prints, in that order.\<close>

definition phaseB ::
    "'k ed25519 \<Rightarrow> (string list \<Rightarrow> int list \<Rightarrow> js_exn + bytes) \<Rightarrow> (bytes \<Rightarrow> string) \<Rightarrow> 'k phase_env \<Rightarrow> time_synthesis
     \<Rightarrow> (bool \<times> bool) settle" where
  "phaseB C abi_encode keccak256 env ts =
     (case synthesize (fb_first env) ts of
        Uncaught e \<Rightarrow> Uncaught e
      | Rejected e \<Rightarrow> Rejected e
      | Fulfilled synth \<Rightarrow>
          (case generateProofOfTime (fb_second env) (fb_rand env) (fb_issued env) (fst (fb_checked env)) (snd (fb_checked env)) ts of
             (Uncaught e, ts1) \<Rightarrow> Uncaught e
           | (Rejected e, ts1) \<Rightarrow> Rejected e
           | (Fulfilled pot, ts1) \<Rightarrow>
               (case bindr (PotSigner C (fb_key env) None) (\<lambda>signer.
                     bindr (getOnChainHash abi_encode keccak256 pot) (\<lambda>potHash.
                     Inr (verifyPotSignature C potHash (signPot C (fb_signed env) potHash signer) None))) of
                  Inl e \<Rightarrow> Rejected e
                | Inr sigValid \<Rightarrow>
                    Fulfilled (sigValid, fst (verifyProofOfTime (fst (fb_verified env)) (snd (fb_verified env)) pot ts1)))))"

text \<open>What the example prints at last: a rejection is caught, and its message printed.\<close>

definition flashbots_example ::
    "'k ed25519 \<Rightarrow> (string list \<Rightarrow> int list \<Rightarrow> js_exn + bytes) \<Rightarrow> (bytes \<Rightarrow> string) \<Rightarrow> 'k phase_env
     \<Rightarrow> (string + bool \<times> bool) settle" where
  "flashbots_example C abi_encode keccak256 env =
     (case TimeSynthesis (Some flashbots_sources) of
        Inl e \<Rightarrow> Rejected e
      | Inr ts \<Rightarrow>
          (case phaseB C abi_encode keccak256 env ts of
             Uncaught e \<Rightarrow> Uncaught e
           | Rejected e \<Rightarrow> Fulfilled (Inl (exn_message e))
           | Fulfilled r \<Rightarrow> Fulfilled (Inr r)))"

text \<open>
  The Flashbots example contradicts itself.  In every run that comes to its end, whatever the
  sources answered, it prints that the signature passes and that the integrity of the proof
  fails: the instance that generated the proof has recorded its nonce, and refuses it.  The
  clock may not have gone back before the nonce was recorded, nor more than four minutes forward.
\<close>

theorem flashbots_example_fails:
  assumes "ed25519_laws C" and "fb_issued env \<le> snd (fb_checked env)" and "snd (fb_verified env) \<le> fst (fb_verified env) + 240000"
    and "flashbots_example C abi_encode keccak256 env = Fulfilled (Inr (sigValid, potValid))"
  shows "sigValid \<and> \<not> potValid"
proof -
  obtain ts where ts: "TimeSynthesis (Some flashbots_sources) = Inr ts"
    and r: "phaseB C abi_encode keccak256 env ts = Fulfilled (sigValid, potValid)"
    using assms(4) by (auto simp: flashbots_example_def split: sum.splits settle.splits)
  obtain pot ts1 signer h where g: "generateProofOfTime (fb_second env) (fb_rand env) (fb_issued env)
        (fst (fb_checked env)) (snd (fb_checked env)) ts = (Fulfilled pot, ts1)"
    and signer: "PotSigner C (fb_key env) None = Inr signer"
    and sig: "sigValid = verifyPotSignature C h (signPot C (fb_signed env) h signer) None"
    and pot: "potValid = fst (verifyProofOfTime (fst (fb_verified env)) (snd (fb_verified env)) pot ts1)"
    using r by (auto simp: phaseB_def result_simps split: settle.splits prod.splits sum.splits)
  have "\<not> potValid"
    unfolding pot by (rule generated_rejected [OF TimeSynthesis_fresh [OF ts] g assms(2,3)])
  moreover have sigValid
    using PotSigner_ok [OF signer] assms(1) by (simp add: sig verifyPotSignature_def signPot_def signer_ok_def ed25519_laws_def)
  ultimately show ?thesis by blast
qed

definition toy_phase :: "nat phase_env" where
  "toy_phase =
     (let r = [Fulfilled \<lparr>tr_timestamp = 1000, tr_uncertainty = 1, tr_stratum = 2, tr_source = ''nist''\<rparr>] in
      \<lparr>fb_first = r, fb_second = r, fb_rand = [7], fb_issued = 0, fb_checked = (0, 0), fb_signed = 0, fb_verified = (5, 5),
       fb_key = 3\<rparr>)"

lemma flashbots_runs:
  "\<exists>sigValid potValid. flashbots_example toy_ed25519 (\<lambda>ts vs. Inr [1]) (\<lambda>b. ''0xab'') toy_phase
     = Fulfilled (Inr (sigValid, potValid))"
proof -
  obtain ns where ts: "TimeSynthesis (Some flashbots_sources) = Inr \<lparr>ts_sources = ns, usedNonces = []\<rparr>" "ns \<noteq> []"
    by (simp add: TimeSynthesis_eq flashbots_sources_def named_sources_def)
  show ?thesis
    using ts(2) by (simp add: flashbots_example_def ts(1) phaseB_def toy_phase_def synthesize_def generateProofOfTime_def
        select_time_def verifyProofOfTime_def Let_def nonce_cache_step_def getOnChainHash_def js_round_def reading_entry_def
        MAX_NONCE_CACHE_def jm_has_def getToleranceForStratum_def reading_tolerance_def PotSigner_def)
qed

lemma flashbots_example_fails_witness:
  "flashbots_example toy_ed25519 (\<lambda>ts vs. Inr [1]) (\<lambda>b. ''0xab'') toy_phase = Fulfilled (Inr (True, False))"
proof -
  obtain sv pv where run: "flashbots_example toy_ed25519 (\<lambda>ts vs. Inr [1]) (\<lambda>b. ''0xab'') toy_phase = Fulfilled (Inr (sv, pv))"
    using flashbots_runs by blast
  have "ed25519_laws toy_ed25519" by (simp add: ed25519_laws_def toy_ed25519_def)
  then have "sv \<and> \<not> pv"
    by (rule flashbots_example_fails [OF _ _ _ run]) (simp_all add: toy_phase_def Let_def)
  then show ?thesis using run by simp
qed

end
