(* ===== verification/HttpsRequests.thy ===== *)
theory HttpsRequests
  imports TimeSynthesis
begin

text \<open>
  The requests of one \<open>HTTPSTimeSource\<close> over time (\<open>time_synthesis.ts\<close>): many calls of
  \<open>getTime\<close> share the set \<open>activeRequests\<close>, their events come in any order, and \<open>close\<close> may
  fall between them.  A request is known by the number of its call.  The result of a call does not
  depend on the others; its place in the set does, on \<open>close\<close> only.  But they share one process: an
  exception that escapes from a callback of one stops it for all.
\<close>

section \<open>Calls and close\<close>

datatype https_op = HttpsGet int | HttpsEvent nat https_event | HttpsClose

record https_requests =
  hr_calls :: "(int \<times> https_call) list"
  hr_destroyed :: "nat list"

definition new_requests :: https_requests where
  "new_requests = \<lparr>hr_calls = [], hr_destroyed = []\<rparr>"

definition activeRequests :: "https_requests \<Rightarrow> nat list" where
  "activeRequests s = filter (\<lambda>i. hc_active (snd (hr_calls s ! i))) [0..<length (hr_calls s)]"

text \<open>\<open>close\<close> destroys what is active, in the order of the calls, and clears the set.\<close>

definition https_close :: "https_requests \<Rightarrow> https_requests" where
  "https_close s =
     \<lparr>hr_calls = map (\<lambda>(t1, c). (t1, c\<lparr>hc_active := False\<rparr>)) (hr_calls s),
      hr_destroyed = hr_destroyed s @ activeRequests s\<rparr>"

definition on_call :: "(string \<Rightarrow> int option) \<Rightarrow> https_source \<Rightarrow> https_event \<Rightarrow> int \<times> https_call \<Rightarrow> int \<times> https_call" where
  "on_call parse_date src ev = (\<lambda>(t1, c). (t1, https_step parse_date src t1 ev c))"

text \<open>The exception that stopped the process, if one did.\<close>

definition stopped :: "https_requests \<Rightarrow> js_exn option" where
  "stopped s = (case List.map_filter (\<lambda>(t1, c). hc_crash c) (hr_calls s) of [] \<Rightarrow> None | e # es \<Rightarrow> Some e)"

fun https_op_live :: "(string \<Rightarrow> int option) \<Rightarrow> https_source \<Rightarrow> https_op \<Rightarrow> https_requests \<Rightarrow> https_requests" where
  "https_op_live parse_date src (HttpsGet now) s = s\<lparr>hr_calls := hr_calls s @ [(now * 1000000, new_https_call)]\<rparr>"
| "https_op_live parse_date src (HttpsEvent i ev) s =
     (if i < length (hr_calls s) then s\<lparr>hr_calls := (hr_calls s)[i := on_call parse_date src ev (hr_calls s ! i)]\<rparr> else s)"
| "https_op_live parse_date src HttpsClose s = https_close s"

definition https_op_step :: "(string \<Rightarrow> int option) \<Rightarrow> https_source \<Rightarrow> https_op \<Rightarrow> https_requests \<Rightarrow> https_requests" where
  "https_op_step parse_date src op s = (if stopped s = None then https_op_live parse_date src op s else s)"

definition https_ops :: "(string \<Rightarrow> int option) \<Rightarrow> https_source \<Rightarrow> https_op list \<Rightarrow> https_requests" where
  "https_ops parse_date src ops = fold (https_op_step parse_date src) ops new_requests"

text \<open>\<open>close\<close> of the synthesis: every source that has one, then the nonces.\<close>

definition synthesis_close :: "https_requests list \<Rightarrow> time_synthesis \<Rightarrow> https_requests list \<times> time_synthesis" where
  "synthesis_close sources ts = (map https_close sources, close_synthesis ts)"

section \<open>The view of one call\<close>

fun is_get :: "https_op \<Rightarrow> bool" where
  "is_get (HttpsGet now) = True"
| "is_get _ = False"

definition gets :: "https_op list \<Rightarrow> nat" where
  "gets ops = length (filter is_get ops)"

fun event_of :: "nat \<Rightarrow> https_op \<Rightarrow> https_event option" where
  "event_of i (HttpsEvent j ev) = (if i = j then Some ev else None)"
| "event_of i _ = None"

text \<open>A request has no events before it exists.\<close>

definition events_later :: "https_op list \<Rightarrow> bool" where
  "events_later ops \<longleftrightarrow> (\<forall>k i ev. k < length ops \<longrightarrow> ops ! k = HttpsEvent i ev \<longrightarrow> i < gets (take k ops))"

definition start_time :: "nat \<Rightarrow> https_op list \<Rightarrow> int" where
  "start_time i ops = (case filter is_get ops ! i of HttpsGet now \<Rightarrow> now | _ \<Rightarrow> 0)"

text \<open>Whether \<open>close\<close> was called after call \<open>i\<close>.\<close>

definition closed_after :: "nat \<Rightarrow> https_op list \<Rightarrow> bool" where
  "closed_after i ops \<longleftrightarrow> (\<exists>k < length ops. ops ! k = HttpsClose \<and> i < gets (take k ops))"

lemma gets_snoc [simp]: "gets (ops @ [op]) = gets ops + (if is_get op then 1 else 0)"
  by (simp add: gets_def)

lemma gets_Nil [simp]: "gets [] = 0"
  by (simp add: gets_def)

lemma events_later_snoc:
  "events_later (ops @ [op]) \<longleftrightarrow> events_later ops \<and> (\<forall>i ev. op = HttpsEvent i ev \<longrightarrow> i < gets ops)"
  by (fastforce simp: events_later_def nth_append less_Suc_eq)

lemma events_later_prefix: "events_later (xs @ ys) \<Longrightarrow> events_later xs"
  by (induction ys rule: rev_induct) (simp_all add: events_later_snoc flip: append_assoc)

lemma closed_after_snoc:
  "closed_after i (ops @ [op]) \<longleftrightarrow> closed_after i ops \<or> op = HttpsClose \<and> i < gets ops"
  by (fastforce simp: closed_after_def nth_append less_Suc_eq)

lemma closed_after_started: "closed_after i ops \<Longrightarrow> i < gets ops"
proof -
  assume "closed_after i ops"
  then obtain k where "i < gets (take k ops)" by (auto simp: closed_after_def)
  moreover have "gets ops = gets (take k ops) + gets (drop k ops)"
    unfolding gets_def by (metis append_take_drop_id filter_append length_append)
  ultimately show ?thesis by simp
qed

lemma start_time_snoc:
  "i < gets ops \<Longrightarrow> start_time i (ops @ [op]) = start_time i ops"
  "start_time (gets ops) (ops @ [HttpsGet now]) = now"
  by (simp_all add: start_time_def gets_def nth_append)

section \<open>While no exception escapes\<close>

fun op_throws :: "(string \<Rightarrow> int option) \<Rightarrow> https_op \<Rightarrow> bool" where
  "op_throws parse_date (HttpsEvent i ev) = throws_out parse_date ev"
| "op_throws parse_date _ = False"

lemma stopped_None: "stopped s = None \<longleftrightarrow> (\<forall>tc \<in> set (hr_calls s). hc_crash (snd tc) = None)"
proof -
  have "List.map_filter (\<lambda>(t1, c). hc_crash c) xs = [] \<longleftrightarrow> (\<forall>tc \<in> set xs. hc_crash (snd tc) = None)" for xs :: "(int \<times> https_call) list"
    by (induction xs) (auto simp: map_filter_simps split: option.splits)
  then show ?thesis unfolding stopped_def by (metis list.exhaust list.simps(4,5) option.distinct(1))
qed

lemma live_ok:
  assumes "\<forall>tc \<in> set (hr_calls s). hc_crash (snd tc) = None" and "\<not> op_throws parse_date op"
  shows "\<forall>tc \<in> set (hr_calls (https_op_live parse_date src op s)). hc_crash (snd tc) = None"
proof (cases op)
  case (HttpsEvent i ev)
  then show ?thesis
    using assms by (auto simp: on_call_def https_step_crash case_prod_beta dest!: set_update_subset_insert [THEN subsetD])
qed (use assms in \<open>auto simp: new_https_call_def https_close_def\<close>)

lemma quiet_running: "\<forall>op \<in> set ops. \<not> op_throws parse_date op \<Longrightarrow> stopped (https_ops parse_date src ops) = None"
proof (induction ops rule: rev_induct)
  case (snoc op ops)
  then show ?case
    using live_ok [of "https_ops parse_date src ops" parse_date op src]
    by (simp add: https_ops_def https_op_step_def stopped_None)
qed (simp add: https_ops_def new_requests_def stopped_None)

lemma quiet_snoc:
  "\<forall>op \<in> set ops. \<not> op_throws parse_date op \<Longrightarrow>
   https_ops parse_date src (ops @ [op]) = https_op_live parse_date src op (https_ops parse_date src ops)"
  using quiet_running [of ops parse_date src] by (simp add: https_ops_def https_op_step_def)

text \<open>Calls are numbered by their \<open>getTime\<close>.\<close>

lemma length_calls: "\<forall>op \<in> set ops. \<not> op_throws parse_date op \<Longrightarrow> length (hr_calls (https_ops parse_date src ops)) = gets ops"
proof (induction ops rule: rev_induct)
  case (snoc op ops)
  then show ?case by (cases op) (auto simp: quiet_snoc https_close_def)
qed (simp add: https_ops_def new_requests_def)

definition call_env :: "nat \<Rightarrow> https_op list \<Rightarrow> int \<times> https_event list" where
  "call_env i ops = (start_time i ops, List.map_filter (event_of i) ops)"

text \<open>A call among others is the call alone, but for its place in the set.\<close>

definition call_seen :: "(string \<Rightarrow> int option) \<Rightarrow> https_source \<Rightarrow> nat \<Rightarrow> https_op list \<Rightarrow> int \<times> https_call" where
  "call_seen parse_date src i ops =
     (let c = https_run parse_date (call_env i ops) src
      in (start_time i ops * 1000000, c\<lparr>hc_active := (hc_active c \<and> \<not> closed_after i ops)\<rparr>))"

lemma events_of_new: "events_later ops \<Longrightarrow> gets ops \<le> i \<Longrightarrow> List.map_filter (event_of i) ops = []"
proof (induction ops rule: rev_induct)
  case (snoc op ops)
  then show ?case
    by (cases op) (auto simp: map_filter_append map_filter_simps events_later_snoc split: if_splits)
qed (simp add: map_filter_simps)

lemma call_env_snoc:
  assumes "i < gets ops"
  shows "call_env i (ops @ [op]) =
    (start_time i ops, List.map_filter (event_of i) ops @ (case event_of i op of None \<Rightarrow> [] | Some ev \<Rightarrow> [ev]))"
  using start_time_snoc(1) [OF assms, of op]
  by (simp add: call_env_def map_filter_append map_filter_simps split: option.split)

lemma step_set:
  "https_step parse_date src t ev (r\<lparr>hc_active := (hc_active r \<and> b)\<rparr>) =
     (let r' = https_step parse_date src t ev r in r'\<lparr>hc_active := (hc_active r' \<and> b)\<rparr>)"
  by (cases ev) (auto simp: https_step_def https_response_def Let_def split: option.splits)

lemma call_seen_other:
  assumes "i < gets ops" "event_of i op = None" "op \<noteq> HttpsClose"
  shows "call_seen parse_date src i (ops @ [op]) = call_seen parse_date src i ops"
  using assms by (auto simp: call_seen_def call_env_snoc start_time_snoc closed_after_snoc Let_def) (simp_all add: call_env_def)

lemma call_seen_event:
  assumes "i < gets ops"
  shows "call_seen parse_date src i (ops @ [HttpsEvent i ev]) = on_call parse_date src ev (call_seen parse_date src i ops)"
proof -
  have c: "closed_after i (ops @ [HttpsEvent i ev]) = closed_after i ops" by (simp add: closed_after_snoc)
  have "call_env i ops = (start_time i ops, List.map_filter (event_of i) ops)" by (simp add: call_env_def)
  then show ?thesis
    using assms by (simp add: call_seen_def call_env_snoc start_time_snoc c https_run_snoc on_call_def Let_def step_set)
qed

lemma call_seen_close:
  assumes "i < gets ops"
  shows "call_seen parse_date src i (ops @ [HttpsClose]) =
    (case call_seen parse_date src i ops of (t1, c) \<Rightarrow> (t1, c\<lparr>hc_active := False\<rparr>))"
  using assms by (auto simp: call_seen_def call_env_snoc start_time_snoc closed_after_snoc Let_def) (simp_all add: call_env_def)

lemma call_seen_new:
  assumes "events_later ops"
  shows "call_seen parse_date src (gets ops) (ops @ [HttpsGet now]) = (now * 1000000, new_https_call)"
proof -
  have "\<not> closed_after (gets ops) (ops @ [HttpsGet now])"
    using closed_after_started [of "gets ops" ops] by (auto simp: closed_after_snoc)
  moreover have "call_env (gets ops) (ops @ [HttpsGet now]) = (now, [])"
    using events_of_new [OF assms, of "gets ops"]
    by (simp add: call_env_def start_time_snoc map_filter_append map_filter_simps)
  ultimately show ?thesis by (simp add: call_seen_def start_time_snoc https_run_def new_https_call_def Let_def)
qed

lemma calls_seen:
  "events_later ops \<Longrightarrow> \<forall>op \<in> set ops. \<not> op_throws parse_date op \<Longrightarrow> i < gets ops \<Longrightarrow>
   hr_calls (https_ops parse_date src ops) ! i = call_seen parse_date src i ops"
proof (induction ops rule: rev_induct)
  case (snoc op ops)
  have later: "events_later ops" and quiet: "\<forall>op \<in> set ops. \<not> op_throws parse_date op"
    using snoc.prems by (simp_all add: events_later_snoc)
  note st = quiet_snoc [OF quiet, of src op] and len = length_calls [OF quiet, of src]
  show ?case
  proof (cases "i < gets ops")
    case True
    have IH: "hr_calls (https_ops parse_date src ops) ! i = call_seen parse_date src i ops"
      by (rule snoc.IH [OF later quiet True])
    show ?thesis
    proof (cases op)
      case (HttpsGet now)
      then show ?thesis using IH True len by (simp add: st [unfolded HttpsGet] nth_append call_seen_other)
    next
      case HttpsClose
      then show ?thesis using IH True len by (simp add: st [unfolded HttpsClose] https_close_def call_seen_close)
    next
      case (HttpsEvent j ev)
      then have j: "j < gets ops" using snoc.prems(1) by (simp add: events_later_snoc)
      show ?thesis
      proof (cases "j = i")
        case True
        then show ?thesis using IH len j by (simp add: st [unfolded HttpsEvent True] call_seen_event HttpsEvent)
      next
        case False
        then show ?thesis using IH True j len HttpsEvent by (simp add: st [unfolded HttpsEvent] call_seen_other)
      qed
    qed
  next
    case False
    then have i: "i = gets ops" and "is_get op" using snoc.prems(3) by (auto split: if_splits)
    then obtain now where op: "op = HttpsGet now" by (cases op) simp_all
    then show ?thesis using call_seen_new [OF later] len by (simp add: st [unfolded op] i nth_append)
  qed
qed simp

section \<open>What a call leaves in the set\<close>

fun releases :: "(string \<Rightarrow> int option) \<Rightarrow> https_event \<Rightarrow> bool" where
  "releases parse_date HttpsTimeout = False"
| "releases parse_date (HttpsResponse now header) =
     (case header of None \<Rightarrow> True | Some h \<Rightarrow> h = [] \<or> parse_date h \<noteq> None)"
| "releases parse_date (HttpsRequestError m) = True"

lemma callback_active: "hc_active (https_callback parse_date src t1 ev c) \<longleftrightarrow> hc_active c \<and> \<not> releases parse_date ev"
  by (cases ev) (auto simp: https_response_def Let_def split: option.splits)

lemma https_run_active:
  "\<forall>ev \<in> set evs. \<not> throws_out parse_date ev \<Longrightarrow>
   hc_active (https_run parse_date (t1, evs) src) \<longleftrightarrow> (\<forall>ev \<in> set evs. \<not> releases parse_date ev)"
proof (induction evs rule: rev_induct)
  case (snoc ev evs)
  then have "hc_crash (https_run parse_date (t1, evs) src) = None" by (auto simp: https_run_crash)
  then show ?case using snoc by (auto simp: https_run_snoc https_step_def callback_active)
qed (simp add: https_run_def new_https_call_def)

section \<open>When an exception escapes\<close>

lemma callback_throws:
  "throws_out parse_date ev \<Longrightarrow> https_callback parse_date src t1 ev c = c\<lparr>hc_timer := False, hc_crash := Some bad_date\<rparr>"
  by (cases "(parse_date, ev)" rule: throws_out.cases) (auto simp: https_response_def Let_def)

lemma stopped_fold: "stopped s \<noteq> None \<Longrightarrow> fold (https_op_step parse_date src) ops s = s"
  by (induction ops) (simp_all add: https_op_step_def del: not_None_eq)

lemma stopped_one:
  assumes "\<forall>tc \<in> set xs. hc_crash (snd tc) = None" and "i < length xs" and "hc_crash (snd tc) = Some e"
  shows "stopped (s\<lparr>hr_calls := xs[i := tc]\<rparr>) = Some e"
proof -
  have none: "List.map_filter (\<lambda>(t1, c). hc_crash c) ys = []" if "set ys \<subseteq> set xs" for ys
    using that assms(1) by (induction ys) (auto simp: map_filter_simps split: option.splits)
  have "set (take i xs) \<subseteq> set xs" "set (drop (Suc i) xs) \<subseteq> set xs" by (auto dest: in_set_takeD in_set_dropD)
  then show ?thesis
    using none assms(2,3)
    by (simp add: stopped_def upd_conv_take_nth_drop map_filter_append map_filter_simps case_prod_beta split: prod.splits)
qed

lemma throwing_run:
  assumes quiet: "\<forall>op \<in> set ops. \<not> op_throws parse_date op" and later: "events_later (ops @ op # rest)"
    and op: "op_throws parse_date op"
  obtains j c where "j < gets ops" "hr_calls (https_ops parse_date src ops) ! j = c"
    "https_ops parse_date src (ops @ op # rest) = (https_ops parse_date src ops)\<lparr>hr_calls :=
       (hr_calls (https_ops parse_date src ops))[j := (fst c, (snd c)\<lparr>hc_timer := False, hc_crash := Some bad_date\<rparr>)]\<rparr>"
    "stopped (https_ops parse_date src (ops @ op # rest)) = Some bad_date"
proof -
  obtain j ev where ev: "op = HttpsEvent j ev" "throws_out parse_date ev" using op by (cases op) simp_all
  have j: "j < gets ops"
    using events_later_prefix [of "ops @ [op]" rest] later ev(1) by (simp add: events_later_snoc)
  let ?s = "https_ops parse_date src ops"
  define c where "c = hr_calls ?s ! j"
  have crash: "\<forall>tc \<in> set (hr_calls ?s). hc_crash (snd tc) = None" using quiet_running [OF quiet] by (simp add: stopped_None)
  have len: "j < length (hr_calls ?s)" using j length_calls [OF quiet] by simp
  then have "hc_crash (snd c) = None" using crash by (simp add: c_def)
  then have "on_call parse_date src ev c = (fst c, (snd c)\<lparr>hc_timer := False, hc_crash := Some bad_date\<rparr>)"
    using ev(2) by (simp add: on_call_def https_step_def callback_throws case_prod_beta)
  then have one: "https_ops parse_date src (ops @ [op]) =
      ?s\<lparr>hr_calls := (hr_calls ?s)[j := (fst c, (snd c)\<lparr>hc_timer := False, hc_crash := Some bad_date\<rparr>)]\<rparr>"
    using quiet_snoc [OF quiet, of src op] len by (simp add: ev(1) c_def)
  have stop: "stopped (https_ops parse_date src (ops @ [op])) = Some bad_date"
    unfolding one by (rule stopped_one [OF crash len]) simp
  have "https_ops parse_date src (ops @ op # rest) = https_ops parse_date src (ops @ [op])"
    using stopped_fold [of "https_ops parse_date src (ops @ [op])" parse_date src rest] stop by (simp add: https_ops_def)
  then show thesis using that [OF j c_def [symmetric]] one stop by simp
qed

text \<open>
  C39. Calls of a source do not disturb each other, until one of them stops the process.  Take any
  interleaving of the events of its requests and the calls of \<open>close\<close>.  Up to the first response
  whose date cannot be read, the promise of each call settles as it would alone, on its own events;
  and its request is in the set of active requests exactly if it had no error and no response
  that the code could read, and no \<open>close\<close> since it began: the timeout leaves it there.  With that
  response the process stops, on its exception, and everything stays as it was: the calls that were
  still open never settle.
\<close>

theorem https_calls_independent:
  fixes parse_date src ops
  assumes "events_later ops"
  defines "quiet \<equiv> takeWhile (\<lambda>op. \<not> op_throws parse_date op) ops"
  defines "s \<equiv> https_ops parse_date src ops"
  shows "stopped s = (if quiet = ops then None else Some bad_date) \<and> length (hr_calls s) = gets quiet \<and>
     (\<forall>i < gets quiet.
        hc_result (snd (hr_calls s ! i)) =
          https_getTime parse_date (start_time i quiet, List.map_filter (event_of i) quiet) src \<and>
        (i \<in> set (activeRequests s) \<longleftrightarrow>
           (\<forall>ev \<in> set (List.map_filter (event_of i) quiet). \<not> releases parse_date ev) \<and> \<not> closed_after i quiet))"
proof -
  let ?q = "https_ops parse_date src quiet"
  have quiet: "\<forall>op \<in> set quiet. \<not> op_throws parse_date op" by (auto simp: quiet_def dest: set_takeWhileD)
  have split: "quiet = ops \<or> (\<exists>op rest. ops = quiet @ op # rest \<and> op_throws parse_date op)"
    unfolding quiet_def by (metis append.right_neutral hd_dropWhile list.exhaust_sel takeWhile_dropWhile_id)
  have later: "events_later quiet" using assms(1) split events_later_prefix by metis
  have evs: "\<forall>ev \<in> set (List.map_filter (event_of i) quiet). \<not> throws_out parse_date ev" for i
  proof -
    have "event_of i op = Some ev \<Longrightarrow> op_throws parse_date op = throws_out parse_date ev" for op ev
      by (cases op) (auto split: if_splits)
    then show ?thesis using quiet by (fastforce simp: List.map_filter_def)
  qed
  have same: "stopped s = (if quiet = ops then None else Some bad_date) \<and> length (hr_calls s) = length (hr_calls ?q) \<and>
      (\<forall>i < gets quiet. hc_result (snd (hr_calls s ! i)) = hc_result (snd (hr_calls ?q ! i)) \<and>
         hc_active (snd (hr_calls s ! i)) = hc_active (snd (hr_calls ?q ! i)))"
  proof (cases "quiet = ops")
    case True
    then show ?thesis using quiet_running [OF quiet, of src] by (simp add: s_def)
  next
    case False
    then obtain op rest where ops: "ops = quiet @ op # rest" "op_throws parse_date op" using split by blast
    obtain j c where "j < gets quiet" "hr_calls ?q ! j = c"
      "s = ?q\<lparr>hr_calls := (hr_calls ?q)[j := (fst c, (snd c)\<lparr>hc_timer := False, hc_crash := Some bad_date\<rparr>)]\<rparr>"
      "stopped s = Some bad_date"
      using throwing_run [OF quiet assms(1) [unfolded ops(1)] ops(2), of src thesis] unfolding s_def ops(1) [symmetric] by blast
    then show ?thesis using False length_calls [OF quiet, of src] by (auto simp: nth_list_update)
  qed
  have run: "hc_result (snd (call_seen parse_date src i quiet)) =
        https_getTime parse_date (start_time i quiet, List.map_filter (event_of i) quiet) src \<and>
      (hc_active (snd (call_seen parse_date src i quiet)) \<longleftrightarrow>
        (\<forall>ev \<in> set (List.map_filter (event_of i) quiet). \<not> releases parse_date ev) \<and> \<not> closed_after i quiet)" for i
    using https_run_active [OF evs [of i], of "start_time i quiet" src] evs [of i]
      https_run_crash [of parse_date "start_time i quiet" "List.map_filter (event_of i) quiet" src]
    by (auto simp: call_seen_def call_env_def Let_def https_getTime_def https_outcome_def)
  show ?thesis
    using same run calls_seen [OF later quiet] length_calls [OF quiet, of src]
    by (simp add: activeRequests_def)
qed

text \<open>Two calls, the first timed out, the second answered; then a third gets a date that cannot be read.\<close>

lemma https_calls_independent_witness:
  "let src = \<lparr>https_name = ''a'', https_url = []\<rparr>;
       ops = [HttpsGet 1, HttpsGet 2, HttpsEvent 0 HttpsTimeout, HttpsEvent 1 (HttpsResponse 4 None), HttpsGet 5,
              HttpsEvent 2 (HttpsResponse 6 (Some ''?'')), HttpsClose];
       s = https_ops Map.empty src ops
   in stopped s = Some bad_date \<and> length (hr_calls s) = 3 \<and> 0 \<in> set (activeRequests s) \<and> 1 \<notin> set (activeRequests s)"
proof -
  let ?src = "\<lparr>https_name = ''a'', https_url = []\<rparr>"
  let ?ops = "[HttpsGet 1, HttpsGet 2, HttpsEvent 0 HttpsTimeout, HttpsEvent 1 (HttpsResponse 4 None), HttpsGet 5,
              HttpsEvent 2 (HttpsResponse 6 (Some ''?'')), HttpsClose]"
  let ?q = "[HttpsGet 1, HttpsGet 2, HttpsEvent 0 HttpsTimeout, HttpsEvent 1 (HttpsResponse 4 None), HttpsGet 5]"
  have later: "events_later ?ops" by (auto simp: events_later_def gets_def nth_Cons less_Suc_eq split: nat.splits)
  have q: "takeWhile (\<lambda>op. \<not> op_throws Map.empty op) ?ops = ?q" by simp
  have c: "\<not> closed_after i ?q" for i by (auto simp: closed_after_def nth_Cons less_Suc_eq split: nat.splits)
  show ?thesis
    using https_calls_independent [OF later, of Map.empty ?src] c unfolding q
    by (simp add: gets_def map_filter_simps Let_def)
qed

end
