(* ===== verification/Deploys.thy ===== *)
theory Deploys
  imports Scripts SwapBots TrustStore Bytes
begin

text \<open>
  The scripts that deploy the contracts (\<open>contracts/scripts/deploy.ts\<close>, \<open>deploy_sepolia.ts\<close>,
  \<open>deploy_base_sepolia.ts\<close>, \<open>deploy_hook_only.ts\<close>, \<open>grant_role.ts\<close>, \<open>check_and_grant.ts\<close>), the mint of
  \<open>single_mint.ts\<close>, the call of \<open>single_verify.ts\<close>, and the networks of \<open>contracts/hardhat.config.ts\<close>, whose accounts are the
  scripts' signers.  The state is what was sent to the chain; a deployment is answered with an
  address, a grant with its receipt.
\<close>

section \<open>What is sent\<close>

datatype deploy_tx =
    DeployTTT
  | DeployProtocolFee "string list"
  | DeployTTTHook string string int int int
  | DeployTTTHookSimple string int int int
  | GrantRole string string string
  | GrantRoleGas string string string int

text \<open>The reads of the chain: the balance and the chain id only matter where they throw.\<close>

record deploy_env =
  dp_deployer :: "string option"
  dp_balance :: "js_exn + int"
  dp_chain :: "deploy_tx \<Rightarrow> js_exn + string"
  dp_minterRole :: "string \<Rightarrow> js_exn + string"
  dp_hasRole :: "string \<Rightarrow> string \<Rightarrow> string \<Rightarrow> js_exn + bool"
  dp_chainId :: "js_exn + int"

definition deploy_send :: "deploy_env \<Rightarrow> deploy_tx \<Rightarrow> (deploy_tx list, string) script" where
  "deploy_send E tx l = (dp_chain E tx, l @ [tx])"

definition treasuryAddress :: string where
  "treasuryAddress = ''0x98603D935b6Ba2472a7cb48308e801F7ab6287f7''"

definition MIN_TTT_BALANCE :: int where "MIN_TTT_BALANCE = parseUnits 1 18"
definition TURBO_FEE :: int where "TURBO_FEE = 500"
definition FULL_FEE :: int where "FULL_FEE = 10000"

section \<open>The scripts\<close>

text \<open>\<open>deploy.ts\<close>: a missing deployer is a \<open>TypeError\<close> of its address.\<close>

definition deploy_plain :: "deploy_env \<Rightarrow> (deploy_tx list, string \<times> string) script" where
  "deploy_plain E =
     script_bind (script_lift (case dp_deployer E of
         None \<Rightarrow> Inl (TypeError ''Cannot read properties of undefined (reading address)'') | Some d \<Rightarrow> Inr d)) (\<lambda>_.
     script_bind (deploy_send E DeployTTT) (\<lambda>ttt.
     script_bind (deploy_send E (DeployProtocolFee [])) (\<lambda>fee.
     script_lift (Inr (ttt, fee)))))"

definition no_deployer :: js_exn where
  "no_deployer = JsError ''No deployer account found. Ensure DEPLOYER_PRIVATE_KEY is set in your environment.''"

definition need_deployer :: "deploy_env \<Rightarrow> js_exn + string" where
  "need_deployer E =
     (case dp_deployer E of None \<Rightarrow> Inl no_deployer | Some d \<Rightarrow> bindr (dp_balance E) (\<lambda>_. Inr d))"

definition deploy_sepolia :: "deploy_env \<Rightarrow> (deploy_tx list, string \<times> string) script" where
  "deploy_sepolia E =
     script_bind (script_lift (need_deployer E)) (\<lambda>_.
     script_bind (deploy_send E DeployTTT) (\<lambda>ttt.
     script_bind (deploy_send E (DeployProtocolFee [treasuryAddress])) (\<lambda>fee.
     script_lift (Inr (ttt, fee)))))"

definition grant_minter :: "deploy_env \<Rightarrow> string \<Rightarrow> string \<Rightarrow> (deploy_tx list, bool) script" where
  "grant_minter E ttt hook =
     script_bind (script_lift (dp_minterRole E ttt)) (\<lambda>role.
     script_bind (deploy_send E (GrantRole ttt role hook)) (\<lambda>_.
     script_lift (dp_hasRole E ttt role hook)))"

definition deploy_base_sepolia :: "deploy_env \<Rightarrow> (deploy_tx list, string \<times> string \<times> string) script" where
  "deploy_base_sepolia E =
     script_bind (script_lift (need_deployer E)) (\<lambda>_.
     script_bind (deploy_send E DeployTTT) (\<lambda>ttt.
     script_bind (deploy_send E (DeployProtocolFee [treasuryAddress])) (\<lambda>fee.
     script_bind (deploy_send E (DeployTTTHook POOL_MANAGER ttt MIN_TTT_BALANCE TURBO_FEE FULL_FEE)) (\<lambda>hook.
     script_bind (grant_minter E ttt hook) (\<lambda>hasRole.
     if \<not> hasRole then script_lift (Inl (JsError ''MINTER_ROLE grant verification failed!''))
     else script_bind (script_lift (dp_chainId E)) (\<lambda>_. script_lift (Inr (ttt, fee, hook))))))))"

text \<open>\<open>grant_role.ts\<close> prints whatever the last read says.\<close>

definition grant_role :: "deploy_env \<Rightarrow> (deploy_tx list, bool) script" where
  "grant_role E =
     grant_minter E ''0xde357135cA493e59680182CDE9E1c6A4dA400811'' ''0x8C633b05b833a476925F7d9818da6E215760F2c7''"

section \<open>What a deployment leaves\<close>

text \<open>
  A deployment that prints its summary has sent its four transactions, in order, and has read
  that the hook holds the minter's role of the token that it deployed.
\<close>

theorem deploy_base_complete:
  assumes "deploy_base_sepolia E [] = (Inr (ttt, fee, hook), sent)"
  shows "\<exists>role. dp_minterRole E ttt = Inr role \<and> dp_hasRole E ttt role hook = Inr True \<and>
     sent = [DeployTTT, DeployProtocolFee [treasuryAddress],
             DeployTTTHook POOL_MANAGER ttt (10 ^ 18) 500 10000, GrantRole ttt role hook]"
  using assms
  by (auto simp: deploy_base_sepolia_def script_bind_Inr grant_minter_def script_lift_def deploy_send_def
      MIN_TTT_BALANCE_def TURBO_FEE_def FULL_FEE_def parseUnits_def split: if_splits)

text \<open>
  Where the chain's library refuses a deployment of the fee contract without its argument, the
  plain script always ends in an exception, and the token is deployed before.
\<close>

theorem deploy_plain_fails:
  assumes "dp_deployer E = Some d" and "dp_chain E DeployTTT = Inr ttt" and "dp_chain E (DeployProtocolFee []) = Inl e"
  shows "deploy_plain E [] = (Inl e, [DeployTTT, DeployProtocolFee []])"
  using assms by (simp add: deploy_plain_def script_bind_def script_lift_def deploy_send_def)

section \<open>The hook alone, and the role again\<close>

definition TTT_ADDRESS :: string where
  "TTT_ADDRESS = ''0xde357135cA493e59680182CDE9E1c6A4dA400811''"

definition HOOK_ADDRESS :: string where
  "HOOK_ADDRESS = ''0x8C633b05b833a476925F7d9818da6E215760F2c7''"

definition no_address :: js_exn where
  "no_address = TypeError ''Cannot read properties of undefined (reading address)''"

text \<open>\<open>deploy_hook_only.ts\<close>: what the role says at the end is only printed.\<close>

definition deploy_hook_only :: "deploy_env \<Rightarrow> (deploy_tx list, string \<times> bool) script" where
  "deploy_hook_only E =
     script_bind (script_lift (need no_address (dp_deployer E))) (\<lambda>_.
     script_bind (script_lift (dp_balance E)) (\<lambda>_.
     script_bind (deploy_send E (DeployTTTHookSimple TTT_ADDRESS MIN_TTT_BALANCE TURBO_FEE FULL_FEE)) (\<lambda>hook.
     script_bind (grant_minter E TTT_ADDRESS hook) (\<lambda>hasRole.
     script_lift (Inr (hook, hasRole))))))"

text \<open>\<open>check_and_grant.ts\<close>: the reads before and after the grant are answers of their own.\<close>

record check_env =
  cg_deployer :: "string option"
  cg_adminRole :: "js_exn + string"
  cg_minterRole :: "js_exn + string"
  cg_isAdmin :: "string \<Rightarrow> string \<Rightarrow> js_exn + bool"
  cg_before :: "js_exn + bool"
  cg_grant :: "deploy_tx \<Rightarrow> js_exn + string"
  cg_after :: "js_exn + bool"

definition check_and_grant :: "check_env \<Rightarrow> (deploy_tx list, bool \<times> bool \<times> bool) script" where
  "check_and_grant E =
     script_bind (script_lift (cg_adminRole E)) (\<lambda>ADMIN.
     script_bind (script_lift (cg_minterRole E)) (\<lambda>MINTER.
     script_bind (script_lift (need no_address (cg_deployer E))) (\<lambda>deployer.
     script_bind (script_lift (cg_isAdmin E ADMIN deployer)) (\<lambda>hasAdmin.
     script_bind (script_lift (cg_before E)) (\<lambda>hasMinter.
     script_bind (\<lambda>l. (cg_grant E (GrantRoleGas TTT_ADDRESS MINTER HOOK_ADDRESS 100000),
                      l @ [GrantRoleGas TTT_ADDRESS MINTER HOOK_ADDRESS 100000])) (\<lambda>receipt.
     script_bind (script_lift (cg_after E)) (\<lambda>hasNow.
     script_lift (Inr (hasAdmin, hasMinter, hasNow)))))))))"

text \<open>The check before the grant does not guard it: it is sent whatever the two reads say.\<close>

lemma check_never_guards:
  assumes "check_and_grant E [] = (Inr (hasAdmin, hasMinter, hasNow), sent)"
  shows "\<exists>MINTER. sent = [GrantRoleGas TTT_ADDRESS MINTER HOOK_ADDRESS 100000]"
  using assms by (auto simp: check_and_grant_def script_bind_Inr script_lift_def)

section \<open>One mint\<close>

text \<open>
  \<open>single_mint.ts\<close>.  A log is what the contract's interface makes of it: it throws, gives nothing,
  or gives a name and the event's stratum.
\<close>

record mint_tx =
  mx_to :: string
  mx_amount :: int
  mx_grgHash :: string
  mx_gasLimit :: int
  mx_nonce :: int
  mx_maxFeePerGas :: int
  mx_maxPriorityFeePerGas :: int

type_synonym parsed_log = "js_exn + (string \<times> int) option"

record mint_receipt =
  mr_hash :: string
  mr_gasUsed :: int
  mr_logs :: "parsed_log list"

record mint_env =
  me_deployer :: "string option"
  me_random :: bytes
  me_nonce :: "js_exn + int"
  me_fees :: "js_exn + int option \<times> int option"
  me_mint :: "mint_tx \<Rightarrow> js_exn + mint_receipt"

datatype mint_print = MintedToken int string string | MintedGas int string

fun is_anchored :: "parsed_log \<Rightarrow> bool" where
  "is_anchored (Inr (Some (n, k))) = (n = ''PoTAnchored'')"
| "is_anchored _ = False"

fun log_stratum :: "parsed_log \<Rightarrow> int" where
  "log_stratum (Inr (Some (n, k))) = k"
| "log_stratum _ = 0"

definition mixed_bigint :: js_exn where
  "mixed_bigint = TypeError ''Cannot mix BigInt and other types, use explicit conversions''"

definition single_mint :: "mint_env \<Rightarrow> (mint_tx list, mint_print) script" where
  "single_mint E =
     script_bind (script_lift (need (TypeError ''Cannot read properties of undefined (reading getNonce)'') (me_deployer E))) (\<lambda>deployer.
     script_bind (script_lift (me_nonce E)) (\<lambda>nonce.
     script_bind (script_lift (me_fees E)) (\<lambda>(maxFee, maxPriority).
     script_bind (script_lift (need mixed_bigint maxFee)) (\<lambda>fee.
     script_bind (script_lift (need mixed_bigint maxPriority)) (\<lambda>priority.
     let grgHash = ''0x'' @ hex_encode (me_random E);
         tx = \<lparr>mx_to = deployer, mx_amount = 1, mx_grgHash = grgHash, mx_gasLimit = 150000, mx_nonce = nonce,
               mx_maxFeePerGas = fee * 2, mx_maxPriorityFeePerGas = priority * 2\<rparr>
     in script_bind (\<lambda>l. (me_mint E tx, l @ [tx])) (\<lambda>receipt.
        script_lift (Inr (case find is_anchored (mr_logs receipt) of
             Some l \<Rightarrow> MintedToken (log_stratum l) (take 18 grgHash) (mr_hash receipt)
           | None \<Rightarrow> MintedGas (mr_gasUsed receipt) (mr_hash receipt)))))))))"

lemma anchored_find:
  assumes "find is_anchored ls = Some l"
  shows "l = Inr (Some (''PoTAnchored'', log_stratum l))"
proof -
  have "is_anchored l" using assms by (metis find_Some_iff)
  then show ?thesis by (cases l rule: is_anchored.cases) simp_all
qed

text \<open>
  The mint of one token.  A run that prints has sent one transaction: one token for the deployer, under
  a hash of its random bytes, at the pending nonce and twice the network's fees.  What it prints as the
  token id is the stratum of the anchor's event.
\<close>

theorem single_mint_sends:
  assumes "single_mint E [] = (Inr out, sent)"
  shows "\<exists>tx receipt d n f p. sent = [tx] \<and> me_mint E tx = Inr receipt \<and> me_deployer E = Some d \<and> me_nonce E = Inr n \<and>
     me_fees E = Inr (Some f, Some p) \<and> mx_to tx = d \<and> mx_amount tx = 1 \<and> mx_nonce tx = n \<and>
     mx_maxFeePerGas tx = 2 * f \<and> mx_maxPriorityFeePerGas tx = 2 * p \<and>
     (\<forall>tokenId g h. out = MintedToken tokenId g h \<longrightarrow> Inr (Some (''PoTAnchored'', tokenId)) \<in> set (mr_logs receipt))"
proof -
  obtain d n f p receipt tx where e: "me_deployer E = Some d" "me_nonce E = Inr n" "me_fees E = Inr (Some f, Some p)"
    and tx: "tx = \<lparr>mx_to = d, mx_amount = 1, mx_grgHash = ''0x'' @ hex_encode (me_random E), mx_gasLimit = 150000, mx_nonce = n,
               mx_maxFeePerGas = f * 2, mx_maxPriorityFeePerGas = p * 2\<rparr>"
    and r: "me_mint E tx = Inr receipt" "sent = [tx]"
    and out: "out = (case find is_anchored (mr_logs receipt) of
             Some l \<Rightarrow> MintedToken (log_stratum l) (take 18 (''0x'' @ hex_encode (me_random E))) (mr_hash receipt)
           | None \<Rightarrow> MintedGas (mr_gasUsed receipt) (mr_hash receipt))"
    using assms unfolding single_mint_def Let_def script_bind_Inr script_lift_def
    by (auto simp: need_def script_bind_Inr split: option.splits)
  have "Inr (Some (''PoTAnchored'', k)) \<in> set (mr_logs receipt)" if printed: "out = MintedToken k g h" for k g h
  proof -
    obtain l where l: "find is_anchored (mr_logs receipt) = Some l" "k = log_stratum l"
      using printed unfolding out by (auto split: option.splits)
    then have "l \<in> set (mr_logs receipt)" by (auto simp: find_Some_iff)
    then show ?thesis using anchored_find [OF l(1)] l(2) by simp
  qed
  then show ?thesis using e r by (intro exI [of _ tx] exI [of _ receipt] exI [of _ d] exI [of _ n] exI [of _ f] exI [of _ p]) (simp add: tx)
qed

section \<open>One verification\<close>

text \<open>
  \<open>single_verify.ts\<close>: one call of \<open>verifySwap\<close> for a random amount, what is printed of its receipt,
  and the counters of the hook.  A log is what the contract's interface makes of it, with the
  mode and the fee of the event.
\<close>

record verify_tx =
  vx_sender :: string
  vx_pool :: string
  vx_swapDelta :: int
  vx_gasLimit :: int

type_synonym swap_log = "js_exn + (string \<times> string \<times> int) option"

record verify_receipt =
  vr_hash :: string
  vr_gasUsed :: int
  vr_logs :: "swap_log list"

record single_env =
  sv_deployer :: "string option"
  sv_random :: rat
  sv_call :: "verify_tx \<Rightarrow> js_exn + verify_receipt"
  sv_stats :: "js_exn + int \<times> int \<times> int"

datatype verify_print = VerifiedAs string int int string | VerifiedGas int string

fun is_swap_verified :: "swap_log \<Rightarrow> bool" where
  "is_swap_verified (Inr (Some (n, mode, fee))) = (n = ''SwapVerified'')"
| "is_swap_verified _ = False"

fun verified_args :: "swap_log \<Rightarrow> string \<times> int" where
  "verified_args (Inr (Some (n, mode, fee))) = (mode, fee)"
| "verified_args _ = ([], 0)"

definition poc_pool :: "(bytes \<Rightarrow> string) \<Rightarrow> string" where
  "poc_pool keccak256 = keccak256 (utf8_encode ''openttt-base-sepolia-poc'')"

definition verify_line :: "verify_receipt \<Rightarrow> verify_print" where
  "verify_line receipt =
     (case find is_swap_verified (vr_logs receipt) of
        Some l \<Rightarrow> VerifiedAs (fst (verified_args l)) (snd (verified_args l)) (vr_gasUsed receipt) (vr_hash receipt)
      | None \<Rightarrow> VerifiedGas (vr_gasUsed receipt) (vr_hash receipt))"

text \<open>The state is what has been sent and what has been printed.\<close>

definition single_verify ::
    "(bytes \<Rightarrow> string) \<Rightarrow> single_env \<Rightarrow> (verify_tx list \<times> verify_print list, int \<times> int \<times> int) script" where
  "single_verify keccak256 E =
     script_bind (script_lift (need no_address (sv_deployer E))) (\<lambda>deployer.
     let tx = \<lparr>vx_sender = deployer, vx_pool = poc_pool keccak256, vx_swapDelta = single_verify_delta (sv_random E),
               vx_gasLimit = 100000\<rparr>
     in script_bind (\<lambda>(sent, printed). (sv_call E tx, sent @ [tx], printed)) (\<lambda>receipt.
        script_bind (\<lambda>(sent, printed). (Inr (), sent, printed @ [verify_line receipt])) (\<lambda>_.
        script_lift (sv_stats E))))"

lemma swap_verified_find:
  assumes "find is_swap_verified ls = Some l"
  shows "Inr (Some (''SwapVerified'', verified_args l)) \<in> set ls"
proof -
  have l: "is_swap_verified l" "l \<in> set ls" using assms by (auto simp: find_Some_iff)
  then show ?thesis by (cases l rule: is_swap_verified.cases) simp_all
qed

lemma verify_line_event:
  "verify_line receipt = VerifiedAs mode fee gas h \<Longrightarrow> Inr (Some (''SwapVerified'', mode, fee)) \<in> set (vr_logs receipt)"
  by (auto simp: verify_line_def split: option.splits dest: swap_verified_find)

text \<open>
  The single verification.  Without a signer the script sends nothing.  With one it sends exactly one
  call, whatever comes back: at least five and less than fifty tokens, for the signer, to the
  fixed pool.  It prints nothing where the call fails, and otherwise one line, also where the
  counters cannot be read after it; a mode and a fee on it are those of an event of this call.
\<close>

theorem single_verify_sends:
  assumes "0 \<le> sv_random E" and "sv_random E < 1" and run: "single_verify K E ([], []) = (out, sent, printed)"
  shows "(sv_deployer E = None \<longrightarrow> out = Inl no_address \<and> sent = [] \<and> printed = []) \<and>
     (\<forall>d. sv_deployer E = Some d \<longrightarrow>
        (\<exists>tx. sent = [tx] \<and> vx_sender tx = d \<and> vx_pool tx = poc_pool K \<and>
           5 * 10 ^ 18 \<le> vx_swapDelta tx \<and> vx_swapDelta tx < 50 * 10 ^ 18 \<and>
           (case sv_call E tx of
              Inl e \<Rightarrow> out = Inl e \<and> printed = []
            | Inr receipt \<Rightarrow> out = sv_stats E \<and> printed = [verify_line receipt] \<and>
                (\<forall>mode fee gas h. verify_line receipt = VerifiedAs mode fee gas h \<longrightarrow>
                   Inr (Some (''SwapVerified'', mode, fee)) \<in> set (vr_logs receipt)))))"
proof (rule conjI, rule impI, goal_cases)
  case 1
  then show ?case
    using run by (auto simp: single_verify_def script_bind_def script_lift_def need_def)
next
  case 2
  show ?case
  proof (intro allI impI)
    fix d
    assume d: "sv_deployer E = Some d"
    let ?tx = "\<lparr>vx_sender = d, vx_pool = poc_pool K, vx_swapDelta = single_verify_delta (sv_random E), vx_gasLimit = 100000\<rparr>"
    have "sent = [?tx] \<and> (case sv_call E ?tx of Inl e \<Rightarrow> out = Inl e \<and> printed = []
        | Inr receipt \<Rightarrow> out = sv_stats E \<and> printed = [verify_line receipt])"
      using run d by (auto simp: single_verify_def script_bind_def script_lift_def need_def Let_def split: sum.splits)
    then show "\<exists>tx. sent = [tx] \<and> vx_sender tx = d \<and> vx_pool tx = poc_pool K \<and>
             5 * 10 ^ 18 \<le> vx_swapDelta tx \<and> vx_swapDelta tx < 50 * 10 ^ 18 \<and>
             (case sv_call E tx of
                Inl e \<Rightarrow> out = Inl e \<and> printed = []
              | Inr receipt \<Rightarrow> out = sv_stats E \<and> printed = [verify_line receipt] \<and>
                  (\<forall>mode fee gas h. verify_line receipt = VerifiedAs mode fee gas h \<longrightarrow>
                     Inr (Some (''SwapVerified'', mode, fee)) \<in> set (vr_logs receipt)))"
      using single_verify_range [OF assms(1,2)] by (intro exI [of _ ?tx]) (auto split: sum.splits dest: verify_line_event)
  qed
qed

lemma single_verify_sends_witness:
  "\<exists>tx. single_verify (\<lambda>_. ''pool'')
      \<lparr>sv_deployer = Some ''0xd'', sv_random = 0, sv_call = \<lambda>_. Inl (JsError ''reverted''), sv_stats = Inr (0, 0, 0)\<rparr> ([], []) =
      (Inl (JsError ''reverted''), [tx], []) \<and> 5 * 10 ^ 18 \<le> vx_swapDelta tx"
proof -
  obtain out sent printed where run: "single_verify (\<lambda>_. ''pool'')
      \<lparr>sv_deployer = Some ''0xd'', sv_random = 0, sv_call = \<lambda>_. Inl (JsError ''reverted''), sv_stats = Inr (0, 0, 0)\<rparr> ([], []) =
      (out, sent, printed)" by (metis prod.exhaust)
  show ?thesis using single_verify_sends [OF _ _ run] run by auto
qed

section \<open>The networks\<close>

record hardhat_network =
  nw_url :: string
  nw_chainId :: int
  nw_accounts :: "string list"

definition hardhat_accounts :: "string option \<Rightarrow> string list" where
  "hardhat_accounts key = (case key of None \<Rightarrow> [] | Some k \<Rightarrow> if k = [] then [] else [k])"

definition hardhat_networks :: "string option \<Rightarrow> (string, hardhat_network) jsmap" where
  "hardhat_networks key =
     [(''base'', \<lparr>nw_url = ''https://mainnet.base.org'', nw_chainId = 8453, nw_accounts = hardhat_accounts key\<rparr>),
      (''baseSepolia'', \<lparr>nw_url = ''https://sepolia.base.org'', nw_chainId = 84532, nw_accounts = hardhat_accounts key\<rparr>),
      (''sepolia'', \<lparr>nw_url = ''https://ethereum-sepolia-rpc.publicnode.com'', nw_chainId = 11155111,
                   nw_accounts = hardhat_accounts key\<rparr>)]"

record etherscan_chain =
  es_network :: string
  es_chainId :: int
  es_apiURL :: string
  es_browserURL :: string

definition etherscan_apiKey :: "string option \<Rightarrow> string" where
  "etherscan_apiKey key = (case key of None \<Rightarrow> [] | Some k \<Rightarrow> k)"

definition customChains :: "etherscan_chain list" where
  "customChains =
     [\<lparr>es_network = ''base'', es_chainId = 8453, es_apiURL = ''https://api.basescan.org/api'',
       es_browserURL = ''https://basescan.org''\<rparr>,
      \<lparr>es_network = ''baseSepolia'', es_chainId = 84532, es_apiURL = ''https://api-sepolia.basescan.org/api'',
       es_browserURL = ''https://sepolia.basescan.org''\<rparr>]"

text \<open>The first signer of a network, by the address of its key.\<close>

definition network_deployer :: "(string \<Rightarrow> string) \<Rightarrow> hardhat_network \<Rightarrow> string option" where
  "network_deployer addressOf nw = (case nw_accounts nw of [] \<Rightarrow> None | k # ks \<Rightarrow> Some (addressOf k))"

text \<open>The configuration of the contracts knows the networks of the SDK under the same names and chain ids.\<close>

lemma networks_agree:
  "set (map fst (hardhat_networks key)) = set (map fst NETWORKS) \<and>
   (\<forall>(n, nw) \<in> set (hardhat_networks key). map_option chainId (jm_get n NETWORKS) = Some (nw_chainId nw)) \<and>
   (\<forall>c \<in> set customChains. map_option nw_chainId (jm_get (es_network c) (hardhat_networks key)) = Some (es_chainId c))"
  by (auto simp: hardhat_networks_def NETWORKS_def BASE_MAINNET_def ETH_SEPOLIA_def BASE_SEPOLIA_def customChains_def jm_get_def)

text \<open>
  No key, no transaction.  Where \<open>DEPLOYER_PRIVATE_KEY\<close> is not set, or is empty, every script that
  deploys ends in an exception on every configured network, before it has sent anything,
  whatever the chain would answer.
\<close>

theorem deploys_need_key:
  assumes "key = None \<or> key = Some []" and "(name, nw) \<in> set (hardhat_networks key)"
    and "dp_deployer E = network_deployer addressOf nw"
  shows "deploy_plain E [] = (Inl no_address, []) \<and> deploy_sepolia E [] = (Inl no_deployer, []) \<and>
     deploy_base_sepolia E [] = (Inl no_deployer, []) \<and> deploy_hook_only E [] = (Inl no_address, [])"
proof -
  have "dp_deployer E = None"
    using assms by (auto simp: hardhat_networks_def hardhat_accounts_def network_deployer_def)
  then show ?thesis
    by (simp add: deploy_plain_def deploy_sepolia_def deploy_base_sepolia_def deploy_hook_only_def need_deployer_def
        script_bind_def script_lift_def no_address_def need_def)
qed

end
