(* ===== verification/Accuracy.thy ===== *)
theory Accuracy
  imports TimeSynthesis
begin

text \<open>
  How far a reading, and a proof of time made of readings, can be from the true time.  The
  network is the environment: when the server looked at its clock, what that clock said, and
  how long the answer travelled.  From this and the code of each source follows how far the
  reading is from the time at which the answer arrived; the locale \<open>timed_exchange\<close> is what
  the synthesis needs of it.
\<close>

locale timed_exchange =
  fixes ask :: "'x \<Rightarrow> time_reading settle option"
    and genuine :: "'x \<Rightarrow> bool"
    and received :: "'x \<Rightarrow> int"
    and slack :: "'x \<Rightarrow> rat"
  assumes within: "genuine x \<Longrightarrow> ask x = Some (Fulfilled r) \<Longrightarrow>
    \<bar>of_int (tr_timestamp r - received x)\<bar> \<le> tr_uncertainty r * 1000000 + slack x"
begin

definition accurate :: "int \<Rightarrow> int \<Rightarrow> int \<Rightarrow> time_reading \<Rightarrow> bool" where
  "accurate lo hi \<delta> r \<longleftrightarrow>
     (\<exists>x. genuine x \<and> ask x = Some (Fulfilled r) \<and> lo \<le> received x \<and> received x \<le> hi \<and>
          tr_uncertainty r * 1000000 + slack x \<le> of_int \<delta>)"

lemma bracket:
  assumes "accurate lo hi \<delta> r"
  shows "lo - \<delta> \<le> tr_timestamp r \<and> tr_timestamp r \<le> hi + \<delta>"
proof -
  obtain x where x: "genuine x" "ask x = Some (Fulfilled r)" "lo \<le> received x" "received x \<le> hi"
    and \<delta>: "tr_uncertainty r * 1000000 + slack x \<le> of_int \<delta>"
    using assms by (auto simp: accurate_def)
  have "\<bar>of_int (tr_timestamp r - received x)\<bar> \<le> (of_int \<delta> :: rat)"
    using within [OF x(1,2)] \<delta> by linarith
  then have "\<bar>tr_timestamp r - received x\<bar> \<le> \<delta>" by (metis of_int_abs of_int_le_iff)
  then show ?thesis using x(3,4) by linarith
qed

text \<open>The median of a majority of accurate readings.\<close>

lemma median_bracket:
  assumes "3 \<le> length rs" and "length rs < 2 * length (filter honest rs)"
    and "\<And>r. r \<in> set rs \<Longrightarrow> honest r \<Longrightarrow> accurate lo hi \<delta> r"
  shows "lo - \<delta> \<le> fst (select_time rs) \<and> fst (select_time rs) \<le> hi + \<delta>"
proof -
  have "rs \<noteq> []" using assms(1) by auto
  then have "lo - \<delta> \<le> tr_timestamp (sort_key tr_timestamp rs ! (length rs div 2)) \<and>
        tr_timestamp (sort_key tr_timestamp rs ! (length rs div 2)) \<le> hi + \<delta>"
    by (rule median_in_majority [OF _ assms(2)]) (rule bracket [OF assms(3)])
  then show ?thesis by (simp add: select_time_many [OF assms(1)])
qed

end

section \<open>NTP\<close>

text \<open>
  The server's clock is ahead of the client's by \<open>nx_ahead\<close>; the packet travels there, is held,
  and travels back.  Times are nanoseconds.
\<close>

record ntp_exchange =
  nx_src :: ntp_source
  nx_sent :: int
  nx_out :: int
  nx_held :: int
  nx_back :: int
  nx_ahead :: int
  nx_msg :: bytes

definition nx_arrived :: "ntp_exchange \<Rightarrow> int" where
  "nx_arrived x = nx_sent x + nx_out x + nx_held x + nx_back x"

definition ntp_genuine :: "ntp_exchange \<Rightarrow> bool" where
  "ntp_genuine x \<longleftrightarrow> 0 \<le> nx_out x \<and> 0 \<le> nx_back x \<and>
     ntp_unix_ns (u32_at (nx_msg x) 32) (u32_at (nx_msg x) 36) = nx_sent x + nx_out x + nx_ahead x \<and>
     ntp_unix_ns (u32_at (nx_msg x) 40) (u32_at (nx_msg x) 44) = nx_sent x + nx_out x + nx_held x + nx_ahead x"

interpretation ntp_time: timed_exchange
  "\<lambda>x. Some (ntp_message (nx_src x) (nx_sent x) (nx_arrived x) (nx_msg x))" ntp_genuine
  "\<lambda>x. nx_arrived x + nx_ahead x" "\<lambda>_. 1 / 2"
proof (unfold_locales, unfold option.inject)
  fix x r
  assume "ntp_genuine x" and m: "ntp_message (nx_src x) (nx_sent x) (nx_arrived x) (nx_msg x) = Fulfilled r"
  then have g: "0 \<le> nx_out x" "0 \<le> nx_back x"
    "ntp_unix_ns (u32_at (nx_msg x) 32) (u32_at (nx_msg x) 36) = nx_sent x + nx_out x + nx_ahead x"
    "ntp_unix_ns (u32_at (nx_msg x) 40) (u32_at (nx_msg x) 44) = nx_sent x + nx_out x + nx_held x + nx_ahead x"
    by (simp_all add: ntp_genuine_def)
  show "\<bar>of_int (tr_timestamp r - (nx_arrived x + nx_ahead x))\<bar> \<le> tr_uncertainty r * 1000000 + 1 / 2"
    by (rule ntp_reading_error [OF m g(3,4) nx_arrived_def g(1,2)])
qed

section \<open>HTTPS\<close>

text \<open>
  The server writes its \<open>Date\<close> header at \<open>hx_stamp\<close>, in nanoseconds, and the header shows the
  second that has begun; the response needs \<open>hx_back\<close> to return.  \<open>hx_sent\<close> and \<open>hx_now\<close> are
  what \<open>Date.now()\<close> gave the client.
\<close>

record https_exchange =
  hx_src :: https_source
  hx_sent :: int
  hx_now :: int
  hx_header :: string
  hx_stamp :: int
  hx_back :: int

definition hx_arrived :: "https_exchange \<Rightarrow> int" where
  "hx_arrived x = hx_stamp x + hx_back x"

definition hx_env :: "https_exchange \<Rightarrow> int \<times> https_event list" where
  "hx_env x = (hx_sent x, [HttpsResponse (hx_now x) (Some (hx_header x))])"

definition https_genuine :: "(string \<Rightarrow> int option) \<Rightarrow> https_exchange \<Rightarrow> bool" where
  "https_genuine parse_date x \<longleftrightarrow>
     (case parse_date (hx_header x) of None \<Rightarrow> False
      | Some ms \<Rightarrow> ms * 1000000 \<le> hx_stamp x \<and> hx_stamp x < (ms + 1000) * 1000000) \<and>
     0 \<le> hx_back x \<and> hx_back x \<le> (hx_now x - hx_sent x) * 1000000"

lemma https_ask:
  assumes "https_getTime parse_date (hx_env x) src = Some (Fulfilled r)" and "parse_date (hx_header x) = Some ms"
  shows "tr_timestamp r = ms * 1000000 + (hx_now x - hx_sent x) * 500000"
    and "tr_uncertainty r = of_int (hx_now x - hx_sent x) / 2 + 500"
proof -
  have e: "tdiv (a * 1000000 - b * 1000000) 2 = a * 500000 - b * 500000" for a b
    using tdiv_2_even [of "a * 500000 - b * 500000"] by (simp add: algebra_simps)
  show "tr_timestamp r = ms * 1000000 + (hx_now x - hx_sent x) * 500000"
    using assms unfolding https_getTime_def https_run_def https_outcome_Fulfilled hx_env_def
    by (auto simp: https_step_def new_https_call_def https_response_def Let_def e split: if_splits)
  show "tr_uncertainty r = of_int (hx_now x - hx_sent x) / 2 + 500"
    using assms unfolding https_getTime_def https_run_def https_outcome_Fulfilled hx_env_def
    by (auto simp: https_step_def new_https_call_def https_response_def Let_def field_simps split: if_splits)
qed

lemma https_late:
  assumes g: "https_genuine parse_date x" and r: "https_getTime parse_date (hx_env x) src = Some (Fulfilled r)"
  shows "- (tr_uncertainty r - 500) * 1000000 \<le> of_int (hx_arrived x - tr_timestamp r) \<and>
         of_int (hx_arrived x - tr_timestamp r) < (tr_uncertainty r + 500) * 1000000"
proof -
  obtain ms where ms: "parse_date (hx_header x) = Some ms"
    and s: "ms * 1000000 \<le> hx_stamp x" "hx_stamp x < (ms + 1000) * 1000000"
    and b: "0 \<le> hx_back x" "hx_back x \<le> (hx_now x - hx_sent x) * 1000000"
    using g by (auto simp: https_genuine_def split: option.splits)
  note a = https_ask [OF r ms]
  have "- (hx_now x - hx_sent x) * 500000 \<le> hx_arrived x - tr_timestamp r"
    "hx_arrived x - tr_timestamp r < (hx_now x - hx_sent x) * 500000 + 1000000000"
    using s b unfolding a(1) hx_arrived_def by (simp_all add: algebra_simps)
  then have "of_int (- (hx_now x - hx_sent x) * 500000) \<le> (of_int (hx_arrived x - tr_timestamp r) :: rat)"
    "(of_int (hx_arrived x - tr_timestamp r) :: rat) < of_int ((hx_now x - hx_sent x) * 500000 + 1000000000)"
    by (simp_all only: of_int_le_iff of_int_less_iff)
  then show ?thesis unfolding a(2) by (simp add: field_simps)
qed

interpretation https_time: timed_exchange "\<lambda>x. https_getTime parse_date (hx_env x) (hx_src x)"
  "https_genuine parse_date" hx_arrived "\<lambda>_. 500000000" for parse_date
proof unfold_locales
  fix x r
  assume "https_genuine parse_date x" "https_getTime parse_date (hx_env x) (hx_src x) = Some (Fulfilled r)"
  from https_late [OF this] show
    "\<bar>of_int (tr_timestamp r - hx_arrived x)\<bar> \<le> tr_uncertainty r * 1000000 + 500000000"
    by (simp add: abs_le_iff algebra_simps)
qed

text \<open>
  C35. The uncertainty of an HTTPS reading is declared too small.  The true time of arrival is never
  more than half the round trip before the reading, but up to a second and half the round trip
  after it, because the header shows the second that has begun, while the declared uncertainty is
  half a second and half the round trip on both sides.  In each exchange that is answered the
  server can have written its header so late in the second that the declared interval does not
  contain the time of arrival.
\<close>

theorem https_uncertainty_one_sided:
  assumes parses: "hx_header x \<noteq> []" "parse_date (hx_header x) = Some ms" and rtt: "hx_sent x \<le> hx_now x"
  shows "\<exists>r. https_getTime parse_date (hx_env x) (hx_src x) = Some (Fulfilled r) \<and>
     (https_genuine parse_date x \<longrightarrow>
        - (tr_uncertainty r - 500) * 1000000 \<le> of_int (hx_arrived x - tr_timestamp r) \<and>
        of_int (hx_arrived x - tr_timestamp r) < (tr_uncertainty r + 500) * 1000000) \<and>
     (\<exists>stamp back. https_genuine parse_date (x\<lparr>hx_stamp := stamp, hx_back := back\<rparr>) \<and>
        tr_uncertainty r * 1000000 < of_int (hx_arrived (x\<lparr>hx_stamp := stamp, hx_back := back\<rparr>) - tr_timestamp r))"
proof -
  obtain r where r: "https_getTime parse_date (hx_env x) (hx_src x) = Some (Fulfilled r)"
    using parses by (simp add: https_getTime_def https_outcome_def https_run_def https_step_def new_https_call_def hx_env_def https_response_def Let_def)
  define y where "y = x\<lparr>hx_stamp := ms * 1000000 + 999999999, hx_back := (hx_now x - hx_sent x) * 1000000\<rparr>"
  have "https_genuine parse_date y"
    using parses(2) rtt by (simp add: https_genuine_def y_def)
  moreover have "tr_uncertainty r * 1000000 < of_int (hx_arrived y - tr_timestamp r)"
    using rtt unfolding https_ask [OF r parses(2)] by (simp add: y_def hx_arrived_def field_simps)
  ultimately show ?thesis
    unfolding y_def using r https_late [OF _ r] by blast
qed

definition sample_https :: https_exchange where
  "sample_https = \<lparr>hx_src = \<lparr>https_name = ''nist'', https_url = ''https://time.nist.gov/''\<rparr>, hx_sent = 5000,
     hx_now = 5040, hx_header = ''h'', hx_stamp = 5010000000, hx_back = 20000000\<rparr>"

lemma https_uncertainty_one_sided_witness:
  "\<exists>r. https_getTime (\<lambda>h. Some 5000) (hx_env sample_https) (hx_src sample_https) = Some (Fulfilled r) \<and>
     of_int (hx_arrived sample_https - tr_timestamp r) < (tr_uncertainty r + 500) * 1000000 \<and>
     (\<exists>stamp back. https_genuine (\<lambda>h. Some 5000) (sample_https\<lparr>hx_stamp := stamp, hx_back := back\<rparr>) \<and>
        tr_uncertainty r * 1000000 < of_int (hx_arrived (sample_https\<lparr>hx_stamp := stamp, hx_back := back\<rparr>) - tr_timestamp r))"
proof -
  have "https_genuine (\<lambda>h. Some 5000) sample_https" by (simp add: https_genuine_def sample_https_def)
  moreover have "hx_header sample_https \<noteq> []" "hx_sent sample_https \<le> hx_now sample_https"
    by (simp_all add: sample_https_def)
  ultimately show ?thesis
    using https_uncertainty_one_sided [of sample_https "\<lambda>h. Some 5000" 5000] by blast
qed

section \<open>Roughtime\<close>

text \<open>
  The server signs at \<open>rtx_signed\<close> a midpoint and a radius that tell the truth; the response
  needs \<open>rtx_back\<close> to return.  The client adds half a second for it, and no part of the round
  trip.
\<close>

record roughtime_exchange =
  rtx_src :: roughtime_source
  rtx_env :: rt_env
  rtx_signed :: int
  rtx_back :: int

definition rtx_arrived :: "roughtime_exchange \<Rightarrow> int" where
  "rtx_arrived x = rtx_signed x + rtx_back x"

definition roughtime_genuine :: "(bytes \<Rightarrow> bytes) \<Rightarrow> (bytes \<Rightarrow> bytes \<Rightarrow> bytes \<Rightarrow> bool) \<Rightarrow> roughtime_exchange \<Rightarrow> bool" where
  "roughtime_genuine sha512 verify x \<longleftrightarrow> 0 \<le> rtx_back x \<and>
     (case (buildRoughtimeRequest sha512 (re_nonce (rtx_env x)) (rt_pubkey (rtx_src x)),
            rx_result (sendAndReceive (rtx_src x) (re_events (rtx_env x)))) of
        (Inr request, Some (Fulfilled response)) \<Rightarrow>
          (case validateRoughtimeResponse sha512 verify request response (rt_pubkey (rtx_src x))
                  (re_nonce (rtx_env x)) (rt_name (rtx_src x)) of
             Inl e \<Rightarrow> True
           | Inr v \<Rightarrow> \<bar>rtx_signed x - midpSeconds v * 1000000000\<bar> \<le> int (radiSeconds v) * 1000000000)
      | _ \<Rightarrow> True)"

lemma roughtime_within:
  assumes g: "roughtime_genuine sha512 verify x"
    and r: "roughtime_getTime sha512 verify (rtx_env x) (rtx_src x) = Some (Fulfilled r)"
  shows "\<bar>of_int (tr_timestamp r - rtx_arrived x)\<bar> \<le> tr_uncertainty r * 1000000 + (of_int (rtx_back x) - 500000000)"
proof -
  obtain v :: roughtime_validated where v: "tr_timestamp r = midpSeconds v * 1000000000" "tr_uncertainty r = of_nat (radiSeconds v) * 1000 + 500"
    and s: "\<bar>rtx_signed x - midpSeconds v * 1000000000\<bar> \<le> int (radiSeconds v) * 1000000000" and b: "0 \<le> rtx_back x"
    using g r by (auto simp: roughtime_getTime_def roughtime_genuine_def split: dns_answer.splits option.splits sum.splits settle.splits)
  have "\<bar>tr_timestamp r - rtx_arrived x\<bar> \<le> int (radiSeconds v) * 1000000000 + rtx_back x"
    using s b unfolding v rtx_arrived_def by linarith
  then have "of_int \<bar>tr_timestamp r - rtx_arrived x\<bar> \<le> (of_int (int (radiSeconds v) * 1000000000 + rtx_back x) :: rat)"
    by (simp only: of_int_le_iff)
  then show ?thesis unfolding v(2) by simp
qed

interpretation roughtime_time: timed_exchange "\<lambda>x. roughtime_getTime sha512 verify (rtx_env x) (rtx_src x)"
  "roughtime_genuine sha512 verify" rtx_arrived "\<lambda>x. of_int (rtx_back x) - 500000000" for sha512 verify
  by unfold_locales (rule roughtime_within)

section \<open>The sources of a synthesis\<close>

datatype exchange = OverHttps https_exchange | OverRoughtime roughtime_exchange

fun exchange_source :: "exchange \<Rightarrow> any_source" where
  "exchange_source (OverHttps x) = HttpsSrc (hx_src x)"
| "exchange_source (OverRoughtime x) = RoughtimeSrc (rtx_src x)"

fun exchange_env :: "exchange \<Rightarrow> source_env" where
  "exchange_env (OverHttps x) = HttpsEnv (fst (hx_env x)) (snd (hx_env x))"
| "exchange_env (OverRoughtime x) = RoughtimeEnv (rtx_env x)"

fun exchange_genuine ::
    "(string \<Rightarrow> int option) \<Rightarrow> (bytes \<Rightarrow> bytes) \<Rightarrow> (bytes \<Rightarrow> bytes \<Rightarrow> bytes \<Rightarrow> bool) \<Rightarrow> exchange \<Rightarrow> bool" where
  "exchange_genuine parse_date sha512 verify (OverHttps x) = https_genuine parse_date x"
| "exchange_genuine parse_date sha512 verify (OverRoughtime x) = roughtime_genuine sha512 verify x"

fun exchange_arrived :: "exchange \<Rightarrow> int" where
  "exchange_arrived (OverHttps x) = hx_arrived x"
| "exchange_arrived (OverRoughtime x) = rtx_arrived x"

fun exchange_slack :: "exchange \<Rightarrow> rat" where
  "exchange_slack (OverHttps x) = 500000000"
| "exchange_slack (OverRoughtime x) = of_int (rtx_back x) - 500000000"

interpretation exchanges: timed_exchange
  "\<lambda>x. source_getTime parse_date sha512 verify (exchange_env x) (exchange_source x)"
  "exchange_genuine parse_date sha512 verify" exchange_arrived exchange_slack
  for parse_date sha512 verify
proof unfold_locales
  fix x r
  assume "exchange_genuine parse_date sha512 verify x"
    "source_getTime parse_date sha512 verify (exchange_env x) (exchange_source x) = Some (Fulfilled r)"
  then show "\<bar>of_int (tr_timestamp r - exchange_arrived x)\<bar> \<le> tr_uncertainty r * 1000000 + exchange_slack x"
    using https_time.within roughtime_time.within by (cases x) simp_all
qed

definition accurate_answer ::
    "(string \<Rightarrow> int option) \<Rightarrow> (bytes \<Rightarrow> bytes) \<Rightarrow> (bytes \<Rightarrow> bytes \<Rightarrow> bytes \<Rightarrow> bool)
     \<Rightarrow> int \<Rightarrow> int \<Rightarrow> int \<Rightarrow> time_reading \<Rightarrow> bool" where
  "accurate_answer parse_date sha512 verify lo hi \<delta> r \<longleftrightarrow>
     (\<exists>x. exchange_genuine parse_date sha512 verify x \<and>
          source_getTime parse_date sha512 verify (exchange_env x) (exchange_source x) = Some (Fulfilled r) \<and>
          lo \<le> exchange_arrived x \<and> exchange_arrived x \<le> hi \<and>
          tr_uncertainty r * 1000000 + exchange_slack x \<le> of_int \<delta>)"

lemma accurate_answer_eq:
  "accurate_answer parse_date sha512 verify lo hi \<delta> r \<longleftrightarrow> exchanges.accurate parse_date sha512 verify lo hi \<delta> r"
  by (simp add: accurate_answer_def exchanges.accurate_def)

text \<open>
  C2. The accuracy of a proof of time, from the network to the proof.  Let at least three sources
  answer, and let more than half of the answers come from exchanges with servers that told the
  truth, over a network that did with the packets whatever it does, and arrive between two
  instants \<open>lo\<close> and \<open>hi\<close>.  Then the time of the proof is at most \<open>\<delta>\<close> outside that interval, where \<open>\<delta>\<close> bounds
  what these readings declare, half a second for HTTPS, and what the Roughtime answers travelled
  beyond half a second.  And no reading in the proof, the false ones included, is further out
  than that and the tolerance of the verification.
\<close>

theorem proof_accuracy:
  assumes gen: "generateProofOfTime results rand t_iss t_exp t_now ts = (Fulfilled pot, ts')"
    and three: "3 \<le> length (fulfilled_values results)"
    and majority: "length (fulfilled_values results) < 2 * length (filter honest (fulfilled_values results))"
    and honest: "\<forall>r \<in> set (fulfilled_values results). honest r \<longrightarrow> accurate_answer parse_date sha512 verify lo hi \<delta> r"
  shows "lo - \<delta> \<le> pot_timestamp pot \<and> pot_timestamp pot \<le> hi + \<delta> \<and>
    (\<forall>r \<in> set (sourceReadings pot).
       let tol = max (getToleranceForStratum (lowest_stratum (sourceReadings pot) (pot_stratum pot)))
                     (js_round (sr_uncertainty r * 1000000))
       in lo - \<delta> - tol \<le> sr_timestamp r \<and> sr_timestamp r \<le> hi + \<delta> + tol)"
proof -
  note g = generate_cases [OF gen]
  have "fst (select_time (fulfilled_values results)) = pot_timestamp pot" using g by auto
  moreover have "lo - \<delta> \<le> fst (select_time (fulfilled_values results)) \<and> fst (select_time (fulfilled_values results)) \<le> hi + \<delta>"
    by (rule exchanges.median_bracket [OF three majority]) (use honest accurate_answer_eq in blast)
  ultimately have t: "lo - \<delta> \<le> pot_timestamp pot" "pot_timestamp pot \<le> hi + \<delta>" by simp_all
  have "\<forall>r \<in> set (sourceReadings pot). \<bar>sr_timestamp r - pot_timestamp pot\<bar> \<le>
      max (getToleranceForStratum (lowest_stratum (sourceReadings pot) (pot_stratum pot)))
          (js_round (sr_uncertainty r * 1000000))"
    using g unfolding verify_iff by blast
  then show ?thesis using t unfolding Let_def by (smt (verit, best))
qed

definition honest_sample :: "string \<Rightarrow> time_reading" where
  "honest_sample n = \<lparr>tr_timestamp = 5020000000, tr_uncertainty = 520, tr_stratum = 2, tr_source = n\<rparr>"

lemma honest_sample_accurate:
  "accurate_answer (\<lambda>h. Some 5000) sha512 verify 5030000000 5030000000 1020000000 (honest_sample n)"
  unfolding accurate_answer_def
  by (rule exI [of _ "OverHttps (sample_https\<lparr>hx_src := \<lparr>https_name = n, https_url = []\<rparr>\<rparr>)"])
     (simp add: sample_https_def honest_sample_def https_genuine_def hx_env_def hx_arrived_def https_getTime_def
        https_outcome_def https_run_def https_step_def new_https_call_def https_response_def Let_def tdiv_def)

definition honest_majority :: "time_reading settle list" where
  "honest_majority = [Fulfilled (honest_sample ''nist''),
     Fulfilled \<lparr>tr_timestamp = 5100000000, tr_uncertainty = 500, tr_stratum = 2, tr_source = ''google''\<rparr>,
     Fulfilled (honest_sample ''apple'')]"

lemma honest_majority_generates:
  "\<exists>pot ts'. generateProofOfTime honest_majority [7] 0 0 0 sample_synthesis = (Fulfilled pot, ts')"
  by (simp add: honest_majority_def honest_sample_def generateProofOfTime_def verifyProofOfTime_def Let_def
      select_time_def sample_synthesis_def reading_entry_def nonce_cache_step_def MAX_NONCE_CACHE_def jm_has_def
      getToleranceForStratum_def reading_tolerance_def js_round_def)

lemma proof_accuracy_witness:
  "\<exists>pot ts'. generateProofOfTime honest_majority [7] 0 0 0 sample_synthesis = (Fulfilled pot, ts') \<and>
     \<bar>pot_timestamp pot - 5030000000\<bar> \<le> 1020000000"
proof -
  obtain pot ts' where g: "generateProofOfTime honest_majority [7] 0 0 0 sample_synthesis = (Fulfilled pot, ts')"
    using honest_majority_generates by blast
  have src: "tr_source (honest_sample n) = n" for n by (simp add: honest_sample_def)
  have "5030000000 - 1020000000 \<le> pot_timestamp pot \<and> pot_timestamp pot \<le> 5030000000 + 1020000000"
    using proof_accuracy [OF g, where honest = "\<lambda>r. tr_source r \<noteq> ''google''" and parse_date = "\<lambda>h. Some 5000"
        and lo = 5030000000 and hi = 5030000000 and \<delta> = 1020000000 and ?sha512.0 = "\<lambda>b. b" and verify = "\<lambda>a b c. True"]
    by (simp add: honest_majority_def src honest_sample_accurate)
  then show ?thesis using g by fastforce
qed

end
