(* ===== verification/VerifierRuns.thy ===== *)
theory VerifierRuns
  imports PotVerifier
begin

text \<open>
  What the frame verifier of \<open>pot_verifier.ts\<close> with its in-memory cache answers over a whole
  run, next to a specification that has no cache: it remembers every frame it ever accepted.
  The cache forgets: an expired nonce when it is asked for, all expired ones when it is large.
  Asked in the order of time, this is never visible.
\<close>

section \<open>The cache\<close>

definition ideal_check :: "int \<Rightarrow> int \<times> string \<Rightarrow> (int \<times> string) list \<Rightarrow> bool \<times> (int \<times> string) list" where
  "ideal_check ttl i accepted =
     (let fresh = (\<forall>(t, n) \<in> set accepted. n = snd i \<longrightarrow> t + ttl < fst i)
      in (fresh, if fresh then i # accepted else accepted))"

definition cache_rel :: "int \<Rightarrow> int \<Rightarrow> memory_cache \<Rightarrow> (int \<times> string) list \<Rightarrow> bool" where
  "cache_rel ttl t c accepted \<longleftrightarrow> memory_ok ttl c \<and>
     (\<forall>n d. t \<le> d \<longrightarrow> fst (memory_has d n c) = (\<not> fst (ideal_check ttl (d, n) accepted)))"

lemma ideal_stale: "fst (ideal_check ttl i accepted) \<longleftrightarrow> (\<forall>(t, n) \<in> set accepted. n = snd i \<longrightarrow> t + ttl < fst i)"
  by (simp add: ideal_check_def Let_def)

lemma ideal_next:
  "snd (ideal_check ttl i accepted) = (if fst (ideal_check ttl i accepted) then i # accepted else accepted)"
  by (simp add: ideal_check_def Let_def)

lemma ideal_Cons:
  "fst (ideal_check ttl (d, m) (i # accepted)) \<longleftrightarrow>
     (m = snd i \<longrightarrow> fst i + ttl < d) \<and> fst (ideal_check ttl (d, m) accepted)"
  unfolding ideal_stale by (cases i) auto

lemma ideal_later: "fst (ideal_check ttl i accepted) \<Longrightarrow> fst i \<le> d \<Longrightarrow> fst (ideal_check ttl (d, snd i) accepted)"
  unfolding ideal_stale by fastforce

lemma cache_rel_later: "cache_rel ttl t c accepted \<Longrightarrow> t \<le> t' \<Longrightarrow> cache_rel ttl t' c accepted"
  by (auto simp: cache_rel_def)

lemma check_fresh:
  "\<not> fst (memory_has t n c) \<Longrightarrow> memory_check t n c = (True, memory_add t n (snd (memory_has t n c)))"
  by (simp add: memory_check_def case_prod_beta)

lemma check_seen: "fst (memory_has t n c) \<Longrightarrow> memory_check t n c = (False, c)"
  using memory_has_same [of t n c] by (simp add: memory_check_def case_prod_beta)

text \<open>Asked later, the cache knows what it just accepted, and of the rest what it knew before.\<close>

lemma added_known:
  assumes ok: "memory_ok ttl c" and "t \<le> d"
  shows "fst (memory_has d m (memory_add t n (snd (memory_has t n c)))) \<longleftrightarrow>
     (if m = n then d \<le> t + ttl else fst (memory_has d m c))"
  using assms(2) unfolding memory_has_True memory_add_get [OF memory_has_ok [OF ok]]
  by (auto simp: memory_has_get split: option.splits)

lemma check_simulates:
  assumes rel: "cache_rel ttl t c accepted" and t: "t \<le> fst i"
  shows "fst (memory_check (fst i) (snd i) c) = fst (ideal_check ttl i accepted) \<and>
    cache_rel ttl (fst i) (snd (memory_check (fst i) (snd i) c)) (snd (ideal_check ttl i accepted))"
proof (cases "fst (memory_has (fst i) (snd i) c)")
  case True
  then have "\<not> fst (ideal_check ttl i accepted)" using rel t by (simp add: cache_rel_def)
  then show ?thesis
    using cache_rel_later [OF rel t] by (simp add: check_seen [OF True] ideal_next)
next
  case False
  then have f: "fst (ideal_check ttl i accepted)" using rel t by (simp add: cache_rel_def)
  then have s: "snd (ideal_check ttl i accepted) = i # accepted" by (simp add: ideal_next)
  have ok: "memory_ok ttl c" using rel by (simp add: cache_rel_def)
  have "fst (memory_has d m (memory_add (fst i) (snd i) (snd (memory_has (fst i) (snd i) c)))) =
      (\<not> fst (ideal_check ttl (d, m) (i # accepted)))" if d: "fst i \<le> d" for m d
  proof (cases "m = snd i")
    case True
    then show ?thesis using ideal_later [OF f d] unfolding added_known [OF ok d] ideal_Cons by auto
  next
    case False
    then have "fst (memory_has d m c) = (\<not> fst (ideal_check ttl (d, m) accepted))"
      using rel t d by (simp add: cache_rel_def)
    with False show ?thesis unfolding added_known [OF ok d] ideal_Cons by simp
  qed
  moreover have "memory_ok ttl (memory_add (fst i) (snd i) (snd (memory_has (fst i) (snd i) c)))"
    by (rule memory_add_ok [OF memory_has_ok [OF ok]])
  ultimately show ?thesis
    unfolding check_fresh [OF False] s cache_rel_def fst_conv snd_conv using f by blast
qed

interpretation cache: simulation "\<lambda>i. memory_check (fst i) (snd i)" "ideal_check ttl" fst "cache_rel ttl" for ttl
  by unfold_locales (rule check_simulates)

section \<open>The verifier\<close>

record frame_call =
  fc_socket :: tls_socket
  fc_frame :: bytes
  fc_now :: int

definition run_verify ::
    "(bytes \<Rightarrow> bytes \<Rightarrow> bytes \<Rightarrow> bool) \<Rightarrow> bytes \<Rightarrow> frame_call \<Rightarrow> memory_cache \<Rightarrow> bool \<times> memory_cache" where
  "run_verify sig_ok issuer call c =
     (let r = memory_verify sig_ok issuer (fc_socket call) (fc_frame call) (fc_now call) c
      in (frame_accepted r, snd r))"

text \<open>What does not depend on the past: the form, the binding, the signature and the age.\<close>

definition frame_sound :: "(bytes \<Rightarrow> bytes \<Rightarrow> bytes \<Rightarrow> bool) \<Rightarrow> bytes \<Rightarrow> frame_call \<Rightarrow> bool" where
  "frame_sound sig_ok issuer call \<longleftrightarrow>
     (case decodePotFrame (fc_frame call) of
        Inl e \<Rightarrow> False
      | Inr f \<Rightarrow> frame_checks sig_ok issuer (fc_socket call) (fc_frame call) f \<and>
          fc_now call - fr_timestamp f div 1000000 \<le> tier_tolerance (fr_tier f))"

definition frame_nonce :: "bytes \<Rightarrow> string" where
  "frame_nonce frame = (case decodePotFrame frame of Inl e \<Rightarrow> [] | Inr f \<Rightarrow> hex_encode (fr_nonce f))"

definition ideal_verify ::
    "(bytes \<Rightarrow> bytes \<Rightarrow> bytes \<Rightarrow> bool) \<Rightarrow> bytes \<Rightarrow> int \<Rightarrow> frame_call \<Rightarrow> (int \<times> string) list
     \<Rightarrow> bool \<times> (int \<times> string) list" where
  "ideal_verify sig_ok issuer ttl call accepted =
     (if frame_sound sig_ok issuer call then ideal_check ttl (fc_now call, frame_nonce (fc_frame call)) accepted
      else (False, accepted))"

lemma memory_verify_seen:
  assumes d: "decodePotFrame frame = Inr f"
    and n: "\<not> frame_accepted (memory_verify sig_ok issuer socket frame now c)"
  shows "snd (memory_verify sig_ok issuer socket frame now c) = c"
proof -
  let ?n = "hex_encode (fr_nonce f)" and ?r = "memory_verify sig_ok issuer socket frame now c"
  have "snd ?r = c \<or> (fst (memory_has now ?n c) \<and> snd ?r = snd (memory_has now ?n c)) \<or> frame_accepted ?r"
    using d by (cases "memory_has now ?n c")
      (auto simp: memory_verify_def verify_frame_def frame_accepted_def Let_def split: sum.splits)
  then show ?thesis using n memory_has_same by metis
qed

lemma run_unsound:
  assumes "\<not> frame_sound sig_ok issuer call"
  shows "run_verify sig_ok issuer call c = (False, c)"
proof (cases "decodePotFrame (fc_frame call)")
  case (Inl e)
  then show ?thesis
    by (simp add: run_verify_def Let_def memory_verify_def verify_frame_def frame_accepted_def rejected_def)
next
  case (Inr f)
  then have "\<not> frame_accepted (memory_verify sig_ok issuer (fc_socket call) (fc_frame call) (fc_now call) c)"
    using assms unfolding memory_accepted_iff [OF Inr] by (auto simp: frame_sound_def)
  then show ?thesis using memory_verify_seen [OF Inr] by (simp add: run_verify_def Let_def)
qed

lemma run_sound:
  assumes "frame_sound sig_ok issuer call"
  shows "run_verify sig_ok issuer call c = memory_check (fc_now call) (frame_nonce (fc_frame call)) c"
proof -
  let ?r = "memory_verify sig_ok issuer (fc_socket call) (fc_frame call) (fc_now call) c"
  obtain f where f: "decodePotFrame (fc_frame call) = Inr f"
    using assms by (auto simp: frame_sound_def split: sum.splits)
  have iff: "frame_accepted ?r \<longleftrightarrow> \<not> fst (memory_has (fc_now call) (hex_encode (fr_nonce f)) c)"
    using assms unfolding memory_accepted_iff [OF f] by (simp add: frame_sound_def f)
  show ?thesis
  proof (cases "frame_accepted ?r")
    case True
    then show ?thesis using memory_accept [OF f True]
      by (simp add: run_verify_def Let_def frame_nonce_def f prod_eq_iff)
  next
    case False
    then have "memory_check (fc_now call) (hex_encode (fr_nonce f)) c = (False, c)"
      using iff by (simp add: check_seen)
    then show ?thesis using False memory_verify_seen [OF f False]
      by (simp add: run_verify_def Let_def frame_nonce_def f)
  qed
qed

lemma verify_simulates:
  assumes "cache_rel ttl t c accepted" and "t \<le> fc_now call"
  shows "fst (run_verify sig_ok issuer call c) = fst (ideal_verify sig_ok issuer ttl call accepted) \<and>
    cache_rel ttl (fc_now call) (snd (run_verify sig_ok issuer call c))
      (snd (ideal_verify sig_ok issuer ttl call accepted))"
proof (cases "frame_sound sig_ok issuer call")
  case True
  then show ?thesis
    using check_simulates [OF assms(1), of "(fc_now call, frame_nonce (fc_frame call))"] assms(2)
    by (simp add: run_sound ideal_verify_def)
next
  case False
  then show ?thesis using cache_rel_later [OF assms] by (simp add: run_unsound ideal_verify_def)
qed

interpretation verifier: simulation "run_verify sig_ok issuer" "ideal_verify sig_ok issuer ttl" fc_now
  "cache_rel ttl" for sig_ok issuer ttl
  by unfold_locales (rule verify_simulates)

text \<open>
  C10. The verifier implements its specification.  Over any run of verifications, on any sockets and of
  any frames, whose times do not decrease, a fresh verifier accepts a frame exactly when the
  frame is well formed, bound to its socket, signed and not too old, and no frame with the same
  nonce was accepted in the time to live before.
\<close>

theorem verifier_implements_specification:
  assumes "sorted (map fc_now calls)"
  shows "answers (run_verify sig_ok issuer) calls (MemoryNonceCache (Some ttl)) =
     answers (ideal_verify sig_ok issuer ttl) calls []"
proof (cases calls)
  case (Cons call rest)
  have "cache_rel ttl (fc_now call) (MemoryNonceCache (Some ttl)) []"
    by (simp add: cache_rel_def MemoryNonceCache_def memory_ok_def memory_has_def ideal_stale)
  then show ?thesis using assms by (intro verifier.same_answers [where t = "fc_now call"]) (simp_all add: Cons)
qed simp

definition sample_calls :: "frame_call list" where
  "sample_calls = map (\<lambda>t. \<lparr>fc_socket = sample_socket 9, fc_frame = sample_frame, fc_now = t\<rparr>) [800000, 850000, 920001]"

lemma verifier_implements_specification_witness:
  "answers (run_verify (\<lambda>k m s. s = replicate 64 7) []) sample_calls (MemoryNonceCache (Some 120000)) =
     [True, False, True]"
proof -
  have "sorted (map fc_now sample_calls)" by (simp add: sample_calls_def)
  moreover have "frame_sound (\<lambda>k m s. s = replicate 64 7) [] call" if "call \<in> set sample_calls" for call
    using that by (auto simp: sample_calls_def frame_sound_def sample_decodes frame_checks_def)
      (simp_all add: sample_parsed_def sample_socket_def tier_tolerance_def TTTPS_TIER_TOLERANCE_MS_def)
  ultimately show ?thesis
    using verifier_implements_specification
      [of sample_calls "\<lambda>k m s. s = replicate 64 7" "[]" 120000]
    by (simp add: sample_calls_def ideal_verify_def ideal_check_def Let_def)
qed

end
