(* ===== verification/Commitments.thy ===== *)
theory Commitments
  imports TimeSynthesis PotSigner
begin

text \<open>
  What the hash of a proof of time that goes on chain (\<open>getOnChainHash\<close> of
  \<open>time_synthesis.ts\<close>) commits to, and with it the issuer's signature (\<open>pot_signer.ts\<close>), which is
  over the text of that hash.
\<close>

definition onchain_types :: "string list" where
  "onchain_types = [''uint64'', ''uint64'', ''uint8'', ''uint8'', ''uint32'']"

text \<open>The hash in one: an encoder and a hash function that do not send two inputs to one output.\<close>

definition collision_free :: "(string list \<Rightarrow> int list \<Rightarrow> js_exn + bytes) \<Rightarrow> (bytes \<Rightarrow> string) \<Rightarrow> bool" where
  "collision_free abi_encode keccak256 \<longleftrightarrow>
     (\<forall>vs vs' w w'. abi_encode onchain_types vs = Inr w \<longrightarrow> abi_encode onchain_types vs' = Inr w' \<longrightarrow>
        keccak256 w = keccak256 w' \<longrightarrow> vs = vs')"

lemma onchain_hash_eq:
  assumes "collision_free A K" and "getOnChainHash A K pot = Inr h"
  shows "getOnChainHash A K pot' = Inr h \<longleftrightarrow>
     pot_timestamp pot' = pot_timestamp pot \<and> pot_sources pot' = pot_sources pot \<and> pot_stratum pot' = pot_stratum pot \<and>
     js_round (pot_uncertainty pot' * 1000000) = js_round (pot_uncertainty pot * 1000000) \<and>
     js_round (pot_confidence pot' * 1000000) = js_round (pot_confidence pot * 1000000)"
proof -
  let ?vs = "\<lambda>p. [pot_timestamp p, js_round (pot_uncertainty p * 1000000), int (pot_sources p), pot_stratum p,
    js_round (pot_confidence p * 1000000)]"
  have "getOnChainHash A K p = Inr h \<longleftrightarrow> (\<exists>w. A onchain_types (?vs p) = Inr w \<and> K w = h)" for p
    by (auto simp: getOnChainHash_def onchain_types_def bindr_Inr)
  then have "getOnChainHash A K pot' = Inr h \<longleftrightarrow> ?vs pot' = ?vs pot"
    using assms unfolding collision_free_def by metis
  then show ?thesis by auto
qed

text \<open>
  C8. What the chain sees of a proof.  Over an encoder and a hash without collisions, two proofs have
  the same hash exactly if they agree in the time, the number of sources, the stratum, and the
  uncertainty and the confidence rounded to a millionth.  The nonce, the expiry and the readings
  are not in it: with any other nonce, expiry and readings the hash is the same, and the issuer's
  signature for the one proof verifies for the other.
\<close>

theorem onchain_hash_scope:
  assumes free: "collision_free A K" and hash: "getOnChainHash A K pot = Inr h"
    and laws: "ed25519_laws C" and signer: "PotSigner C key None = Inr s"
  shows "(getOnChainHash A K pot' = Inr h \<longleftrightarrow>
       pot_timestamp pot' = pot_timestamp pot \<and> pot_sources pot' = pot_sources pot \<and> pot_stratum pot' = pot_stratum pot \<and>
       js_round (pot_uncertainty pot' * 1000000) = js_round (pot_uncertainty pot * 1000000) \<and>
       js_round (pot_confidence pot' * 1000000) = js_round (pot_confidence pot * 1000000)) \<and>
     (\<exists>h'. getOnChainHash A K (pot\<lparr>pot_nonce := n, expiresAt := e, sourceReadings := rs\<rparr>) = Inr h' \<and>
       verifyPotSignature C h' (signPot C now h s) (Some (getPubKeyHex s)))"
proof -
  have "getOnChainHash A K (pot\<lparr>pot_nonce := n, expiresAt := e, sourceReadings := rs\<rparr>) = Inr h"
    using onchain_hash_eq [OF free hash] by simp
  moreover have "verifyPotSignature C h (signPot C now h s) (Some (getPubKeyHex s))"
    using PotSigner_ok [OF signer] laws
    by (simp add: verifyPotSignature_def signPot_def signer_ok_def ed25519_laws_def getPubKeyHex_def)
  ultimately show ?thesis using onchain_hash_eq [OF free hash] by blast
qed

definition toy_abi :: "string list \<Rightarrow> int list \<Rightarrow> js_exn + bytes" where
  "toy_abi ts vs =
     (if tl vs \<noteq> [500000000, 1, 2, 1000000] then Inl (JsError ''unexpected'')
      else if hd vs = 1000 then Inr [1] else if hd vs = 1001 then Inr [2] else Inl (JsError ''unexpected''))"

lemma toy_abi_free: "collision_free toy_abi hex_encode"
  unfolding collision_free_def
proof (intro allI impI)
  fix vs vs' :: "int list" and w w' :: bytes
  assume a: "toy_abi onchain_types vs = Inr w" "toy_abi onchain_types vs' = Inr w'" "hex_encode w = hex_encode w'"
  then have "vs \<noteq> []" "vs' \<noteq> []" "tl vs = tl vs'" "hd vs = hd vs'"
    by (auto simp: toy_abi_def split: if_splits)
  then show "vs = vs'" by (metis list.exhaust_sel)
qed

lemma onchain_hash_scope_witness:
  "getOnChainHash toy_abi hex_encode (sample_pot\<lparr>pot_timestamp := 1001\<rparr>) \<noteq> Inr (hex_encode [1]) \<and>
   (\<exists>h. getOnChainHash toy_abi hex_encode (sample_pot\<lparr>pot_nonce := ''other'', expiresAt := 0, sourceReadings := []\<rparr>) = Inr h \<and>
      verifyPotSignature toy_ed25519 h (signPot toy_ed25519 5 (hex_encode [1]) \<lparr>privateKey = 3, pubKeyHex = hex_encode [2, 2, 2]\<rparr>)
        (Some (hex_encode [2, 2, 2])))"
proof -
  have h: "getOnChainHash toy_abi hex_encode sample_pot = Inr (hex_encode [1])"
    by (simp add: getOnChainHash_def toy_abi_def sample_pot_def js_round_def floor_eq_iff del: hex_encode.simps)
  have l: "ed25519_laws toy_ed25519" by (simp add: ed25519_laws_def toy_ed25519_def)
  have s: "PotSigner toy_ed25519 3 None = Inr \<lparr>privateKey = 3, pubKeyHex = hex_encode [2, 2, 2]\<rparr>"
    by (simp add: PotSigner_def toy_ed25519_def numeral_3_eq_3)
  from onchain_hash_scope [OF toy_abi_free h l s, of "sample_pot\<lparr>pot_timestamp := 1001\<rparr>"]
    onchain_hash_scope [OF toy_abi_free h l s, where n = "''other''" and e = 0 and rs = "[]" and now = 5]
  show ?thesis by (simp add: sample_pot_def getPubKeyHex_def)
qed

end
