(* ===== verification/OrderingDemos.thy ===== *)
theory OrderingDemos
  imports HttpClient PotSigner AdaptiveSwitch "HOL-Library.Multiset"
begin

text \<open>
  Two examples that order things by their proofs of time: the agents of
  \<open>examples/07-multi-agent-ordering/ordering_demo.ts\<close>, and the votes of
  \<open>examples/09-governance-pot/governance_pot.ts\<close>.
\<close>

section \<open>Agents\<close>

record agent_result =
  ar_name :: string
  ar_timestamp :: int
  ar_mode :: adaptive_mode
  ar_latencyMs :: int
  ar_tampered :: bool

record 'k agent_env =
  ag_synth :: "time_reading settle list"
  ag_results :: "time_reading settle list"
  ag_rand :: bytes
  ag_issued :: int
  ag_checked :: "int \<times> int"
  ag_signed :: int
  ag_key :: 'k

definition TAMPERING :: int where "TAMPERING = 50000000"

text \<open>The switch that the agent makes is never asked: the mode follows the flag.\<close>

definition runAgent ::
    "'k ed25519 \<Rightarrow> (string list \<Rightarrow> int list \<Rightarrow> js_exn + bytes) \<Rightarrow> (bytes \<Rightarrow> string) \<Rightarrow> 'k agent_env
     \<Rightarrow> string \<Rightarrow> bool \<Rightarrow> agent_result settle" where
  "runAgent C abi_encode keccak256 env name tampered =
     (case TimeSynthesis (Some [''nist'', ''google'', ''cloudflare'']) of
        Inl e \<Rightarrow> Rejected e
      | Inr ts \<Rightarrow>
          (case synthesize (ag_synth env) ts of
             Rejected e \<Rightarrow> Rejected e
           | Uncaught e \<Rightarrow> Uncaught e
           | Fulfilled synth \<Rightarrow>
               (case generateProofOfTime (ag_results env) (ag_rand env) (ag_issued env) (fst (ag_checked env))
                       (snd (ag_checked env)) ts of
                  (Rejected e, ts1) \<Rightarrow> Rejected e
                | (Uncaught e, ts1) \<Rightarrow> Uncaught e
                | (Fulfilled pot, ts1) \<Rightarrow>
                    (let reportedTimestamp = (if tampered then pot_timestamp pot - TAMPERING else pot_timestamp pot) in
                     case bindr (PotSigner C (ag_key env) None) (\<lambda>signer.
                          bindr (getOnChainHash abi_encode keccak256 pot) (\<lambda>potHash.
                          Inr (signPot C (ag_signed env) potHash signer))) of
                       Inl e \<Rightarrow> Rejected e
                     | Inr sig \<Rightarrow>
                         (let sw = AdaptiveSwitch None;
                              mode = (if tampered then FULL else TURBO);
                              latencyMs = (if mode = TURBO then 50 else 127)
                          in Fulfilled \<lparr>ar_name = name, ar_timestamp = reportedTimestamp, ar_mode = mode,
                               ar_latencyMs = latencyMs, ar_tampered = tampered\<rparr>)))))"

text \<open>\<open>Promise.all\<close> of the three agents; where one is rejected, simulated times take their place.\<close>

definition demo_results :: "agent_result settle list \<Rightarrow> int \<Rightarrow> agent_result list settle" where
  "demo_results agents nowMs =
     (case first_uncaught agents of
        Some e \<Rightarrow> Uncaught e
      | None \<Rightarrow>
          (if length (fulfilled_values agents) = length agents then Fulfilled (fulfilled_values agents)
           else
             let base = nowMs * 1000000 in
             Fulfilled
               [\<lparr>ar_name = ''Agent A'', ar_timestamp = base + 1000000, ar_mode = TURBO, ar_latencyMs = 50, ar_tampered = False\<rparr>,
                \<lparr>ar_name = ''Agent B'', ar_timestamp = base + 3000000, ar_mode = TURBO, ar_latencyMs = 50, ar_tampered = False\<rparr>,
                \<lparr>ar_name = ''Agent C'', ar_timestamp = base - 50000000, ar_mode = FULL, ar_latencyMs = 127, ar_tampered = True\<rparr>]))"

text \<open>The sort is stable.\<close>

definition demo_order :: "agent_result list \<Rightarrow> agent_result list" where
  "demo_order results = sort_key ar_timestamp results"

definition ordering_demo ::
    "'k ed25519 \<Rightarrow> (string list \<Rightarrow> int list \<Rightarrow> js_exn + bytes) \<Rightarrow> (bytes \<Rightarrow> string) \<Rightarrow> 'k agent_env \<times> 'k agent_env \<times> 'k agent_env
     \<Rightarrow> int \<Rightarrow> (agent_result list \<times> agent_result list) settle" where
  "ordering_demo C abi_encode keccak256 envs nowMs =
     (case envs of (a, b, c) \<Rightarrow>
        (case demo_results [runAgent C abi_encode keccak256 a ''Agent A'' False,
                            runAgent C abi_encode keccak256 b ''Agent B'' False,
                            runAgent C abi_encode keccak256 c ''Agent C'' True] nowMs of
           Rejected e \<Rightarrow> Rejected e
         | Uncaught e \<Rightarrow> Uncaught e
         | Fulfilled results \<Rightarrow> Fulfilled (results, demo_order results)))"

lemma runAgent_fields:
  assumes "runAgent C A K env name tampered = Fulfilled r"
  shows "ar_name r = name \<and> ar_tampered r = tampered \<and> ar_mode r = (if tampered then FULL else TURBO)"
  using assms by (auto simp: runAgent_def Let_def split: sum.splits settle.splits prod.splits)

lemma three_settled:
  "length (fulfilled_values [x, y, z]) = 3 \<Longrightarrow> \<exists>a b c. x = Fulfilled a \<and> y = Fulfilled b \<and> z = Fulfilled c"
  by (cases x; cases y; cases z) simp_all

lemma demo_results_names:
  assumes "demo_results [runAgent C A K a ''Agent A'' False, runAgent C A K b ''Agent B'' False,
      runAgent C A K c ''Agent C'' True] nowMs = Fulfilled results"
  shows "\<exists>x y z. results = [x, y, z] \<and> ar_name x = ''Agent A'' \<and> ar_name y = ''Agent B'' \<and> ar_name z = ''Agent C'' \<and>
     ar_mode x = TURBO \<and> ar_mode y = TURBO \<and> ar_mode z = FULL"
proof (cases "length (fulfilled_values [runAgent C A K a ''Agent A'' False, runAgent C A K b ''Agent B'' False,
      runAgent C A K c ''Agent C'' True]) = 3")
  case True
  then obtain x y z where r: "runAgent C A K a ''Agent A'' False = Fulfilled x"
    "runAgent C A K b ''Agent B'' False = Fulfilled y" "runAgent C A K c ''Agent C'' True = Fulfilled z"
    using three_settled [OF True] by blast
  then have "results = [x, y, z]" using assms by (simp add: demo_results_def)
  then show ?thesis using runAgent_fields [OF r(1)] runAgent_fields [OF r(2)] runAgent_fields [OF r(3)] by simp
next
  case False
  then show ?thesis using assms by (auto simp: demo_results_def Let_def split: option.splits)
qed

lemma hd_sort_key3:
  fixes f :: "'a \<Rightarrow> int"
  shows "hd (sort_key f [x, y, z]) = (if f z < f x \<and> f z < f y then z else if f y < f x then y else x)"
  by (auto simp: not_le)

text \<open>
  Who is first in the demo.  Whatever the sources answer, the agent whose time was moved back is
  first exactly when its moved time is before both others'; so with proofs made at the
  same time it wins, in the simulated run always.  The modes are constants: the honest agents are
  shown in TURBO, although a switch that has seen no block is in FULL.
\<close>

theorem ordering_demo_outcome:
  assumes "ordering_demo C A K envs nowMs = Fulfilled (results, ordered)"
  shows "\<exists>x y z. results = [x, y, z] \<and> mset ordered = mset results \<and> sorted (map ar_timestamp ordered) \<and>
     map ar_name results = [''Agent A'', ''Agent B'', ''Agent C''] \<and> map ar_mode results = [TURBO, TURBO, FULL] \<and>
     (ar_name (hd ordered) = ''Agent C'' \<longleftrightarrow> ar_timestamp z < ar_timestamp x \<and> ar_timestamp z < ar_timestamp y) \<and>
     currentMode (AdaptiveSwitch None) = FULL"
proof -
  obtain a b c where "demo_results [runAgent C A K a ''Agent A'' False, runAgent C A K b ''Agent B'' False,
      runAgent C A K c ''Agent C'' True] nowMs = Fulfilled results" and o: "ordered = demo_order results"
    using assms by (auto simp: ordering_demo_def split: settle.splits prod.splits)
  from demo_results_names [OF this(1)] obtain x y z where r: "results = [x, y, z]"
    and n: "ar_name x = ''Agent A''" "ar_name y = ''Agent B''" "ar_name z = ''Agent C''"
      "ar_mode x = TURBO" "ar_mode y = TURBO" "ar_mode z = FULL" by blast
  have "hd ordered = (if ar_timestamp z < ar_timestamp x \<and> ar_timestamp z < ar_timestamp y then z
      else if ar_timestamp y < ar_timestamp x then y else x)"
    unfolding o demo_order_def r by (rule hd_sort_key3)
  then have "ar_name (hd ordered) = ''Agent C'' \<longleftrightarrow> ar_timestamp z < ar_timestamp x \<and> ar_timestamp z < ar_timestamp y"
    using n by simp
  moreover have "mset ordered = mset results" "sorted (map ar_timestamp ordered)"
    unfolding o demo_order_def by simp_all
  ultimately show ?thesis using r n by (intro exI [of _ x] exI [of _ y] exI [of _ z]) (simp add: AdaptiveSwitch_def)
qed

definition demo_env :: "nat agent_env" where
  "demo_env = \<lparr>ag_synth = [], ag_results = [], ag_rand = [], ag_issued = 0, ag_checked = (0, 0), ag_signed = 0, ag_key = 3\<rparr>"

text \<open>Without a network, the agents are rejected, and the simulated run follows.\<close>

lemma demo_offline:
  "\<exists>results ordered. ordering_demo toy_ed25519 (\<lambda>ts vs. Inr []) (\<lambda>b. []) (demo_env, demo_env, demo_env) 1000
     = Fulfilled (results, ordered) \<and> ar_timestamp (results ! 2) < ar_timestamp (results ! 0) \<and>
       ar_timestamp (results ! 2) < ar_timestamp (results ! 1)"
proof -
  obtain ts where ts: "TimeSynthesis (Some [''nist'', ''google'', ''cloudflare'']) = Inr ts"
    by (simp add: TimeSynthesis_eq)
  obtain e where "synthesize [] ts = Rejected e" by (simp add: synthesize_def Let_def)
  then have "runAgent toy_ed25519 (\<lambda>ts vs. Inr []) (\<lambda>b. []) demo_env n t = Rejected e" for n t
    by (simp add: runAgent_def ts demo_env_def)
  then show ?thesis by (simp add: ordering_demo_def demo_results_def Let_def)
qed

lemma ordering_demo_outcome_witness:
  "\<exists>results ordered. ordering_demo toy_ed25519 (\<lambda>ts vs. Inr []) (\<lambda>b. []) (demo_env, demo_env, demo_env) 1000
     = Fulfilled (results, ordered) \<and> ar_name (hd ordered) = ''Agent C''"
proof -
  obtain results ordered where r: "ordering_demo toy_ed25519 (\<lambda>ts vs. Inr []) (\<lambda>b. []) (demo_env, demo_env, demo_env) 1000
     = Fulfilled (results, ordered)" and t: "ar_timestamp (results ! 2) < ar_timestamp (results ! 0)"
    "ar_timestamp (results ! 2) < ar_timestamp (results ! 1)"
    using demo_offline by blast
  obtain x y z where "results = [x, y, z]"
    "ar_name (hd ordered) = ''Agent C'' \<longleftrightarrow> ar_timestamp z < ar_timestamp x \<and> ar_timestamp z < ar_timestamp y"
    using ordering_demo_outcome [OF r] by blast
  then show ?thesis using r t by simp
qed

section \<open>Votes\<close>

record vote_record =
  vt_proposalId :: string
  vt_vote :: string
  vt_voter :: string
  vt_pot_timestamp :: int
  vt_pot_nonce :: string

text \<open>
  \<open>sources\<close> of a proof is a number, which has no \<open>join\<close>; a time beyond the range of \<open>Date\<close> has no
  ISO text.
\<close>

definition print_time :: "int \<Rightarrow> js_exn + unit" where
  "print_time ns =
     (if 8640000000000000 * 1000000 < \<bar>ns\<bar> then Inl (RangeError ''Invalid time value'') else Inr ())"

definition join_sources :: "http_pot \<Rightarrow> js_exn + unit" where
  "join_sources pot = Inl (TypeError ''pot.sources.join is not a function'')"

definition castVoteWithPoT ::
    "(string \<Rightarrow> string \<Rightarrow> bytes) \<Rightarrow> time_reading settle list \<Rightarrow> bytes \<Rightarrow> int \<Rightarrow> int \<times> int \<Rightarrow> string \<Rightarrow> string
     \<Rightarrow> http_client \<Rightarrow> js_exn + vote_record" where
  "castVoteWithPoT hmac results rand now clock proposalId vote ttt =
     bindr (generatePoT hmac results rand now ttt) (\<lambda>pot.
     let voteRecord = \<lparr>vt_proposalId = proposalId, vt_vote = vote, vt_voter = ''0x...'',
           vt_pot_timestamp = hp_timestamp pot, vt_pot_nonce = hp_nonce pot\<rparr>
     in bindr (print_time (hp_timestamp pot)) (\<lambda>_.
        bindr (join_sources pot) (\<lambda>_.
        bindr (fst (verifyPoT hmac (fst clock) (snd clock) pot ttt)) (\<lambda>valid.
        Inr voteRecord))))"

text \<open>
  No vote is cast.  Whatever the sources answer, casting a vote ends in an exception: that of the
  generation, or, when a proof was made, that of printing it.
\<close>

theorem governance_never_votes:
  "(\<exists>e. castVoteWithPoT hmac results rand now clock proposalId vote ttt = Inl e) \<and>
   (\<forall>pot. generatePoT hmac results rand now ttt = Inr pot \<and> \<bar>hp_timestamp pot\<bar> \<le> 8640000000000000 * 1000000 \<longrightarrow>
      castVoteWithPoT hmac results rand now clock proposalId vote ttt =
        Inl (TypeError ''pot.sources.join is not a function''))"
  by (cases "generatePoT hmac results rand now ttt")
     (simp_all add: castVoteWithPoT_def Let_def print_time_def join_sources_def)

end
