(* ===== verification/Explainer.thy ===== *)
theory Explainer
  imports Interfaces
begin

text \<open>
  The presentation of \<open>demo/GRGExplainer.tsx\<close>: its scenes, the player that goes through them, and the
  numbers that it animates.  The state is that of the component, its references included; the
  steps are a tick of the timer, the buttons of the scenes, and the button that pauses and
  plays.  React renders between two steps, so a tick sees the state that the last step left.
  What is drawn is left out.
\<close>

section \<open>The player\<close>

record scene =
  sc_id :: string
  sc_label :: string
  sc_duration :: int

definition SCENES :: "scene list" where
  "SCENES =
     [\<lparr>sc_id = ''title'', sc_label = ''Title'', sc_duration = 4000\<rparr>,
      \<lparr>sc_id = ''problem'', sc_label = ''The Problem'', sc_duration = 6000\<rparr>,
      \<lparr>sc_id = ''shannon'', sc_label = ''Shannon Limit'', sc_duration = 5500\<rparr>,
      \<lparr>sc_id = ''pipeline'', sc_label = ''GRG Pipeline'', sc_duration = 8000\<rparr>,
      \<lparr>sc_id = ''byzantine'', sc_label = ''Elimination'', sc_duration = 6500\<rparr>,
      \<lparr>sc_id = ''results'', sc_label = ''Results'', sc_duration = 5000\<rparr>,
      \<lparr>sc_id = ''future'', sc_label = ''Future'', sc_duration = 4000\<rparr>]"

record explainer =
  sceneIdx :: nat
  playing :: bool
  elapsed :: int
  totalPct :: rat
  startRef :: int
  elapsedRef :: int

definition GRGExplainer :: "int \<Rightarrow> explainer" where
  "GRGExplainer now =
     \<lparr>sceneIdx = 0, playing = True, elapsed = 0, totalPct = 0, startRef = now, elapsedRef = 0\<rparr>"

definition currentScene :: "explainer \<Rightarrow> scene" where
  "currentScene s = SCENES ! sceneIdx s"

definition sceneProgress :: "explainer \<Rightarrow> rat" where
  "sceneProgress s = min (of_int (elapsed s) / of_int (sc_duration (currentScene s))) 1"

definition totalDur :: int where
  "totalDur = sum_list (map sc_duration SCENES)"

definition doneMs :: "explainer \<Rightarrow> int" where
  "doneMs s = sum_list (map sc_duration (take (sceneIdx s) SCENES))"

text \<open>The timer exists only while it plays.  The second time is that of the restart.\<close>

definition tick :: "int \<Rightarrow> int \<Rightarrow> explainer \<Rightarrow> explainer" where
  "tick now now' s =
     (if \<not> playing s then s
      else
        let delta = now - startRef s;
            s1 = s\<lparr>elapsedRef := delta, elapsed := delta,
                   totalPct := min (of_int (doneMs s + delta) / of_int totalDur) 1\<rparr>
        in if sc_duration (currentScene s) \<le> delta then
             (if sceneIdx s < length SCENES - 1 then
                s1\<lparr>sceneIdx := sceneIdx s + 1, elapsed := 0, startRef := now', elapsedRef := 0\<rparr>
              else s1\<lparr>playing := False\<rparr>)
           else s1)"

definition goToScene :: "nat \<Rightarrow> int \<Rightarrow> explainer \<Rightarrow> explainer" where
  "goToScene i now s = s\<lparr>sceneIdx := i, elapsed := 0, startRef := now, playing := True\<rparr>"

definition toggle :: "int \<Rightarrow> explainer \<Rightarrow> explainer" where
  "toggle now s =
     (let s1 = (if \<not> playing s then s\<lparr>startRef := now - elapsedRef s\<rparr> else s)
      in s1\<lparr>playing := \<not> playing s\<rparr>)"

text \<open>There is a button for each scene, and no other.\<close>

datatype explainer_op = Tick int int | GoTo nat int | Toggle int

fun explainer_step :: "explainer_op \<Rightarrow> explainer \<Rightarrow> explainer" where
  "explainer_step (Tick now now') s = tick now now' s"
| "explainer_step (GoTo i now) s = (if i < length SCENES then goToScene i now s else s)"
| "explainer_step (Toggle now) s = toggle now s"

definition explainer_ok :: "explainer \<Rightarrow> bool" where
  "explainer_ok s \<longleftrightarrow> sceneIdx s < length SCENES \<and> totalPct s \<le> 1"

lemma explainer_step_ok: "explainer_ok s \<Longrightarrow> explainer_ok (explainer_step op s)"
  by (cases op) (auto simp: explainer_ok_def tick_def goToScene_def toggle_def Let_def)

interpretation explaining: kept explainer_step explainer_ok
  by unfold_locales (rule explainer_step_ok)

lemma scenes_positive: "i < length SCENES \<Longrightarrow> 0 < sc_duration (SCENES ! i)"
  by (simp add: SCENES_def nth_Cons split: nat.splits)

text \<open>
  The player shows a scene that exists, whatever is pressed and however late the timer is, and
  neither bar goes over its end.
\<close>

theorem explainer_in_bounds:
  "let s = fold explainer_step ops (GRGExplainer t0) in
     sceneIdx s < 7 \<and> currentScene s \<in> set SCENES \<and> totalPct s \<le> 1 \<and> sceneProgress s \<le> 1"
proof -
  have "explainer_ok (fold explainer_step ops (GRGExplainer t0))"
    by (rule explaining.run) (simp add: explainer_ok_def GRGExplainer_def SCENES_def)
  moreover have "length SCENES = 7" by (simp add: SCENES_def)
  ultimately show ?thesis by (simp add: Let_def explainer_ok_def currentScene_def sceneProgress_def)
qed

text \<open>
  Two faults of the player.  A pause keeps the place in a scene; but after a jump to a scene, a
  pause before the first tick and a resumption put it at the place where the scene before was
  left, because the jump does not reset the reference.  And once it has stopped at the end, the play
  button cannot start it: the next tick stops it again.
\<close>

theorem explainer_resumes:
  assumes s: "explainer_ok s" and i: "i < 7"
  shows "(playing s \<and> now - startRef s < sc_duration (currentScene s) \<longrightarrow>
       elapsed (fold explainer_step [Tick now now', Toggle t1, Toggle t2, Tick t2 t2] s) = now - startRef s) \<and>
     (elapsedRef s < sc_duration (SCENES ! i) \<longrightarrow>
       elapsed (fold explainer_step [GoTo i t0, Toggle t1, Toggle t2, Tick t2 t2] s) = elapsedRef s) \<and>
     (\<not> playing s \<and> sceneIdx s = 6 \<and> 4000 \<le> elapsedRef s \<longrightarrow>
       \<not> playing (fold explainer_step [Toggle t1, Tick t1 t1] s))"
proof -
  have n: "length SCENES = 7" and last: "sc_duration (SCENES ! 6) = 4000" by (simp_all add: SCENES_def)
  show ?thesis
    using i by (auto simp: tick_def toggle_def goToScene_def currentScene_def Let_def n last)
qed

lemma explainer_resumes_witness:
  "elapsed (fold explainer_step [GoTo 3 50, Toggle 60, Toggle 900, Tick 900 900]
     ((GRGExplainer 0)\<lparr>elapsedRef := 2500\<rparr>)) = 2500"
  using explainer_resumes [of "(GRGExplainer 0)\<lparr>elapsedRef := 2500\<rparr>" 3]
  by (simp add: explainer_ok_def GRGExplainer_def SCENES_def)

section \<open>Animated numbers\<close>

text \<open>A number on its way from one value to another, at the part \<open>p\<close> of its time.\<close>

definition animated_value :: "rat \<Rightarrow> rat \<Rightarrow> rat \<Rightarrow> int" where
  "animated_value from target p = (let ease = 1 - (1 - p) ^ 3 in js_round (from + (target - from) * ease))"

lemma animated_ends: "animated_value (of_int a) (of_int b) 0 = a" "animated_value (of_int a) (of_int b) 1 = b"
  by (simp_all add: animated_value_def Let_def)

lemma ease_between: "0 \<le> p \<Longrightarrow> p \<le> (1 :: rat) \<Longrightarrow> 0 \<le> 1 - (1 - p) ^ 3 \<and> 1 - (1 - p) ^ 3 \<le> 1"
  by (simp add: power_le_one)

text \<open>It never leaves the interval between the two values.\<close>

lemma animated_between:
  assumes "0 \<le> p" "p \<le> 1" "a \<le> b"
  shows "a \<le> animated_value (of_int a) (of_int b) p \<and> animated_value (of_int a) (of_int b) p \<le> b"
proof -
  let ?e = "1 - (1 - p) ^ 3" and ?d = "of_int b - of_int a :: rat"
  have e: "0 \<le> ?e" "?e \<le> 1" using ease_between [OF assms(1,2)] by simp_all
  have d: "0 \<le> ?d" using assms(3) by simp
  have "0 \<le> ?d * ?e" "?d * ?e \<le> ?d" using e d mult_left_le [of ?e ?d] by simp_all
  then have "of_int a \<le> of_int a + ?d * ?e" "of_int a + ?d * ?e \<le> of_int b" by simp_all
  then have "js_round (of_int a) \<le> js_round (of_int a + ?d * ?e)" "js_round (of_int a + ?d * ?e) \<le> js_round (of_int b)"
    by (simp_all only: js_round_mono)
  then show ?thesis by (simp add: animated_value_def Let_def)
qed

definition activeStage :: "rat \<Rightarrow> int" where
  "activeStage progress = min \<lfloor>progress * 4 * (115 / 100)\<rfloor> (4 - 1)"

lemma activeStage_bounds: "0 \<le> p \<Longrightarrow> 0 \<le> activeStage p \<and> activeStage p \<le> 3"
  by (simp add: activeStage_def)

record result_counts =
  rc_potCount :: int
  rc_turboRate :: int
  rc_reduction :: int

definition result_counts :: "rat \<Rightarrow> result_counts" where
  "result_counts progress =
     (let p = min (progress * 2) 1
      in \<lparr>rc_potCount = js_round (p * 49000), rc_turboRate = js_round (p * 94), rc_reduction = js_round (p * 96)\<rparr>)"

lemma result_counts_max: "rc_potCount (result_counts p) \<le> 49000 \<and> rc_turboRate (result_counts p) \<le> 94"
proof -
  have "js_round (min (p * 2) 1 * 49000) \<le> js_round (of_int 49000)" "js_round (min (p * 2) 1 * 94) \<le> js_round (of_int 94)"
    by (rule js_round_mono, simp add: min_def)+
  then show ?thesis by (simp only: result_counts_def Let_def js_round_of_int result_counts.select_convs)
qed

end
