(* ===== verification/Spec2Isabelle.thy ===== *)
theory Spec2Isabelle
  imports Roughtime TimeSynthesis PotSerial HttpClient AdaptiveSwitch PotVerifier PotSigner
    PoolRegistry EvmConnector Signers V4Hook TrustStore Logging IntegrityClient X402 Subgraph
    Integrations ElizaPlugin McpTools McpAsync FrameProtocol ClientTypes SwapBots Demos
    HttpsRequests Deploys Interfaces Accuracy VerifierRuns Commitments OrderingDemos Explainer
begin

text \<open>
  A model of the TypeScript of OpenTTT, and the theorems that make it correct.

  OpenTTT issues Proofs of Time: several independent time sources are asked at once, the
  median of their answers becomes a timestamp, and the timestamp is bound to a fresh nonce,
  signed, serialised, sent as a frame inside a TLS session, verified once, recorded on a
  chain, and used to decide whether a block builder kept the order of its transactions.

  The theories, in the order of the imports, with the files under \<open>src/src\<close> they model:

  \<^item> \<open>Prelude\<close>, \<open>Bytes\<close>, \<open>JsMap\<close>, \<open>Json\<close>: the JavaScript the sources use.  Buffers are lists
    of 8-bit words, with the little- and big-endian reads and writes, hex, base64 and UTF-8;
    \<open>Map\<close> and \<open>Set\<close> are association lists in insertion order; JSON values are a datatype whose
    objects keep their keys in order; \<open>bigint\<close> is \<open>int\<close> and its division truncates.
  \<^item> \<open>Interfaces\<close>: the contracts that the components share, as locales whose consequences are
    proved once.  \<open>kept\<close> is a property every operation preserves (the window of a builder, the
    pool totals, the trust store, the logs and counters of the server); \<open>settles\<close> a promise that
    keeps its first result (the exchanges of the sources, the calls of one instance);
    \<open>refines\<close> and \<open>simulation\<close> an implementation that agrees with its specification over every
    run; \<open>bounded_log\<close> a list that keeps its newest entries (the switch, the server); \<open>codec\<close>
    and \<open>lossless_codec\<close> a form that determines what was written.  Each is interpreted on the
    components' own definitions, in their theories.
  \<^item> \<open>Errors\<close> (\<open>errors.ts\<close>): the codes, the exception classes, and the exception monad every
    throwing function returns into (\<open>Inl\<close> is a throw).
  \<^item> \<open>TimeTypes\<close> (\<open>types.ts\<close>): readings, synthesised times, proofs of time; \<open>settle\<close> is what a
    promise becomes: fulfilled, rejected, or an exception nobody catches.
  \<^item> \<open>TimeSources\<close> (\<open>time_synthesis.ts\<close>, \<open>osnma_source.ts\<close>): NTP, HTTPS and OSNMA.  The
    locale \<open>time_source\<close> is the contract of a source (a reading carries the name of its
    source), interpreted for every source of the program.
  \<^item> \<open>Roughtime\<close> (\<open>roughtime_source.ts\<close>): the tag-value codec, the request, the validation of a
    response, with the signed 32-bit index of the Merkle walk, and the socket exchange.
  \<^item> \<open>ReplayGuard\<close>: the nonce cache that \<open>time_synthesis.ts\<close> and \<open>http_client.ts\<close> share, and the
    locale \<open>replay_guard\<close> of what a verifier needs of a cache, interpreted for the bounded
    cache here and for the frame verifier's cache in \<open>PotVerifier\<close>.
  \<^item> \<open>TimeSynthesis\<close> (\<open>time_synthesis.ts\<close>): configuration, median, generation, verification.
  \<^item> \<open>HttpsRequests\<close> (\<open>time_synthesis.ts\<close>): many calls of one HTTPS source and its \<open>close\<close>, in any
    order: each call settles as it would alone, until a date that does not parse throws in the callback
    of one of them and ends the process for all.
  \<^item> \<open>Accuracy\<close> (\<open>time_synthesis.ts\<close>, \<open>roughtime_source.ts\<close>): where the true time is.  The locale
    \<open>timed_exchange\<close> is an exchange of a source with a server that tells the truth, over a network
    that delays the packets as it likes; NTP, HTTPS and Roughtime are its interpretations, and the
    accuracy of a generated proof follows from a majority of them.
  \<^item> \<open>PotSerial\<close> (\<open>time_synthesis.ts\<close>): the JSON and the binary form of a proof, including
    rounding to a 32-bit float, and what the two forms determine.
  \<^item> \<open>HttpClient\<close> (\<open>http_client.ts\<close>): proofs protected by an HMAC.
  \<^item> \<open>AdaptiveSwitch\<close> (\<open>adaptive_switch.ts\<close>): the mode of a builder from its last 20 blocks.
  \<^item> \<open>PotFrame\<close> (\<open>pot_frame.ts\<close>, \<open>tls_binding.ts\<close>) and \<open>PotVerifier\<close> (\<open>pot_verifier.ts\<close>): the
    frame, its binding to a TLS session, and its verification with the nonce cache.
    \<open>VerifierRuns\<close> is its specification, a list of the nonces accepted and when, and the proof
    that every run of the verifier answers as the specification does.
  \<^item> \<open>PotSigner\<close> (\<open>pot_signer.ts\<close>): keys, signatures and the key file; \<open>Commitments\<close>: what the
    hash that is signed for the chain commits to, and what it leaves open.
  \<^item> \<open>PoolRegistry\<close> (\<open>pool_registry.ts\<close>): pools, token ids and their totals.
  \<^item> \<open>EvmConnector\<close> (\<open>evm_connector.ts\<close>): connection and fallbacks, contracts, listeners,
    transactions.
  \<^item> \<open>Signers\<close> (\<open>signer.ts\<close>): DER decoding, the KMS signers of both services, the factory.
  \<^item> \<open>SwapTypes\<close> (\<open>types.ts\<close>) and \<open>V4Hook\<close> (\<open>v4_hook.ts\<close>): the data of a swap, the two hooks around
    it and their statistics, over the connector's model.
  \<^item> \<open>ClientTypes\<close> (\<open>types.ts\<close>): the configuration and the reports of the client, which is
    not in the repository: records without operations.
  \<^item> \<open>TrustStore\<close> (\<open>trust_store.ts\<close>, \<open>networks.ts\<close>): the registry of sources, which refines a
    function from names to sources; and \<open>Logging\<close> (\<open>logger.ts\<close>): the levels, which
    are a linear order, and redaction.
  \<^item> \<open>Fetching\<close>: \<open>fetch\<close> as a request and its outcome; \<open>IntegrityClient\<close>
    (\<open>integrity_client.ts\<close>) and \<open>CtLog\<close> (\<open>ct_log.ts\<close>) are its clients.

  Around the core, with the files under \<open>src\<close>:

  \<^item> \<open>X402\<close> (\<open>mcp/packages/x402-pot/src/index.ts\<close>): proofs attached to payments.
  \<^item> \<open>Subgraph\<close> (\<open>subgraph/src/mapping.ts\<close>): the event handlers, whose daily and hourly rows
    equal what is counted from the list of all events.
  \<^item> \<open>Integrations\<close> (\<open>integrations/openai/ttt_function.ts\<close>,
    \<open>integrations/langchain/ttt_pot_tool.ts\<close>): the agent tools.
  \<^item> \<open>ElizaTime\<close> and \<open>ElizaPlugin\<close> (\<open>plugins/elizaos-plugin-openttt/src\<close>): the plugin's time
    provider, its cache of tokens, its actions and its evaluator.
  \<^item> \<open>McpTools\<close> (\<open>mcp/tools.ts\<close>, \<open>mcp/telemetry.ts\<close>, \<open>mcp/index.ts\<close>): the server's tools over
    the state of the module; \<open>McpAsync\<close>: the same tools cut at each \<open>await\<close>, and their pieces
    interleaved in every order by an inductive step relation, with the wait for the subgraph as the
    code has it: a timer that ends the wait for the headers, and none for the body.
  \<^item> \<open>Scripts\<close> (\<open>contracts/scripts/setup_pool.ts\<close>) and \<open>SwapBots\<close>
    (\<open>contracts/scripts/swap_bot.ts\<close>, \<open>verify_swap_bot.ts\<close>): what the scripts
    send to the chain, as the list of transactions and calls, for any answers of the chain;
    \<open>Deploys\<close> (\<open>deploy.ts\<close>, \<open>deploy_sepolia.ts\<close>, \<open>deploy_base_sepolia.ts\<close>, \<open>deploy_hook_only.ts\<close>,
    \<open>grant_role.ts\<close>, \<open>check_and_grant.ts\<close>, \<open>single_mint.ts\<close>, \<open>single_verify.ts\<close>): the same for the deployments, the
    roles, the single mint and the single verification, with the networks and keys of \<open>hardhat.config.ts\<close>.
  \<^item> \<open>Demos\<close> (\<open>examples/x402-pot/x402_pot_example.ts\<close>, \<open>examples/05-flashbots-protect.ts\<close>), and
    \<open>OrderingDemos\<close> (\<open>examples/07-multi-agent-ordering/ordering_demo.ts\<close>,
    \<open>examples/09-governance-pot/governance_pot.ts\<close>): four examples run whole over the models of what
    they call.
  \<^item> \<open>Explainer\<close> (\<open>demo/GRGExplainer.tsx\<close>): the player of the demo, its timer and its buttons, and
    the numbers it animates.

  \<open>FrameProtocol\<close> puts the frame verifier into a network: an issuer, peers, sessions, and an
  attacker who keeps, replays, mixes and invents messages.  Its step relation is the environment of
  \<open>pot_verifier.ts\<close>, not code; the verifier inside it is the model of \<open>PotVerifier\<close>.  The issuer may
  sign anything: what is asked is that signatures and session keys are not forged, and that the clock of
  the verifier does not go back.

  What is not under \<open>src/\<close> is an argument of the definitions that use it: SHA-256, SHA-512,
  HMAC, Ed25519, keccak and the ABI encoder, the date parser, random bytes, every reading of
  the clock (each \<open>Date.now()\<close> of a function is an argument of its own), the TLS exporter, the
  RPC node and the contracts.  A theorem that needs a law of one of them names it as a
  hypothesis, and its witness instantiates it.  Asynchronous code is a function of the
  sequence of events its callbacks see, in any order; \<open>Promise.allSettled\<close> is a function of
  the results.

  The groups of lemmas: each codec is inverted by its parser (the Roughtime messages, the JSON
  and the binary form of a proof, the frame, the registry's state, DER signatures and keys); the
  loops over indices and bytes equal a reference on lists (the Merkle walk, the sliding
  window, the base64 groups); each cache keeps its bound and its order of insertion; and the
  replay arguments are made once, in \<open>replay_guard\<close>.  The bounds in those arguments come from
  the code: a nonce survives while fewer than 10000 later ones are stored and its lifetime
  has not ended.  No definition uses fuel: the loops recur on lists, on the bytes left,
  or up to a constant bound.

  The components compose as the code has them: the tools and the server call the model of the
  time synthesis, so what a generation leaves in the nonce cache decides what they answer;
  the hook runs over the connector's state; the x402 facilitator over the HTTP client's; the swap bot runs
  on the file that the setup of the pool wrote.  The last section joins generation, binary
  form and verification.

  Not modelled: the text of \<open>JSON.stringify\<close> below the level of JSON values, the callbacks and
  descriptions of the agent frameworks, the timers that abort a request of the integrity client and of the plugin (the abort is one
  of the rejections), the re-exports of \<open>index.ts\<close>, generated code (the typechain and subgraph
  bindings, more than half of the repository's TypeScript), the drawing of the demo, the dashboard's page script, the shell loops
  around the scripts, the examples that only print or that use a client which is not
  in the repository, the Python integrations, the Rust client and the Solidity contracts.  The state
  of the contracts is on the chain, so the scripts' theorems hold for every answer of it.  The
  integrity pipeline the server imports is not in the repository; its two functions are arguments.
\<close>

section \<open>A proof that travels\<close>

text \<open>A reading without its stratum is judged no more strictly.\<close>

lemma tolerance_mono: "k \<le> m \<Longrightarrow> getToleranceForStratum k \<le> getToleranceForStratum m"
  by (simp add: getToleranceForStratum_def)

lemma lowest_stratum_le: "lowest_stratum rs acc \<le> acc"
proof (induction rs arbitrary: acc)
  case (Cons r rs)
  show ?case by (auto split: option.splits intro: order.trans [OF Cons])
qed simp

lemma lowest_stratum_none: "lowest_stratum (map (\<lambda>r. r\<lparr>sr_stratum := None\<rparr>) rs) acc = acc"
  by (induction rs) simp_all

text \<open>What two readings are judged by; the confidence only has to be positive.\<close>

lemma stripped_verifies:
  assumes "fst (verifyProofOfTime t_exp t_now pot ts)" and "t_exp' \<le> expiresAt pot" and "0 < c"
    and "jm_get (pot_nonce pot) (usedNonces ts') = None"
  shows "fst (verifyProofOfTime t_exp' t_now'
           (pot\<lparr>pot_uncertainty := u, pot_confidence := c,
              sourceReadings := map (\<lambda>r. r\<lparr>sr_stratum := None\<rparr>) (sourceReadings pot), issuerSignature := None\<rparr>) ts')"
proof -
  have "getToleranceForStratum (lowest_stratum (sourceReadings pot) (pot_stratum pot))
        \<le> getToleranceForStratum (pot_stratum pot)"
    by (rule tolerance_mono) (rule lowest_stratum_le)
  then show ?thesis
    using assms(1-3) nonce_step_fresh [of "pot_nonce pot" "usedNonces ts'"] assms(4) unfolding verify_iff jm_has_get
    by (fastforce simp: lowest_stratum_none)
qed

text \<open>What the layout can hold of an answer.\<close>

definition answer_fits :: "time_reading \<Rightarrow> bool" where
  "answer_fits r \<longleftrightarrow>
     ascii (tr_source r) \<and> length (tr_source r) < 256 \<and> 0 \<le> tr_timestamp r \<and> tr_timestamp r < 2 ^ 64 \<and>
     0 \<le> tr_stratum r \<and> tr_stratum r < 256 \<and> f32_exact (tr_uncertainty r) \<and> \<bar>tr_uncertainty r\<bar> < 2 ^ 64"

lemma select_time_fits:
  assumes "\<forall>r \<in> set readings. answer_fits r" and "readings \<noteq> []" and "select_time readings = (t, u, k)"
  shows "0 \<le> t \<and> t < 2 ^ 64 \<and> \<bar>u\<bar> < 2 ^ 64 \<and> 0 \<le> k \<and> k < 256"
proof -
  let ?rs = "sort_key tr_timestamp readings"
  have fits: "answer_fits (?rs ! i)" if "i < length ?rs" for i
    using nth_mem [OF that] assms(1) by simp
  consider "length ?rs = 2" | "length ?rs \<noteq> 2" by blast
  then show ?thesis
  proof cases
    case 1
    then have a: "answer_fits (?rs ! 0)" "answer_fits (?rs ! 1)" using fits by simp_all
    have r: "t = tdiv (tr_timestamp (?rs ! 0) + tr_timestamp (?rs ! 1)) 2"
      "u = (tr_uncertainty (?rs ! 0) + tr_uncertainty (?rs ! 1)) / 2"
      "k = min (tr_stratum (?rs ! 0)) (tr_stratum (?rs ! 1))"
      using assms(3) 1 by (auto simp: select_time_def Let_def)
    have "t = (tr_timestamp (?rs ! 0) + tr_timestamp (?rs ! 1)) div 2"
      using a by (simp add: r(1) tdiv_nonneg answer_fits_def)
    then have "0 \<le> t \<and> t < 2 ^ 64" using a by (auto simp: answer_fits_def)
    moreover have "\<bar>u\<bar> < 2 ^ 64"
      using a abs_triangle_ineq [of "tr_uncertainty (?rs ! 0)" "tr_uncertainty (?rs ! 1)"] by (simp add: r(2) answer_fits_def)
    moreover have "0 \<le> k \<and> k < 256" using a by (auto simp: r(3) answer_fits_def)
    ultimately show ?thesis by blast
  next
    case 2
    define i where "i = (if length ?rs = 1 then 0 else length ?rs div 2)"
    have "i < length ?rs" using assms(2) by (auto simp: i_def)
    then have "answer_fits (?rs ! i)" by (rule fits)
    moreover have "t = tr_timestamp (?rs ! i) \<and> u = tr_uncertainty (?rs ! i) \<and> k = tr_stratum (?rs ! i)"
      using assms(3) 2 by (auto simp: select_time_def Let_def i_def split: if_splits)
    ultimately show ?thesis by (simp add: answer_fits_def)
  qed
qed

lemma fulfilled_length: "length (fulfilled_values results) \<le> length results"
  by (induction results rule: fulfilled_values.induct) simp_all

text \<open>The fields of a generated proof fit, and its two numbers can be rounded.\<close>

lemma generated_fits:
  assumes gen: "generateProofOfTime results rand t_iss t_exp t_now ts = (Fulfilled pot, ts')"
    and answers: "\<forall>r \<in> set (fulfilled_values results). answer_fits r"
    and sizes: "length results < 256" "length (ts_sources ts) < 256" "length rand < 128" "0 \<le> t_iss" "t_iss + 60000 < 2 ^ 64"
  shows "pot_fields_fit pot \<and> \<bar>pot_uncertainty pot\<bar> < 2 ^ 127 \<and>
     1 \<le> pot_confidence pot * 2 ^ 149 \<and> pot_confidence pot < 2 ^ 127"
proof -
  let ?vs = "fulfilled_values results"
  note g = generate_cases [OF gen]
  have ne: "?vs \<noteq> []" and sel: "select_time ?vs = (pot_timestamp pot, pot_uncertainty pot, pot_stratum pot)"
    and v: "fst (verifyProofOfTime t_exp t_now pot ts)"
    using g by auto
  note b = select_time_fits [OF answers ne sel]
  have n: "length ?vs < 256" using fulfilled_length [of results] sizes(1) by simp
  have conf: "pot_confidence pot = of_nat (length ?vs) / of_nat (length (ts_sources ts))" using g by blast
  have "0 < pot_confidence pot" using v unfolding verify_iff by blast
  then have pos: "0 < length (ts_sources ts)" unfolding conf by (cases "length (ts_sources ts)") simp_all
  then have one: "(1 :: rat) \<le> of_nat (length (ts_sources ts))" by (cases "length (ts_sources ts)") simp_all
  have "length (ts_sources ts) \<le> length ?vs * 256" using sizes(2) ne by (cases ?vs) simp_all
  then have "of_nat (length (ts_sources ts)) \<le> (of_nat (length ?vs * 256) :: rat)" by (simp only: of_nat_le_iff)
  then have "1 \<le> pot_confidence pot * 256" using pos unfolding conf by (simp add: pos_le_divide_eq)
  then have low: "1 \<le> pot_confidence pot * 2 ^ 149" by simp
  have "pot_confidence pot \<le> of_nat (length ?vs) / 1" unfolding conf using one pos by (intro divide_left_mono) (simp_all add: Suc_le_eq)
  also have "\<dots> < 256" using n by simp
  finally have "pot_confidence pot < 2 ^ 127" by simp
  moreover have "length (utf8_encode (pot_nonce pot)) < 256" using g sizes(3) by (simp add: length_utf8_ascii)
  moreover have "\<forall>r \<in> set (sourceReadings pot). reading_fits r"
    using g answers by (auto simp: reading_fits_def reading_entry_def answer_fits_def)
  moreover have "length (sourceReadings pot) < 256" "pot_sources pot < 256" "expiresAt pot = t_iss + 60000"
    using g n by simp_all
  ultimately show ?thesis using b low sizes(4,5) by (simp add: pot_fields_fit_def)
qed

text \<open>
  C7. A proof travels.  A proof that one instance generated, of at most 255 answers of at most 255 sources, each
  with a short ASCII name, a 64-bit time, a byte for its stratum and an uncertainty that is a
  binary32 number (the sources give half milliseconds, which are for more than two hours), with fewer
  than 128 random bytes (the code draws 16) and an expiry within 64 bits, written to its binary form
  and read back by another party, arrives with the same time, nonce, expiry, sources, stratum and
  readings, without the strata of the readings, and with the confidence and the uncertainty
  rounded to binary32 numbers.  It is verified there, at any time up to its expiry and by an
  instance that has not seen its nonce, and then not a second time within the nonce's lifetime:
  the strata that the layout drops only make the tolerance larger.
\<close>

theorem generated_proof_travels:
  assumes gen: "generateProofOfTime results rand t_iss t_exp t_now ts = (Fulfilled pot, ts')"
    and answers: "\<forall>r \<in> set (fulfilled_values results). answer_fits r"
    and sizes: "length results < 256" "length (ts_sources ts) < 256" "length rand < 128" "0 \<le> t_iss" "t_iss + 60000 < 2 ^ 64"
    and other: "synthesis_ok vs" "jm_get (pot_nonce pot) (usedNonces vs) = None" and time: "t_exp' \<le> t_iss + 60000"
    and again: "t_now'' \<le> t_now' + NONCE_TTL_MS"
  shows "\<exists>buf u c vs'. f32_decode (f32_encode (pot_uncertainty pot)) = Some u \<and>
           f32_decode (f32_encode (pot_confidence pot)) = Some c \<and>
           (let pot' = pot\<lparr>pot_uncertainty := u, pot_confidence := c,
                  sourceReadings := map (\<lambda>r. r\<lparr>sr_stratum := None\<rparr>) (sourceReadings pot), issuerSignature := None\<rparr>
            in serializeToBinary pot = Inr buf \<and> deserializeFromBinary buf = Inr (Some pot') \<and>
               verifyProofOfTime t_exp' t_now' pot' vs = (True, vs') \<and>
               \<not> fst (verifyProofOfTime t_exp'' t_now'' pot' vs'))"
proof -
  note fit = generated_fits [OF gen answers sizes]
  obtain u where u: "f32_decode (f32_encode (pot_uncertainty pot)) = Some u" using f32_rounds fit by blast
  obtain c where c: "f32_decode (f32_encode (pot_confidence pot)) = Some c" "0 < c" using f32_rounds_pos fit by blast
  let ?p = "pot\<lparr>pot_uncertainty := u, pot_confidence := c,
      sourceReadings := map (\<lambda>r. r\<lparr>sr_stratum := None\<rparr>) (sourceReadings pot), issuerSignature := None\<rparr>"
  have "fst (verifyProofOfTime t_exp t_now pot ts)" "expiresAt pot = t_iss + 60000"
    using generate_cases [OF gen] by blast+
  then have ok: "fst (verifyProofOfTime t_exp' t_now' ?p vs)"
    using stripped_verifies time other(2) c(2) by metis
  have "\<not> fst (nonce_cache_step MAX_NONCE_CACHE NONCE_TTL_MS t_now'' (pot_nonce ?p)
          (usedNonces (fold synthesis_step [] (snd (verifyProofOfTime t_exp' t_now' ?p vs)))))"
    using other(1) ok again verify_True_cache [OF ok] unfolding synthesis_ok_def verify_iff
    by (intro capped.no_replay [where cache = usedNonces and ?s0.0 = vs and ?t0.0 = t_now']) simp_all
  then have "\<not> fst (verifyProofOfTime t_exp'' t_now'' ?p (snd (verifyProofOfTime t_exp' t_now' ?p vs)))"
    unfolding verify_iff by simp
  moreover obtain buf where "serializeToBinary pot = Inr buf" "deserializeFromBinary buf = Inr (Some ?p)"
    using binary_codec_rounded [OF _ u c(1)] fit by blast
  moreover have "verifyProofOfTime t_exp' t_now' ?p vs = (True, snd (verifyProofOfTime t_exp' t_now' ?p vs))"
    using ok by (simp add: prod_eq_iff)
  ultimately show ?thesis using u c(1) unfolding Let_def
    by (intro exI [of _ buf] exI [of _ u] exI [of _ c] exI [of _ "snd (verifyProofOfTime t_exp' t_now' ?p vs)"] conjI)
qed

text \<open>Two of three sources answer, so that the confidence is two thirds.\<close>

definition trio :: time_synthesis where
  "trio = \<lparr>ts_sources = map (\<lambda>n. HttpsSrc \<lparr>https_name = n, https_url = []\<rparr>) [''a'', ''b'', ''c''], usedNonces = []\<rparr>"

definition trio_answers :: "time_reading settle list" where
  "trio_answers = [Fulfilled \<lparr>tr_timestamp = 1000, tr_uncertainty = 1, tr_stratum = 2, tr_source = ''a''\<rparr>, Rejected (JsError []),
     Fulfilled \<lparr>tr_timestamp = 1002, tr_uncertainty = 1, tr_stratum = 2, tr_source = ''c''\<rparr>]"

lemma trio_generates:
  "\<exists>pot ts'. generateProofOfTime trio_answers [7] 0 0 0 trio = (Fulfilled pot, ts') \<and>
     pot_confidence pot = 2 / 3 \<and> pot_timestamp pot = 1001"
  by (simp add: trio_def trio_answers_def generateProofOfTime_def select_time_def verifyProofOfTime_def Let_def
      nonce_cache_step_def reading_entry_def MAX_NONCE_CACHE_def jm_has_def getToleranceForStratum_def reading_tolerance_def
      js_round_def tdiv_def)

lemma generated_proof_travels_witness:
  "\<exists>pot ts' buf pot' vs'. generateProofOfTime trio_answers [7] 0 0 0 trio = (Fulfilled pot, ts') \<and>
     pot_confidence pot = 2 / 3 \<and>
     serializeToBinary pot = Inr buf \<and> deserializeFromBinary buf = Inr (Some pot') \<and> pot_timestamp pot' = 1001 \<and>
     verifyProofOfTime 59000 59000 pot' \<lparr>ts_sources = [], usedNonces = []\<rparr> = (True, vs') \<and>
     \<not> fst (verifyProofOfTime 59001 59001 pot' vs')"
proof -
  obtain pot ts' where g: "generateProofOfTime trio_answers [7] 0 0 0 trio = (Fulfilled pot, ts')"
    and p: "pot_confidence pot = 2 / 3" "pot_timestamp pot = 1001" using trio_generates by blast
  have "\<forall>r \<in> set (fulfilled_values trio_answers). answer_fits r"
    by (simp add: trio_answers_def answer_fits_def ascii_def f32_exact_one)
  then have "\<exists>buf u c vs'. f32_decode (f32_encode (pot_uncertainty pot)) = Some u \<and>
      f32_decode (f32_encode (pot_confidence pot)) = Some c \<and>
      (let pot' = pot\<lparr>pot_uncertainty := u, pot_confidence := c,
             sourceReadings := map (\<lambda>r. r\<lparr>sr_stratum := None\<rparr>) (sourceReadings pot), issuerSignature := None\<rparr>
       in serializeToBinary pot = Inr buf \<and> deserializeFromBinary buf = Inr (Some pot') \<and>
          verifyProofOfTime 59000 59000 pot' \<lparr>ts_sources = [], usedNonces = []\<rparr> = (True, vs') \<and>
          \<not> fst (verifyProofOfTime 59001 59001 pot' vs'))"
    by (rule generated_proof_travels [OF g])
       (simp_all add: trio_def trio_answers_def synthesis_ok_def nonce_cache_ok_def NONCE_TTL_MS_def)
  then show ?thesis using g p unfolding Let_def by fastforce
qed

end
